(* ===== verification/Prelude.thy ===== *)
theory Prelude
  imports Main "HOL-Library.Char_ord" "HOL-Library.List_Lexorder"
begin

text \<open>
  Shared vocabulary of the development: Rust strings as lists of UTF-8 bytes (\<open>string\<close>, a
  \<open>char list\<close> whose length counts bytes, as \<open>str::len\<close> does), the standard-library
  string operations the daemons use, decimal printing and parsing of machine integers, checked
  and saturating arithmetic at a width, and the generic lemmas about them. Case folding and
  white space are modelled on the ASCII range; bytes above 127 are left alone.
\<close>

named_theorems str_simps \<open>evaluation rules of the string operations\<close>
named_theorems arith_defs \<open>definitions of the fixed-width arithmetic operations\<close>

type_synonym timestamp = string

section \<open>Errors as values\<close>

text \<open>Rust's \<open>Result\<close> is \<open>'e + 'a\<close>: \<open>Inl\<close> the error, \<open>Inr\<close> the value.
  \<open>and_then\<close> is the question-mark operator.\<close>

fun and_then :: "'e + 'a \<Rightarrow> ('a \<Rightarrow> 'e + 'b) \<Rightarrow> 'e + 'b" where
  "and_then (Inl e) f = Inl e"
| "and_then (Inr a) f = f a"

fun ok :: "'e + 'a \<Rightarrow> 'a option" where
  "ok (Inl e) = None"
| "ok (Inr a) = Some a"

definition is_ok :: "'e + 'a \<Rightarrow> bool" where
  "is_ok r = (case r of Inl _ \<Rightarrow> False | Inr _ \<Rightarrow> True)"

lemma is_ok_simps [simp]: "is_ok (Inr a)" "\<not> is_ok (Inl e)"
  by (simp_all add: is_ok_def)

lemma is_ok_iff: "is_ok r \<longleftrightarrow> (\<exists>a. r = Inr a)"
  by (cases r) auto

lemma and_then_Inr: "and_then r f = Inr b \<longleftrightarrow> (\<exists>a. r = Inr a \<and> f a = Inr b)"
  by (cases r) auto

section \<open>Characters\<close>

definition ascii_upper :: "char \<Rightarrow> bool" where
  "ascii_upper c = (65 \<le> (of_char c :: nat) \<and> (of_char c :: nat) \<le> 90)"

definition ascii_lower :: "char \<Rightarrow> bool" where
  "ascii_lower c = (97 \<le> (of_char c :: nat) \<and> (of_char c :: nat) \<le> 122)"

definition ascii_digit :: "char \<Rightarrow> bool" where
  "ascii_digit c = (48 \<le> (of_char c :: nat) \<and> (of_char c :: nat) \<le> 57)"

definition ascii_alnum :: "char \<Rightarrow> bool" where
  "ascii_alnum c = (ascii_upper c \<or> ascii_lower c \<or> ascii_digit c)"

definition is_whitespace :: "char \<Rightarrow> bool" where
  "is_whitespace c = ((of_char c :: nat) = 32 \<or> 9 \<le> (of_char c :: nat) \<and> (of_char c :: nat) \<le> 13)"

definition lower_char :: "char \<Rightarrow> char" where
  "lower_char c = (if ascii_upper c then char_of ((of_char c :: nat) + 32) else c)"

lemma of_char_lt [simp]: "(of_char c :: nat) < 256"
  by (cases c) (simp add: horner_sum_simps split: if_splits)

lemma lower_char_not_upper [simp]: "\<not> ascii_upper (lower_char c)"
  by (auto simp: lower_char_def ascii_upper_def of_char_of)

lemma lower_char_idem [simp]: "lower_char (lower_char c) = lower_char c"
  using lower_char_not_upper [of c] by (simp add: lower_char_def [of "lower_char c"])

lemma lower_char_whitespace [simp]: "is_whitespace (lower_char c) = is_whitespace c"
  by (auto simp: lower_char_def ascii_upper_def is_whitespace_def of_char_of)

text \<open>A continuation byte of UTF-8: slicing a string before one panics.\<close>

definition utf8_continuation :: "char \<Rightarrow> bool" where
  "utf8_continuation c = (128 \<le> (of_char c :: nat) \<and> (of_char c :: nat) < 192)"

section \<open>Strings\<close>

definition to_lowercase :: "string \<Rightarrow> string" where
  "to_lowercase s = List.map lower_char s"

lemma to_lowercase_idem [simp]: "to_lowercase (to_lowercase s) = to_lowercase s"
  by (simp add: to_lowercase_def)

lemma to_lowercase_no_upper: "c \<in> set (to_lowercase s) \<Longrightarrow> \<not> ascii_upper c"
  by (auto simp: to_lowercase_def)

definition upper_char :: "char \<Rightarrow> char" where
  "upper_char c = (if ascii_lower c then char_of ((of_char c :: nat) - 32) else c)"

definition to_uppercase :: "string \<Rightarrow> string" where
  "to_uppercase s = List.map upper_char s"

fun starts_with :: "string \<Rightarrow> string \<Rightarrow> bool" where
  "starts_with s [] = True"
| "starts_with [] (p # ps) = False"
| "starts_with (c # s) (p # ps) = (c = p \<and> starts_with s ps)"

lemma starts_with_iff: "starts_with s p \<longleftrightarrow> (\<exists>t. s = p @ t)"
  by (induction s p rule: starts_with.induct) auto

fun contains :: "string \<Rightarrow> string \<Rightarrow> bool" where
  "contains [] p = (p = [])"
| "contains (c # s) p = (starts_with (c # s) p \<or> contains s p)"

lemma contains_iff: "contains s p \<longleftrightarrow> (\<exists>u v. s = u @ p @ v)"
proof (induction s)
  case Nil
  show ?case by simp
next
  case (Cons c s)
  show ?case
  proof
    assume "contains (c # s) p"
    then consider "starts_with (c # s) p" | "contains s p" by auto
    then show "\<exists>u v. c # s = u @ p @ v"
    proof cases
      case 1
      then show ?thesis by (metis append_Nil starts_with_iff)
    next
      case 2
      then obtain u v where "s = u @ p @ v" using Cons.IH by blast
      then have "c # s = (c # u) @ p @ v" by simp
      then show ?thesis by blast
    qed
  next
    assume "\<exists>u v. c # s = u @ p @ v"
    then obtain u v where uv: "c # s = u @ p @ v" by blast
    show "contains (c # s) p"
    proof (cases u)
      case Nil
      with uv have "starts_with (c # s) p" by (simp add: starts_with_iff)
      then show ?thesis by simp
    next
      case (Cons d u')
      with uv have "s = u' @ p @ v" by simp
      then show ?thesis using Cons.IH by auto
    qed
  qed
qed

lemma contains_set: "contains s p \<Longrightarrow> set p \<subseteq> set s"
  by (auto simp: contains_iff)

lemma contains_append: "contains s p \<Longrightarrow> contains (u @ s @ v) p"
  by (auto simp: contains_iff) (metis append.assoc)

lemma contains_self [simp]: "contains s s"
  by (auto simp: contains_iff intro: exI [of _ "[]"])

fun split_whitespace_aux :: "string \<Rightarrow> string \<Rightarrow> string list" where
  "split_whitespace_aux w [] = (if w = [] then [] else [rev w])"
| "split_whitespace_aux w (c # s) =
     (if is_whitespace c
      then (if w = [] then split_whitespace_aux [] s else rev w # split_whitespace_aux [] s)
      else split_whitespace_aux (c # w) s)"

definition split_whitespace :: "string \<Rightarrow> string list" where
  "split_whitespace s = split_whitespace_aux [] s"

fun join :: "string \<Rightarrow> string list \<Rightarrow> string" where
  "join sep [] = []"
| "join sep [x] = x"
| "join sep (x # y # ys) = x @ sep @ join sep (y # ys)"

lemma set_join: "set (join sep xs) \<subseteq> set sep \<union> (\<Union>x \<in> set xs. set x)"
  by (induction sep xs rule: join.induct) auto

lemma set_split_whitespace_aux:
  "(\<Union>x \<in> set (split_whitespace_aux w s). set x) \<subseteq> set w \<union> set s"
proof (induction w s rule: split_whitespace_aux.induct)
  case (1 w)
  then show ?case by simp
next
  case (2 w c s)
  show ?case
  proof (cases "is_whitespace c")
    case True
    then show ?thesis using 2 by (cases "w = []") auto
  next
    case False
    then show ?thesis using 2 by simp
  qed
qed

lemma set_split_whitespace: "(\<Union>x \<in> set (split_whitespace s). set x) \<subseteq> set s"
  using set_split_whitespace_aux [of "[]" s] by (simp add: split_whitespace_def)

lemma split_whitespace_aux_no_ws:
  assumes "list_all (\<lambda>c. \<not> is_whitespace c) w"
  shows "list_all (\<lambda>x. x \<noteq> [] \<and> list_all (\<lambda>c. \<not> is_whitespace c) x)
    (split_whitespace_aux w s)"
  using assms
proof (induction w s rule: split_whitespace_aux.induct)
  case (1 w)
  then show ?case by simp
next
  case (2 w c s)
  show ?case
  proof (cases "is_whitespace c")
    case True
    with 2(1,2,4) show ?thesis by (cases "w = []") simp_all
  next
    case False
    with 2(3,4) show ?thesis by simp
  qed
qed

lemma split_whitespace_no_ws:
  "x \<in> set (split_whitespace s) \<Longrightarrow> x \<noteq> [] \<and> (\<forall>c \<in> set x. \<not> is_whitespace c)"
  using split_whitespace_aux_no_ws [of "[]" s] by (auto simp: split_whitespace_def list_all_iff)

definition remove_char :: "char \<Rightarrow> string \<Rightarrow> string" where
  "remove_char c s = filter (\<lambda>d. d \<noteq> c) s"

fun trim_start :: "string \<Rightarrow> string" where
  "trim_start [] = []"
| "trim_start (c # s) = (if is_whitespace c then trim_start s else c # s)"

definition trim :: "string \<Rightarrow> string" where
  "trim s = rev (trim_start (rev (trim_start s)))"

lemma trim_start_id: "(case s of [] \<Rightarrow> True | c # _ \<Rightarrow> \<not> is_whitespace c) \<Longrightarrow> trim_start s = s"
  by (cases s) auto

lemma trim_id: "\<forall>c \<in> set s. \<not> is_whitespace c \<Longrightarrow> trim s = s"
proof -
  assume a: "\<forall>c \<in> set s. \<not> is_whitespace c"
  then have "trim_start s = s"
    by (intro trim_start_id) (simp split: list.split)
  moreover from a have "trim_start (rev s) = rev s"
    by (intro trim_start_id) (metis (no_types, lifting) list.case_eq_if list.set_sel(1) set_rev)
  ultimately show ?thesis by (simp add: trim_def)
qed

text \<open>Splitting at the first occurrence of a separator byte (\<open>str::find\<close> of a char).\<close>

fun split_first :: "char \<Rightarrow> string \<Rightarrow> (string \<times> string) option" where
  "split_first c [] = None"
| "split_first c (d # s) =
     (if d = c then Some ([], s) else map_option (\<lambda>(a, b). (d # a, b)) (split_first c s))"

lemma split_first_append [simp]:
  "c \<notin> set a \<Longrightarrow> split_first c (a @ c # b) = Some (a, b)"
  by (induction a) auto

lemma split_first_None [simp]: "c \<notin> set a \<Longrightarrow> split_first c a = None"
  by (induction a) auto

lemma split_first_Some: "split_first c s = Some (a, b) \<Longrightarrow> s = a @ c # b \<and> c \<notin> set a"
  by (induction s arbitrary: a) (auto split: if_splits)

fun split_on_aux :: "char \<Rightarrow> string \<Rightarrow> string \<Rightarrow> string list" where
  "split_on_aux c w [] = [rev w]"
| "split_on_aux c w (d # s) =
     (if d = c then rev w # split_on_aux c [] s else split_on_aux c (d # w) s)"

definition split_on :: "char \<Rightarrow> string \<Rightarrow> string list" where
  "split_on c s = split_on_aux c [] s"

lemma split_on_aux_ne [simp]: "split_on_aux c w s \<noteq> []"
  by (induction c w s rule: split_on_aux.induct) auto

lemma split_on_aux_append:
  "c \<notin> set x \<Longrightarrow> split_on_aux c w (x @ s) = split_on_aux c (rev x @ w) s"
  by (induction x arbitrary: w) auto

lemma split_on_join:
  "xs \<noteq> [] \<Longrightarrow> \<forall>x \<in> set xs. c \<notin> set x \<Longrightarrow> split_on c (join [c] xs) = xs"
proof (induction "[c]" xs rule: join.induct)
  case 1
  then show ?case by simp
next
  case (2 x)
  then show ?case using split_on_aux_append [of c x "[]" "[]"] by (simp add: split_on_def)
next
  case (3 x y ys)
  then show ?case by (simp add: split_on_def split_on_aux_append)
qed

text \<open>Separators cannot be confused where the fields do not hold them.\<close>

lemma sep_inj:
  fixes a :: string
  assumes "c \<notin> set a" and "c \<notin> set b"
  shows "a @ c # x = b @ c # y \<longleftrightarrow> a = b \<and> x = y"
proof
  assume "a @ c # x = b @ c # y"
  then have "split_first c (a @ c # x) = split_first c (b @ c # y)" by simp
  then show "a = b \<and> x = y" using assms by simp
qed simp

lemma sep_inj_last:
  fixes a :: string
  assumes "c \<notin> set x" and "c \<notin> set y"
  shows "a @ c # x = b @ c # y \<longleftrightarrow> a = b \<and> x = y"
proof
  assume "a @ c # x = b @ c # y"
  then have "rev (a @ c # x) = rev (b @ c # y)" by simp
  then have "rev x @ c # rev a = rev y @ c # rev b" by simp
  then show "a = b \<and> x = y" using sep_inj [of c "rev x" "rev y" "rev a" "rev b"] assms by simp
qed simp


section \<open>JSON values\<close>

text \<open>\<open>serde_json::Value\<close>, with the conversions of optional strings and lists of strings.\<close>

datatype json = JNull | JBool bool | JNum int | JStr string | JArr "json list"
  | JObj "(string \<times> json) list"

definition jopt :: "string option \<Rightarrow> json" where
  "jopt s = (case s of None \<Rightarrow> JNull | Some x \<Rightarrow> JStr x)"

definition jarr :: "string list option \<Rightarrow> json" where
  "jarr s = (case s of None \<Rightarrow> JNull | Some xs \<Rightarrow> JArr (List.map JStr xs))"

text \<open>\<open>Value::get\<close>, \<open>as_str\<close>, \<open>as_array\<close>, \<open>as_u64\<close>.\<close>

fun jget :: "string \<Rightarrow> json \<Rightarrow> json option" where
  "jget k (JObj fs) = map_of fs k"
| "jget k _ = None"

fun as_str :: "json \<Rightarrow> string option" where
  "as_str (JStr s) = Some s"
| "as_str _ = None"

fun as_array :: "json \<Rightarrow> json list option" where
  "as_array (JArr xs) = Some xs"
| "as_array _ = None"

fun as_unsigned :: "json \<Rightarrow> nat option" where
  "as_unsigned (JNum i) = (if 0 \<le> i then Some (nat i) else None)"
| "as_unsigned _ = None"

text \<open>The answer of an HTTP handler: a panic of its task, an error status, or a body.\<close>

datatype 'a reply = Panic | Fail nat | Reply nat 'a

section \<open>Tables\<close>

text \<open>SQL's \<open>UPDATE .. WHERE\<close> on a table kept as a list of rows: the new rows and the number
  of rows changed.\<close>

definition sql_update :: "('r \<Rightarrow> bool) \<Rightarrow> ('r \<Rightarrow> 'r) \<Rightarrow> 'r list \<Rightarrow> 'r list \<times> nat" where
  "sql_update P f rs = (List.map (\<lambda>r. if P r then f r else r) rs, length (filter P rs))"

lemma sql_update_rows: "fst (sql_update P f rs) = List.map (\<lambda>r. if P r then f r else r) rs"
  by (simp add: sql_update_def)

lemma sql_update_count: "snd (sql_update P f rs) = 0 \<longleftrightarrow> (\<forall>r \<in> set rs. \<not> P r)"
  by (simp add: sql_update_def filter_empty_conv)

text \<open>A look-up by key in a list of rows; keys are unique where a primary key or a fresh UUID
  makes them so.\<close>

definition find_by :: "('r \<Rightarrow> 'k) \<Rightarrow> 'k \<Rightarrow> 'r list \<Rightarrow> 'r option" where
  "find_by key k rs = List.find (\<lambda>r. key r = k) rs"

lemma find_by_simps [simp]:
  "find_by key k [] = None"
  "find_by key k (r # rs) = (if key r = k then Some r else find_by key k rs)"
  by (simp_all add: find_by_def)

lemma find_by_Some: "find_by key k rs = Some r \<Longrightarrow> r \<in> set rs \<and> key r = k"
  by (induction rs) (auto split: if_splits)

lemma find_by_None: "find_by key k rs = None \<longleftrightarrow> k \<notin> key ` set rs"
  by (induction rs) auto

lemma find_by_append:
  "find_by key k (rs @ qs) =
     (case find_by key k rs of None \<Rightarrow> find_by key k qs | Some r \<Rightarrow> Some r)"
  by (induction rs) auto

lemma find_by_map:
  "(\<And>r. key (f r) = key r) \<Longrightarrow> find_by key k (List.map f rs) = map_option f (find_by key k rs)"
  by (induction rs) auto

lemma find_by_filter:
  "find_by key k (filter (\<lambda>r. key r \<noteq> j) rs) = (if k = j then None else find_by key k rs)"
  by (induction rs) auto

lemma find_by_distinct:
  "distinct (List.map key rs) \<Longrightarrow> r \<in> set rs \<Longrightarrow> find_by key (key r) rs = Some r"
  by (induction rs) (auto simp: image_iff)

text \<open>\<open>iter_mut().find(..)\<close>: the first row with the key is changed.\<close>

fun update_first :: "('r \<Rightarrow> 'k) \<Rightarrow> 'k \<Rightarrow> ('r \<Rightarrow> 'r) \<Rightarrow> 'r list \<Rightarrow> 'r list" where
  "update_first key k f [] = []"
| "update_first key k f (r # rs) = (if key r = k then f r # rs else r # update_first key k f rs)"

lemma map_update_first [simp]:
  "(\<And>r. g (f r) = g r) \<Longrightarrow> List.map g (update_first key k f rs) = List.map g rs"
  by (induction key k f rs rule: update_first.induct) auto

lemma length_update_first [simp]: "length (update_first key k f rs) = length rs"
  by (induction key k f rs rule: update_first.induct) auto

lemma set_update_first: "r \<in> set (update_first key k f rs) \<Longrightarrow> r \<in> set rs \<or> (\<exists>q \<in> set rs. key q = k \<and> r = f q)"
  by (induction key k f rs rule: update_first.induct) (auto split: if_splits)

lemma find_update_first:
  "(\<And>r. key (f r) = key r) \<Longrightarrow>
   find_by key j (update_first key k f rs) = (if j = k then map_option f (find_by key j rs) else find_by key j rs)"
  by (induction key k f rs rule: update_first.induct) auto

lemma filter_update_first:
  "(\<And>r. P (f r) = P r) \<Longrightarrow> length (filter P (update_first key k f rs)) = length (filter P rs)"
  by (induction key k f rs rule: update_first.induct) auto

section \<open>Runs\<close>

text \<open>A run of a machine: a list of events, each enabled in the state it meets (fresh identifiers
  and the like).\<close>

fun enabled_run :: "('s \<Rightarrow> 'e \<Rightarrow> bool) \<Rightarrow> ('s \<Rightarrow> 'e \<Rightarrow> 's) \<Rightarrow> 's \<Rightarrow> 'e list \<Rightarrow> bool" where
  "enabled_run enabled step s [] = True"
| "enabled_run enabled step s (e # es) = (enabled s e \<and> enabled_run enabled step (step s e) es)"

lemma enabled_run_True [simp]: "enabled_run (\<lambda>_ _. True) step s es"
  by (induction es arbitrary: s) simp_all

lemma enabled_run_append:
  "enabled_run enabled step s (es @ fs) \<longleftrightarrow>
   enabled_run enabled step s es \<and> enabled_run enabled step (foldl step s es) fs"
  by (induction es arbitrary: s) auto

lemma run_invariant:
  "(\<And>s e. I s \<Longrightarrow> enabled s e \<Longrightarrow> I (step s e)) \<Longrightarrow> I s \<Longrightarrow> enabled_run enabled step s es \<Longrightarrow>
   I (foldl step s es)"
  by (induction es arbitrary: s) auto

lemma foldl_frame: "(\<And>s x. g (f s x) = g s) \<Longrightarrow> g (foldl f s xs) = g s"
  by (induction xs arbitrary: s) simp_all

lemma foldl_invariant: "(\<And>s x. P s \<Longrightarrow> P (f s x)) \<Longrightarrow> P s \<Longrightarrow> P (foldl f s xs)"
  by (induction xs arbitrary: s) simp_all

section \<open>Entries that no step changes once settled\<close>

text \<open>
  Several components keep a store of entries with a life cycle (approval requests, SafeSwitch
  sessions): an entry is created undecided, is decided once, and stays as decided. The locale
  states the contract of one step; its lemmas lift it to every run of the component.
\<close>

locale decision_store =
  fixes entry :: "'s \<Rightarrow> 'k \<Rightarrow> 'v option"
    and settled :: "'v \<Rightarrow> bool"
    and inv :: "'s \<Rightarrow> bool"
    and enabled :: "'s \<Rightarrow> 'e \<Rightarrow> bool"
    and step :: "'s \<Rightarrow> 'e \<Rightarrow> 's"
  assumes inv_step: "inv s \<Longrightarrow> enabled s e \<Longrightarrow> inv (step s e)"
    and settled_step: "inv s \<Longrightarrow> enabled s e \<Longrightarrow> entry s k = Some v \<Longrightarrow> settled v \<Longrightarrow>
      entry (step s e) k = Some v"
    and entry_step: "inv s \<Longrightarrow> enabled s e \<Longrightarrow> entry s k = Some v \<Longrightarrow> entry (step s e) k \<noteq> None"
begin

lemmas inv_run = run_invariant [where I = inv and enabled = enabled and step = step, OF inv_step]

lemma settled_run:
  "inv s \<Longrightarrow> enabled_run enabled step s es \<Longrightarrow> entry s k = Some v \<Longrightarrow> settled v \<Longrightarrow>
   entry (foldl step s es) k = Some v"
  by (induction es arbitrary: s) (auto simp: inv_step settled_step)

lemma entry_run:
  "inv s \<Longrightarrow> enabled_run enabled step s es \<Longrightarrow> entry s k = Some v \<Longrightarrow>
   entry (foldl step s es) k \<noteq> None"
proof (induction es arbitrary: s v)
  case Nil
  then show ?case by simp
next
  case (Cons e es)
  then obtain w where "entry (step s e) k = Some w" using entry_step by fastforce
  then show ?case using Cons inv_step by simp
qed

text \<open>Two observations of an entry in one run agree from the first one that is settled.\<close>

lemma decided_once:
  assumes "inv s" and "enabled_run enabled step s (es @ fs)"
    and "entry (foldl step s es) k = Some v" and "settled v"
  shows "entry (foldl step s (es @ fs)) k = Some v"
  using assms settled_run inv_run by (simp add: enabled_run_append)

end

section \<open>Nothing happens unauthorised\<close>

text \<open>
  Where an operation may take effect only after a grant (an approval, a promotion), the component
  says when an item is authorised in a state and which event grants it. If a step, from a state
  with the component's invariant, makes nothing authorised but what it grants, every authorised item of a run was granted in it.
\<close>

locale authorised =
  fixes ready :: "'s \<Rightarrow> 'x \<Rightarrow> bool"
    and grants :: "'s \<Rightarrow> 'e \<Rightarrow> 'x \<Rightarrow> bool"
    and inv :: "'s \<Rightarrow> bool"
    and step :: "'s \<Rightarrow> 'e \<Rightarrow> 's"
  assumes inv_step: "inv s \<Longrightarrow> inv (step s e)"
    and ready_step: "inv s \<Longrightarrow> ready (step s e) x \<Longrightarrow> ready s x \<or> grants s e x"
begin

lemma granted_in_run:
  "inv s \<Longrightarrow> ready (foldl step s es) x \<Longrightarrow> \<not> ready s x \<Longrightarrow>
   \<exists>es1 e es2. es = es1 @ e # es2 \<and> grants (foldl step s es1) e x"
proof (induction es rule: rev_induct)
  case Nil
  then show ?case by simp
next
  case (snoc e es)
  show ?case
  proof (cases "ready (foldl step s es) x")
    case True
    then obtain es1 e' es2 where "es = es1 @ e' # es2 \<and> grants (foldl step s es1) e' x"
      using snoc.IH snoc.prems(1,3) by blast
    then show ?thesis by (intro exI [of _ es1] exI [of _ e'] exI [of _ "es2 @ [e]"]) simp
  next
    case False
    have "inv (foldl step s es)" by (rule foldl_invariant [where P = inv]) (rule inv_step snoc.prems(1); assumption?)+
    then have "grants (foldl step s es) e x" using snoc.prems(2) False ready_step by fastforce
    then show ?thesis by blast
  qed
qed

end

section \<open>Lines and pieces of text\<close>

text \<open>\<open>str::lines\<close>: no line after a final newline, and a carriage return before it is dropped.\<close>

definition strip_cr :: "string \<Rightarrow> string" where
  "strip_cr l = (if l \<noteq> [] \<and> last l = CHR 0x0D then butlast l else l)"

definition lines_of :: "string \<Rightarrow> string list" where
  "lines_of s = (let ls = split_on (CHR 0x0A) s in List.map strip_cr (if last ls = [] then butlast ls else ls))"

definition nl :: string where
  "nl = [CHR 0x0A]"

text \<open>\<open>str::split\<close> at a pattern that is not empty: the text before and after its first occurrence, and the
  second piece.\<close>

fun find_sub :: "string \<Rightarrow> string \<Rightarrow> (string \<times> string) option" where
  "find_sub p [] = None"
| "find_sub p (c # s) =
     (if starts_with (c # s) p then Some ([], drop (length p) (c # s))
      else map_option (\<lambda>(a, b). (c # a, b)) (find_sub p s))"

definition second_piece :: "string \<Rightarrow> string \<Rightarrow> string option" where
  "second_piece p s =
     (case find_sub p s of
        None \<Rightarrow> None
      | Some (_, rest) \<Rightarrow> Some (case find_sub p rest of None \<Rightarrow> rest | Some (a, _) \<Rightarrow> a))"

lemma find_sub_None: "p \<noteq> [] \<Longrightarrow> find_sub p s = None \<longleftrightarrow> \<not> contains s p"
  by (induction s) auto

section \<open>Replacing text\<close>

text \<open>\<open>str::replace\<close> for a pattern that is not empty: occurrences from the left, without overlap.\<close>

function replace_all :: "string \<Rightarrow> string \<Rightarrow> string \<Rightarrow> string" where
  "replace_all p q [] = []"
| "replace_all p q (c # s) =
     (if p \<noteq> [] \<and> starts_with (c # s) p then q @ replace_all p q (drop (length p) (c # s))
      else c # replace_all p q s)"
  by pat_completeness auto

termination replace_all
  by (relation "measure (\<lambda>(p, q, s). length s)") auto

text \<open>\<open>chars().take(n)\<close>: a character is a byte and the continuation bytes after it.\<close>

fun take_chars :: "nat \<Rightarrow> string \<Rightarrow> string" where
  "take_chars n [] = []"
| "take_chars n (c # s) =
     (if utf8_continuation c then c # take_chars n s
      else if n = 0 then [] else c # take_chars (n - 1) s)"

definition ends_with :: "string \<Rightarrow> string \<Rightarrow> bool" where
  "ends_with s p = starts_with (rev s) (rev p)"

text \<open>\<open>Path::join\<close> with a relative name.\<close>

definition path_join :: "string \<Rightarrow> string \<Rightarrow> string" where
  "path_join a b = (if a = [] \<or> last a = CHR ''/'' then a @ b else a @ CHR ''/'' # b)"

end
