(* ===== verification/Decimal.thy ===== *)
theory Decimal
  imports Prelude
begin

text \<open>
  Decimal printing (\<open>Display\<close> of the unsigned and signed integer types), decimal parsing
  (\<open>str::parse\<close>) at a given width, zero padding, and the checked and wrapping operations on
  integers of a width. The main facts are that parsing undoes printing and that printed numbers
  hold digits only.
\<close>

section \<open>Fixed-width arithmetic\<close>

definition checked_add_w :: "nat \<Rightarrow> nat \<Rightarrow> nat \<Rightarrow> nat option" where
  [arith_defs]: "checked_add_w w a b = (if a + b < 2 ^ w then Some (a + b) else None)"

definition checked_mul_w :: "nat \<Rightarrow> nat \<Rightarrow> nat \<Rightarrow> nat option" where
  [arith_defs]: "checked_mul_w w a b = (if a * b < 2 ^ w then Some (a * b) else None)"

definition wrapping_add_w :: "nat \<Rightarrow> nat \<Rightarrow> nat \<Rightarrow> nat" where
  [arith_defs]: "wrapping_add_w w a b = (a + b) mod 2 ^ w"

text \<open>\<open>x as u64\<close> of a signed 64-bit value: two's complement, so a negative value wraps.\<close>

definition as_u64 :: "int \<Rightarrow> nat" where
  "as_u64 i = nat (i mod 2 ^ 64)"

text \<open>\<open>Duration::num_seconds\<close> of a difference in nanoseconds: division truncates towards 0.\<close>

definition num_seconds :: "int \<Rightarrow> int" where
  "num_seconds ns = (if 0 \<le> ns then ns div 1000000000 else - ((- ns) div 1000000000))"

lemma as_u64_nonneg: "0 \<le> i \<Longrightarrow> i < 2 ^ 64 \<Longrightarrow> as_u64 i = nat i"
  by (simp add: as_u64_def)

lemma as_u64_neg: "i < 0 \<Longrightarrow> - (2 ^ 63) \<le> i \<Longrightarrow> 2 ^ 63 \<le> as_u64 i"
proof -
  assume "i < 0" and "- (2 ^ 63) \<le> i"
  then have "i mod 2 ^ 64 = i + 2 ^ 64"
    using mod_pos_pos_trivial [of "i + 2 ^ 64" "2 ^ 64"] by simp
  with \<open>- (2 ^ 63) \<le> i\<close> show ?thesis by (simp add: as_u64_def)
qed

section \<open>Printing\<close>

definition digit_char :: "nat \<Rightarrow> char" where
  "digit_char d = char_of (48 + d)"

definition digit_val :: "char \<Rightarrow> nat" where
  "digit_val c = of_char c - 48"

fun dec :: "nat \<Rightarrow> string" where
  "dec n = (if n < 10 then [digit_char n] else dec (n div 10) @ [digit_char (n mod 10)])"

declare dec.simps [simp del]

definition dec_int :: "int \<Rightarrow> string" where
  "dec_int i = (if i < 0 then CHR ''-'' # dec (nat (- i)) else dec (nat i))"

definition pad0 :: "nat \<Rightarrow> string \<Rightarrow> string" where
  "pad0 k s = replicate (k - length s) (CHR ''0'') @ s"

section \<open>Parsing\<close>

definition digits_val :: "string \<Rightarrow> nat" where
  "digits_val s = foldl (\<lambda>a c. 10 * a + digit_val c) 0 s"

text \<open>Rust accepts one leading \<open>+\<close>, wants at least one digit and refuses an overflow.\<close>

definition parse_uint :: "nat \<Rightarrow> string \<Rightarrow> nat option" where
  "parse_uint w s =
     (let t = (case s of [] \<Rightarrow> [] | c # r \<Rightarrow> if c = CHR ''+'' then r else s)
      in if t = [] \<or> \<not> list_all ascii_digit t then None
         else if digits_val t < 2 ^ w then Some (digits_val t) else None)"

lemma parse_uint_bound: "parse_uint w s = Some n \<Longrightarrow> n < 2 ^ w"
  by (auto simp: parse_uint_def Let_def split: if_splits)

lemma digit_char_digit [simp]: "d < 10 \<Longrightarrow> ascii_digit (digit_char d)"
  by (simp add: ascii_digit_def digit_char_def of_char_of)

lemma digit_val_char [simp]: "d < 10 \<Longrightarrow> digit_val (digit_char d) = d"
  by (simp add: digit_val_def digit_char_def of_char_of)

lemma digit_char_val [simp]: "ascii_digit c \<Longrightarrow> digit_char (digit_val c) = c"
  by (simp add: digit_val_def digit_char_def ascii_digit_def)

lemma digit_val_lt [simp]: "ascii_digit c \<Longrightarrow> digit_val c < 10"
  by (auto simp: digit_val_def ascii_digit_def)

lemma digits_val_Nil [simp]: "digits_val [] = 0"
  by (simp add: digits_val_def)

lemma digits_val_snoc [simp]: "digits_val (s @ [c]) = 10 * digits_val s + digit_val c"
  by (simp add: digits_val_def)

lemma digits_val_append: "digits_val (s @ t) = digits_val s * 10 ^ length t + digits_val t"
proof (induction t rule: rev_induct)
  case Nil
  show ?case by simp
next
  case (snoc c t)
  have "digits_val (s @ t @ [c]) = 10 * digits_val (s @ t) + digit_val c"
    using digits_val_snoc [of "s @ t" c] by simp
  then show ?case using snoc.IH by (simp add: algebra_simps)
qed

lemma digits_val_bound: "list_all ascii_digit s \<Longrightarrow> digits_val s < 10 ^ length s"
proof (induction s rule: rev_induct)
  case Nil
  show ?case by simp
next
  case (snoc c s)
  then have "digits_val s < 10 ^ length s" and "digit_val c < 10" by simp_all
  then show ?case by simp
qed

lemma digits_val_zeros [simp]: "digits_val (replicate k (CHR ''0'')) = 0"
  by (induction k rule: nat.induct) (simp_all add: digits_val_def digit_val_def)

lemma dec_digits [simp]: "list_all ascii_digit (dec n)"
proof (induction n rule: dec.induct)
  case (1 n)
  then show ?case by (subst dec.simps) simp
qed

lemma dec_nonempty [simp]: "dec n \<noteq> []"
  by (subst dec.simps) simp

lemma digits_val_dec [simp]: "digits_val (dec n) = n"
proof (induction n rule: dec.induct)
  case (1 n)
  show ?case
  proof (cases "n < 10")
    case True
    then show ?thesis using digits_val_snoc [of "[]"] by (subst dec.simps) simp
  next
    case False
    with 1 show ?thesis by (subst dec.simps) simp
  qed
qed

lemma dec_inj: "dec m = dec n \<longleftrightarrow> m = n"
  by (metis digits_val_dec)

lemma dec_set: "c \<in> set (dec n) \<Longrightarrow> ascii_digit c"
  using dec_digits [of n] by (simp add: list_all_iff)

lemma length_dec_le: "0 < k \<Longrightarrow> n < 10 ^ k \<Longrightarrow> length (dec n) \<le> k"
proof (induction n arbitrary: k rule: dec.induct)
  case (1 n)
  show ?case
  proof (cases "n < 10")
    case True
    with "1.prems" show ?thesis by (subst dec.simps) simp
  next
    case False
    then obtain j where k: "k = Suc j" and "0 < j"
      using "1.prems" by (cases k; cases "k - 1") auto
    then have "n div 10 < 10 ^ j" using "1.prems"(2) by (simp add: less_mult_imp_div_less mult.commute)
    then have "length (dec (n div 10)) \<le> j" using "1.IH" [OF False \<open>0 < j\<close>] by simp
    with False k show ?thesis by (subst dec.simps) simp
  qed
qed

lemma dec_not_plus: "dec n \<noteq> CHR ''+'' # s"
proof
  assume "dec n = CHR ''+'' # s"
  then have "ascii_digit (CHR ''+'')" using dec_set [of "CHR ''+''" n] by simp
  then show False by (simp add: ascii_digit_def)
qed

lemma parse_uint_digits:
  "list_all ascii_digit s \<Longrightarrow> s \<noteq> [] \<Longrightarrow> digits_val s < 2 ^ w \<Longrightarrow>
   parse_uint w s = Some (digits_val s)"
  by (cases s) (auto simp: parse_uint_def ascii_digit_def)

lemma parse_uint_dec: "n < 2 ^ w \<Longrightarrow> parse_uint w (dec n) = Some n"
  by (simp add: parse_uint_digits)

lemma pad0_length: "length s \<le> k \<Longrightarrow> length (pad0 k s) = k"
  by (simp add: pad0_def)

lemma pad0_digits [simp]: "list_all ascii_digit s \<Longrightarrow> list_all ascii_digit (pad0 k s)"
  by (auto simp: pad0_def list_all_iff ascii_digit_def)

lemma digits_val_pad0 [simp]: "digits_val (pad0 k s) = digits_val s"
  by (simp add: pad0_def digits_val_append)

lemma dec_int_inj: "dec_int i = dec_int j \<longleftrightarrow> i = j"
proof -
  have m: "dec n \<noteq> CHR ''-'' # s" for n s
  proof
    assume "dec n = CHR ''-'' # s"
    then have "ascii_digit (CHR ''-'')" using dec_set [of "CHR ''-''" n] by simp
    then show False by (simp add: ascii_digit_def)
  qed
  show ?thesis
    by (auto simp: dec_int_def m m [symmetric] dec_inj split: if_splits)
qed

lemma dec_int_set: "c \<in> set (dec_int i) \<Longrightarrow> ascii_digit c \<or> c = CHR ''-''"
  by (auto simp: dec_int_def dec_set split: if_splits)

end
