(* ===== verification/Transactions.thy ===== *)
theory Transactions
  imports Decimal "HOL-Library.Word"
begin

text \<open>
  \<open>crates/osmoda-keyd/src/tx_eth.rs\<close> and \<open>tx_sol.rs\<close>: the RLP encoder, EIP-1559 transactions
  and Solana transfer messages. Bytes are \<open>8 word\<close>, \<open>u64\<close> and \<open>u128\<close> values are
  \<open>64 word\<close> and \<open>128 word\<close>. Parameters: Keccak-256, the hex and base58 codecs, and the
  elliptic-curve signers (\<open>None\<close> where they refuse the key). The encoder is checked against a
  reference decoder of RLP items written here.
\<close>

type_synonym byte = "8 word"
type_synonym bytes = "8 word list"

text \<open>\<open>str::as_bytes\<close>.\<close>

definition bytes_of :: "string \<Rightarrow> bytes" where
  "bytes_of s = List.map (\<lambda>c. word_of_nat (of_char c)) s"

section \<open>Integers as bytes\<close>

fun to_be_bytes :: "nat \<Rightarrow> nat \<Rightarrow> bytes" where
  "to_be_bytes 0 v = []"
| "to_be_bytes (Suc n) v = to_be_bytes n (v div 256) @ [word_of_nat v]"

definition to_le_bytes :: "nat \<Rightarrow> nat \<Rightarrow> bytes" where
  "to_le_bytes n v = rev (to_be_bytes n v)"

text \<open>The big-endian value of a byte string.\<close>

definition be_value :: "bytes \<Rightarrow> nat" where
  "be_value bs = foldl (\<lambda>a b. 256 * a + unat b) 0 bs"

text \<open>\<open>&bytes[start..]\<close> where \<open>start\<close> is the first non-zero position or a default.\<close>

fun from_nonzero :: "bytes \<Rightarrow> bytes option" where
  "from_nonzero [] = None"
| "from_nonzero (b # bs) = (if b \<noteq> 0 then Some (b # bs) else from_nonzero bs)"

definition trim_be :: "nat \<Rightarrow> bytes \<Rightarrow> bytes" where
  "trim_be dflt bs = (case from_nonzero bs of None \<Rightarrow> drop dflt bs | Some r \<Rightarrow> r)"

section \<open>RLP\<close>

definition encode_length_bytes :: "nat \<Rightarrow> bytes" where
  "encode_length_bytes n = trim_be 7 (to_be_bytes 8 n)"

definition rlp_encode_bytes :: "bytes \<Rightarrow> bytes" where
  "rlp_encode_bytes data =
     (if length data = 1 \<and> hd data < 0x80 then [hd data]
      else if data = [] then [0x80]
      else if length data \<le> 55 then (0x80 + word_of_nat (length data)) # data
      else let len_bytes = encode_length_bytes (length data)
           in (0xb7 + word_of_nat (length len_bytes)) # len_bytes @ data)"

definition rlp_encode_u64 :: "64 word \<Rightarrow> bytes" where
  "rlp_encode_u64 v =
     (if v = 0 then [0x80] else rlp_encode_bytes (trim_be 7 (to_be_bytes 8 (unat v))))"

definition rlp_encode_u128 :: "128 word \<Rightarrow> bytes" where
  "rlp_encode_u128 v =
     (if v = 0 then [0x80] else rlp_encode_bytes (trim_be 15 (to_be_bytes 16 (unat v))))"

definition rlp_encode_list :: "bytes list \<Rightarrow> bytes" where
  "rlp_encode_list items =
     (let payload = concat items
      in if length payload \<le> 55 then (0xc0 + word_of_nat (length payload)) # payload
         else let len_bytes = encode_length_bytes (length payload)
              in (0xf7 + word_of_nat (length len_bytes)) # len_bytes @ payload)"

section \<open>Ethereum transactions\<close>

record eth_tx_params =
  etx_chain_id :: "64 word"
  etx_nonce :: "64 word"
  etx_to :: string
  etx_value :: string
  etx_max_fee :: "64 word"
  etx_max_priority_fee :: "64 word"
  etx_gas_limit :: "64 word"
  etx_data :: "string option"

record eth_tx_result =
  etr_signed_tx :: string
  etr_tx_hash :: string
  etr_from :: string
  etr_to :: string
  etr_value :: string
  etr_chain_id :: "64 word"

datatype tx_error = InvalidKey | InvalidTo | InvalidValue | InvalidCalldata | SigningFailed
  | InvalidRecipient | InvalidBlockhash

definition strip_leading_zeros :: "bytes \<Rightarrow> bytes" where
  "strip_leading_zeros data =
     (case from_nonzero data of None \<Rightarrow> drop (length data - 1) data | Some r \<Rightarrow> r)"

definition eip1559_fields ::
  "64 word \<Rightarrow> 64 word \<Rightarrow> 64 word \<Rightarrow> 64 word \<Rightarrow> 64 word \<Rightarrow> bytes \<Rightarrow> 128 word \<Rightarrow> bytes
    \<Rightarrow> bytes list" where
  "eip1559_fields chain_id nonce max_priority_fee max_fee gas_limit to value data =
     [rlp_encode_u64 chain_id, rlp_encode_u64 nonce, rlp_encode_u64 max_priority_fee,
      rlp_encode_u64 max_fee, rlp_encode_u64 gas_limit, rlp_encode_bytes to,
      rlp_encode_u128 value, rlp_encode_bytes data, rlp_encode_list []]"

definition rlp_encode_eip1559_unsigned ::
  "64 word \<Rightarrow> 64 word \<Rightarrow> 64 word \<Rightarrow> 64 word \<Rightarrow> 64 word \<Rightarrow> bytes \<Rightarrow> 128 word \<Rightarrow> bytes \<Rightarrow> bytes" where
  "rlp_encode_eip1559_unsigned chain_id nonce max_priority_fee max_fee gas_limit to value data =
     rlp_encode_list
       (eip1559_fields chain_id nonce max_priority_fee max_fee gas_limit to value data)"

definition rlp_encode_eip1559_signed ::
  "64 word \<Rightarrow> 64 word \<Rightarrow> 64 word \<Rightarrow> 64 word \<Rightarrow> 64 word \<Rightarrow> bytes \<Rightarrow> 128 word \<Rightarrow> bytes
    \<Rightarrow> 8 word \<Rightarrow> bytes \<Rightarrow> bytes \<Rightarrow> bytes" where
  "rlp_encode_eip1559_signed chain_id nonce max_priority_fee max_fee gas_limit to value data v r s =
     rlp_encode_list
       (eip1559_fields chain_id nonce max_priority_fee max_fee gas_limit to value data @
        [rlp_encode_u64 (ucast v), rlp_encode_bytes (strip_leading_zeros r),
         rlp_encode_bytes (strip_leading_zeros s)])"

definition strip_0x :: "string \<Rightarrow> string" where
  "strip_0x a = (if starts_with a ''0x'' then drop 2 a else a)"

definition parse_address :: "(string \<Rightarrow> bytes option) \<Rightarrow> string \<Rightarrow> bytes option" where
  "parse_address hex_decode addr =
     (let hex_str = strip_0x addr
      in if length hex_str \<noteq> 40 then None else hex_decode hex_str)"

text \<open>A signing key: its uncompressed public key without the prefix byte, and the ECDSA signer of
  a 32-byte hash (signature bytes r and s, recovery id).\<close>

type_synonym eth_key = "bytes \<times> (bytes \<Rightarrow> (bytes \<times> 8 word) option)"

definition build_and_sign_eip1559 ::
  "(bytes \<Rightarrow> eth_key option) \<Rightarrow> (bytes \<Rightarrow> bytes) \<Rightarrow> (string \<Rightarrow> bytes option) \<Rightarrow> (bytes \<Rightarrow> string)
    \<Rightarrow> bytes \<Rightarrow> eth_tx_params \<Rightarrow> tx_error + eth_tx_result" where
  "build_and_sign_eip1559 key_from keccak hex_decode hex_encode key_bytes p =
     (case key_from key_bytes of
        None \<Rightarrow> Inl InvalidKey
      | Some (pubkey, sign_prehash) \<Rightarrow>
          let from_addr = ''0x'' @ hex_encode (drop 12 (keccak pubkey))
          in case parse_address hex_decode (etx_to p) of
               None \<Rightarrow> Inl InvalidTo
             | Some to \<Rightarrow>
                 (case parse_uint 128 (etx_value p) of
                    None \<Rightarrow> Inl InvalidValue
                  | Some value \<Rightarrow>
                      (case (case etx_data p of None \<Rightarrow> Some [] | Some d \<Rightarrow> hex_decode d) of
                         None \<Rightarrow> Inl InvalidCalldata
                       | Some data \<Rightarrow>
                           let unsigned_rlp = rlp_encode_eip1559_unsigned (etx_chain_id p)
                                 (etx_nonce p) (etx_max_priority_fee p) (etx_max_fee p)
                                 (etx_gas_limit p) to (word_of_nat value) data
                           in case sign_prehash (keccak (0x02 # unsigned_rlp)) of
                                None \<Rightarrow> Inl SigningFailed
                              | Some (sig, v) \<Rightarrow>
                                  let signed_rlp = rlp_encode_eip1559_signed (etx_chain_id p)
                                        (etx_nonce p) (etx_max_priority_fee p) (etx_max_fee p)
                                        (etx_gas_limit p) to (word_of_nat value) data v
                                        (take 32 sig) (drop 32 sig);
                                      signed_tx = 0x02 # signed_rlp
                                  in Inr \<lparr>etr_signed_tx = ''0x'' @ hex_encode signed_tx,
                                          etr_tx_hash = ''0x'' @ hex_encode (keccak signed_tx),
                                          etr_from = from_addr, etr_to = etx_to p,
                                          etr_value = etx_value p,
                                          etr_chain_id = etx_chain_id p\<rparr>)))"

section \<open>Solana transfers\<close>

record sol_tx_result =
  str_signed_tx :: string
  str_signature :: string
  str_from :: string
  str_to :: string
  str_lamports :: "64 word"

definition system_program_id :: bytes where
  "system_program_id = replicate 32 0"

definition build_transfer_message :: "bytes \<Rightarrow> bytes \<Rightarrow> 64 word \<Rightarrow> bytes \<Rightarrow> bytes" where
  "build_transfer_message from_key to_key lamports blockhash =
     (let data = to_le_bytes 4 2 @ to_le_bytes 8 (unat lamports)
      in [1, 0, 1] @ [3] @ from_key @ to_key @ system_program_id @ blockhash @
         [1] @ [2] @ [2, 0, 1] @ [word_of_nat (length data)] @ data)"

type_synonym sol_key = "bytes \<times> (bytes \<Rightarrow> bytes)"

definition build_and_sign_transfer ::
  "(bytes \<Rightarrow> sol_key) \<Rightarrow> (string \<Rightarrow> bytes option) \<Rightarrow> (bytes \<Rightarrow> string) \<Rightarrow> bytes \<Rightarrow> string \<Rightarrow> 64 word
    \<Rightarrow> string \<Rightarrow> tx_error + sol_tx_result" where
  "build_and_sign_transfer key_from b58_decode b58_encode key_bytes to lamports recent_blockhash =
     (if length key_bytes < 32 then Inl InvalidKey
      else let (from_bytes, sign) = key_from (take 32 key_bytes)
           in case b58_decode to of
                None \<Rightarrow> Inl InvalidRecipient
              | Some to_bytes \<Rightarrow>
                  if length to_bytes \<noteq> 32 then Inl InvalidRecipient
                  else case b58_decode recent_blockhash of
                         None \<Rightarrow> Inl InvalidBlockhash
                       | Some blockhash \<Rightarrow>
                           if length blockhash \<noteq> 32 then Inl InvalidBlockhash
                           else let message = build_transfer_message from_bytes to_bytes lamports
                                      blockhash;
                                    sig_bytes = sign message;
                                    tx = [1] @ sig_bytes @ message
                                in Inr \<lparr>str_signed_tx = b58_encode tx,
                                        str_signature = b58_encode sig_bytes,
                                        str_from = b58_encode from_bytes, str_to = to,
                                        str_lamports = lamports\<rparr>)"

section \<open>Byte strings and their values\<close>

lemma length_to_be_bytes [simp]: "length (to_be_bytes n v) = n"
  by (induction n v rule: to_be_bytes.induct) simp_all

lemma be_value_Nil [simp]: "be_value [] = 0"
  by (simp add: be_value_def)

lemma be_value_snoc [simp]: "be_value (bs @ [b]) = 256 * be_value bs + unat b"
  by (simp add: be_value_def)

lemma be_value_append: "be_value (bs @ cs) = be_value bs * 256 ^ length cs + be_value cs"
proof (induction cs rule: rev_induct)
  case Nil
  show ?case by simp
next
  case (snoc c cs)
  have "be_value (bs @ cs @ [c]) = 256 * be_value (bs @ cs) + unat c"
    using be_value_snoc [of "bs @ cs" c] by simp
  then show ?case using snoc.IH by (simp add: algebra_simps)
qed

lemma be_value_Cons_0 [simp]: "be_value (0 # bs) = be_value bs"
  using be_value_append [of "[0]" bs] be_value_snoc [of "[]" 0] by simp

lemma be_value_to_be_bytes: "v < 256 ^ n \<Longrightarrow> be_value (to_be_bytes n v) = v"
proof (induction n v rule: to_be_bytes.induct)
  case (1 v)
  then show ?case by simp
next
  case (2 n v)
  then have "v div 256 < 256 ^ n" by (simp add: less_mult_imp_div_less mult.commute)
  with 2 show ?case by (simp add: unat_of_nat)
qed

lemma be_value_from_nonzero: "from_nonzero bs = Some r \<Longrightarrow> be_value r = be_value bs"
  by (induction bs) (auto split: if_splits)

lemma from_nonzero_None: "from_nonzero bs = None \<Longrightarrow> be_value bs = 0"
  by (induction bs) (auto split: if_splits)

lemma from_nonzero_hd: "from_nonzero bs = Some r \<Longrightarrow> \<exists>b r'. r = b # r' \<and> b \<noteq> 0"
  by (induction bs) (auto split: if_splits)

lemma from_nonzero_length: "from_nonzero bs = Some r \<Longrightarrow> length r \<le> length bs"
  by (induction bs) (auto split: if_splits)

lemma trim_be_value:
  assumes "v < 256 ^ n" and "0 < v"
  shows "be_value (trim_be k (to_be_bytes n v)) = v"
    and "trim_be k (to_be_bytes n v) \<noteq> []"
    and "length (trim_be k (to_be_bytes n v)) \<le> n"
proof -
  from assms obtain r where r: "from_nonzero (to_be_bytes n v) = Some r"
    using from_nonzero_None [of "to_be_bytes n v"] be_value_to_be_bytes [of v n] by fastforce
  show "be_value (trim_be k (to_be_bytes n v)) = v"
    using r be_value_from_nonzero [OF r] be_value_to_be_bytes [OF assms(1)] by (simp add: trim_be_def)
  show "trim_be k (to_be_bytes n v) \<noteq> []"
    using r from_nonzero_hd [OF r] by (auto simp: trim_be_def)
  show "length (trim_be k (to_be_bytes n v)) \<le> n"
    using r from_nonzero_length [OF r] by (simp add: trim_be_def)
qed


section \<open>A reference decoder\<close>

text \<open>One RLP item: whether it is a list, and its payload.\<close>

type_synonym rlp_item = "bool \<times> bytes"

definition take_item :: "bool \<Rightarrow> nat \<Rightarrow> bytes \<Rightarrow> (rlp_item \<times> bytes) option" where
  "take_item is_list n rest =
     (if length rest < n then None else Some ((is_list, take n rest), drop n rest))"

definition take_long :: "bool \<Rightarrow> nat \<Rightarrow> bytes \<Rightarrow> (rlp_item \<times> bytes) option" where
  "take_long is_list m rest =
     (if length rest < m then None else take_item is_list (be_value (take m rest)) (drop m rest))"

fun rlp_next :: "bytes \<Rightarrow> (rlp_item \<times> bytes) option" where
  "rlp_next [] = None"
| "rlp_next (b # rest) =
     (let n = unat b
      in if n < 0x80 then Some ((False, [b]), rest)
         else if n \<le> 0xb7 then take_item False (n - 0x80) rest
         else if n \<le> 0xbf then take_long False (n - 0xb7) rest
         else if n \<le> 0xf7 then take_item True (n - 0xc0) rest
         else take_long True (n - 0xf7) rest)"

function rlp_items :: "bytes \<Rightarrow> rlp_item list option" where
  "rlp_items bs =
     (if bs = [] then Some []
      else case rlp_next bs of
             None \<Rightarrow> None
           | Some (item, rest) \<Rightarrow>
               if length rest < length bs then map_option (Cons item) (rlp_items rest) else None)"
  by pat_completeness auto
termination
  by (relation "measure length") auto

declare rlp_items.simps [simp del]

text \<open>The items of a transaction body, which must be one list and nothing after it.\<close>

definition decode_body :: "bytes \<Rightarrow> rlp_item list option" where
  "decode_body bs =
     (case rlp_next bs of
        None \<Rightarrow> None
      | Some ((is_list, payload), rest) \<Rightarrow>
          if is_list \<and> rest = [] then rlp_items payload else None)"

lemma unat_head: "k \<le> 64 \<Longrightarrow> c < 256 - 64 \<Longrightarrow> unat (word_of_nat c + word_of_nat k :: byte) = c + k"
  by (simp add: unat_word_ariths unat_of_nat)

lemma length_bytes_ok:
  assumes "0 < n" and "n < 2 ^ 64"
  shows "be_value (encode_length_bytes n) = n" "0 < length (encode_length_bytes n)"
    "length (encode_length_bytes n) \<le> 8"
  using trim_be_value [of n 8 7] assms by (simp_all add: encode_length_bytes_def)

lemma take_item_append: "take_item k (length d) (d @ rest) = Some ((k, d), rest)"
  by (simp add: take_item_def)

lemma take_long_append:
  "take_long k (length l) (l @ d @ rest) = take_item k (be_value l) (d @ rest)"
  by (simp add: take_long_def)

lemma rlp_next_bytes:
  assumes "length d < 2 ^ 64"
  shows "rlp_next (rlp_encode_bytes d @ rest) = Some ((False, d), rest)"
proof -
  consider (one) "length d = 1" "hd d < 0x80" | (empty) "d = []"
    | (short) "\<not> (length d = 1 \<and> hd d < 0x80)" "d \<noteq> []" "length d \<le> 55" | (long) "55 < length d"
    by fastforce
  then show ?thesis
  proof cases
    case one
    then obtain x where x: "d = [x]" by (cases d) auto
    then have "unat x < 128" using one(2) by (simp add: word_less_nat_alt)
    then show ?thesis using one(2) x by (simp add: rlp_encode_bytes_def)
  next
    case empty
    then show ?thesis by (simp add: rlp_encode_bytes_def take_item_def)
  next
    case short
    have "unat (0x80 + word_of_nat (length d) :: byte) = 0x80 + length d"
      using unat_head [of "length d" "0x80"] short(3) by simp
    then show ?thesis using short take_item_append [of False d rest]
      by (auto simp: rlp_encode_bytes_def Let_def)
  next
    case long
    let ?l = "encode_length_bytes (length d)"
    have l: "be_value ?l = length d" "0 < length ?l" "length ?l \<le> 8"
      using length_bytes_ok [of "length d"] long assms by (cases d; simp)+
    have "unat (0xb7 + word_of_nat (length ?l) :: byte) = 0xb7 + length ?l"
      using unat_head [of "length ?l" "0xb7"] l(3) by simp
    then show ?thesis
      using l long take_item_append [of False d rest] take_long_append [of False ?l d rest]
      by (auto simp: rlp_encode_bytes_def Let_def)
  qed
qed

lemma rlp_next_list:
  assumes "length (concat items) < 2 ^ 64"
  shows "rlp_next (rlp_encode_list items @ rest) = Some ((True, concat items), rest)"
proof (cases "length (concat items) \<le> 55")
  case True
  have "unat (0xc0 + word_of_nat (length (concat items)) :: byte) = 0xc0 + length (concat items)"
    using True by (simp add: unat_word_ariths unat_of_nat)
  then show ?thesis
    using True take_item_append [of True "concat items" rest]
    by (simp add: rlp_encode_list_def Let_def)
next
  case False
  let ?d = "concat items"
  let ?l = "encode_length_bytes (length ?d)"
  have l: "be_value ?l = length ?d" "0 < length ?l" "length ?l \<le> 8"
    using length_bytes_ok [of "length ?d"] False assms by linarith+
  have "unat (0xf7 + word_of_nat (length ?l) :: byte) = 0xf7 + length ?l"
    using l(3) by (simp add: unat_word_ariths unat_of_nat)
  then show ?thesis
    using l False take_item_append [of True ?d rest] take_long_append [of True ?l ?d rest]
    by (simp add: rlp_encode_list_def Let_def)
qed

lemma rlp_encode_bytes_length: "0 < length (rlp_encode_bytes d) \<and>
    (length d < 2 ^ 64 \<longrightarrow> length (rlp_encode_bytes d) \<le> length d + 9)"
  using length_bytes_ok [of "length d"]
  by (auto simp: rlp_encode_bytes_def Let_def)

lemma rlp_items_Nil [simp]: "rlp_items [] = Some []"
  by (simp add: rlp_items.simps)

definition rlp_short :: "bytes \<Rightarrow> bool" where
  "rlp_short d = (length d < 2 ^ 64)"

lemma rlp_items_bytes:
  assumes "rlp_short d"
  shows "rlp_items (rlp_encode_bytes d @ bs) = map_option (Cons (False, d)) (rlp_items bs)"
    and "rlp_items (rlp_encode_bytes d) = Some [(False, d)]"
  using rlp_next_bytes [OF assms [unfolded rlp_short_def], of bs]
    rlp_next_bytes [OF assms [unfolded rlp_short_def], of "[]"] rlp_encode_bytes_length [of d]
  by (subst rlp_items.simps; auto)+

lemma rlp_items_empty_list:
  "rlp_items (rlp_encode_list [] @ bs) = map_option (Cons (True, [])) (rlp_items bs)"
  using rlp_next_list [of "[]" bs] by (subst rlp_items.simps) (simp add: rlp_encode_list_def)

text \<open>The minimal big-endian bytes of a field; zero is the empty string.\<close>

definition uint_bytes :: "nat \<Rightarrow> nat \<Rightarrow> bytes" where
  "uint_bytes n v = (if v = 0 then [] else trim_be (n - 1) (to_be_bytes n v))"

lemma uint_bytes_value: "v < 256 ^ n \<Longrightarrow> be_value (uint_bytes n v) = v"
  using trim_be_value(1) [of v n "n - 1"] by (simp add: uint_bytes_def)

lemma uint_bytes_length: "v < 256 ^ n \<Longrightarrow> length (uint_bytes n v) \<le> n"
  using trim_be_value(3) [of v n "n - 1"] by (simp add: uint_bytes_def)

lemma unat_64 [simp]: "unat (v :: 64 word) < 256 ^ 8"
  using unsigned_less [of v] by simp

lemma unat_128 [simp]: "unat (v :: 128 word) < 256 ^ 16"
  using unsigned_less [of v] by simp

lemma rlp_encode_u64_bytes: "rlp_encode_u64 v = rlp_encode_bytes (uint_bytes 8 (unat v))"
  by (auto simp: rlp_encode_u64_def uint_bytes_def rlp_encode_bytes_def unat_eq_zero)

lemma rlp_encode_u128_bytes: "rlp_encode_u128 v = rlp_encode_bytes (uint_bytes 16 (unat v))"
  by (auto simp: rlp_encode_u128_def uint_bytes_def rlp_encode_bytes_def unat_eq_zero)

lemma from_nonzero_le: "length (strip_leading_zeros d) \<le> length d"
  by (auto simp: strip_leading_zeros_def from_nonzero_length split: option.split)

lemma strip_leading_zeros_value: "be_value (strip_leading_zeros d) = be_value d"
proof (cases "from_nonzero d")
  case None
  have "from_nonzero d = None \<Longrightarrow> be_value (drop k d) = 0" for k
  proof (induction d arbitrary: k)
    case Nil
    then show ?case by simp
  next
    case (Cons b d)
    then show ?case using from_nonzero_None [of "b # d"] by (cases k) (auto split: if_splits)
  qed
  then show ?thesis using None from_nonzero_None [OF None] by (simp add: strip_leading_zeros_def)
next
  case (Some r)
  then show ?thesis using be_value_from_nonzero [OF Some] by (simp add: strip_leading_zeros_def)
qed

definition eip1559_items ::
  "64 word \<Rightarrow> 64 word \<Rightarrow> 64 word \<Rightarrow> 64 word \<Rightarrow> 64 word \<Rightarrow> bytes \<Rightarrow> 128 word \<Rightarrow> bytes
    \<Rightarrow> rlp_item list" where
  "eip1559_items chain_id nonce max_priority_fee max_fee gas_limit to value data =
     [(False, uint_bytes 8 (unat chain_id)), (False, uint_bytes 8 (unat nonce)),
      (False, uint_bytes 8 (unat max_priority_fee)), (False, uint_bytes 8 (unat max_fee)),
      (False, uint_bytes 8 (unat gas_limit)), (False, to), (False, uint_bytes 16 (unat value)),
      (False, data), (True, [])]"


lemma field_length: "length d \<le> n \<Longrightarrow> n < 2 ^ 40 \<Longrightarrow> length (rlp_encode_bytes d) \<le> n + 9"
  using rlp_encode_bytes_length [of d] by simp

lemma fields_length:
  assumes "length to = 20" and "length data < 2 ^ 32"
  shows "length (concat (eip1559_fields c n mp mf g to v data)) < 2 ^ 33"
proof -
  have u: "length (rlp_encode_u64 x) \<le> 17" for x
    using field_length [OF uint_bytes_length [OF unat_64 [of x]]] by (simp add: rlp_encode_u64_bytes)
  have "length (rlp_encode_u128 v) \<le> 25"
    using field_length [OF uint_bytes_length [OF unat_128 [of v]]] by (simp add: rlp_encode_u128_bytes)
  moreover have "length (rlp_encode_bytes to) \<le> 29" using field_length [of to 20] assms by simp
  moreover have "length (rlp_encode_bytes data) \<le> length data + 9"
    using field_length [of data "length data"] assms by simp
  moreover have "length (rlp_encode_list []) = 1" by (simp add: rlp_encode_list_def)
  ultimately show ?thesis
    using u [of c] u [of n] u [of mp] u [of mf] u [of g] assms(2) by (simp add: eip1559_fields_def)
qed

lemma uint_short [simp]: "rlp_short (uint_bytes 8 (unat (x :: 64 word)))"
  "rlp_short (uint_bytes 16 (unat (y :: 128 word)))"
  using uint_bytes_length [OF unat_64 [of x]] uint_bytes_length [OF unat_128 [of y]]
  by (simp_all add: rlp_short_def)

lemma items_fields:
  assumes "length to = 20" and "length data < 2 ^ 32"
  shows "rlp_items (concat (eip1559_fields c n mp mf g to v data) @ bs) =
     map_option (\<lambda>is. eip1559_items c n mp mf g to v data @ is) (rlp_items bs)"
proof -
  have "rlp_short to" "rlp_short data" using assms by (simp_all add: rlp_short_def)
  then show ?thesis
    by (simp add: eip1559_fields_def eip1559_items_def rlp_encode_u64_bytes rlp_encode_u128_bytes
        rlp_items_bytes rlp_items_empty_list option.map_comp comp_def)
qed

lemma decode_body_list:
  "length (concat fs) < 2 ^ 64 \<Longrightarrow> decode_body (rlp_encode_list fs) = rlp_items (concat fs)"
  using rlp_next_list [of fs "[]"] by (simp add: decode_body_def)

lemma unsigned_decodes:
  assumes "length to = 20" and "length data < 2 ^ 32"
  shows "decode_body (rlp_encode_eip1559_unsigned c n mp mf g to v data) =
     Some (eip1559_items c n mp mf g to v data)"
proof -
  have "length (concat (eip1559_fields c n mp mf g to v data)) < 2 ^ 64"
    using fields_length [OF assms, of c n mp mf g v] by simp
  then show ?thesis
    using decode_body_list items_fields [OF assms, of c n mp mf g v "[]"]
    by (simp add: rlp_encode_eip1559_unsigned_def)
qed

lemma signed_decodes:
  assumes "length to = 20" and "length data < 2 ^ 32" and "length r \<le> 32" and "length s \<le> 32"
  shows "decode_body (rlp_encode_eip1559_signed c n mp mf g to v data y r s) =
     Some (eip1559_items c n mp mf g to v data @
       [(False, uint_bytes 8 (unat (ucast y :: 64 word))), (False, strip_leading_zeros r),
        (False, strip_leading_zeros s)])"
proof -
  let ?fs = "eip1559_fields c n mp mf g to v data"
  let ?gs = "[rlp_encode_u64 (ucast y), rlp_encode_bytes (strip_leading_zeros r),
     rlp_encode_bytes (strip_leading_zeros s)]"
  have rs: "length (strip_leading_zeros r) \<le> 32" "length (strip_leading_zeros s) \<le> 32"
    using from_nonzero_le assms(3,4) le_trans by blast+
  have "length (rlp_encode_bytes (strip_leading_zeros r)) \<le> 41"
    "length (rlp_encode_bytes (strip_leading_zeros s)) \<le> 41"
    using field_length [OF rs(1)] field_length [OF rs(2)] by simp_all
  moreover have "length (rlp_encode_u64 (ucast y)) \<le> 17"
    using field_length [OF uint_bytes_length [OF unat_64]] by (simp add: rlp_encode_u64_bytes)
  ultimately have "length (concat (?fs @ ?gs)) < 2 ^ 64"
    using fields_length [OF assms(1,2), of c n mp mf g v] by simp
  then have "decode_body (rlp_encode_list (?fs @ ?gs)) = rlp_items (concat ?fs @ concat ?gs)"
    using decode_body_list by simp
  moreover have "rlp_items (concat ?gs) =
      Some [(False, uint_bytes 8 (unat (ucast y :: 64 word))), (False, strip_leading_zeros r),
        (False, strip_leading_zeros s)]"
    using rs by (simp add: rlp_encode_u64_bytes rlp_items_bytes rlp_short_def [of "strip_leading_zeros _"])
  ultimately show ?thesis
    using items_fields [OF assms(1,2)] by (simp add: rlp_encode_eip1559_signed_def)
qed

lemma unsigned_inj:
  assumes "length to = 20" "length data < 2 ^ 32" "length to' = 20" "length data' < 2 ^ 32"
    and eq: "rlp_encode_eip1559_unsigned c n mp mf g to v data =
      rlp_encode_eip1559_unsigned c' n' mp' mf' g' to' v' data'"
  shows "c = c' \<and> n = n' \<and> mp = mp' \<and> mf = mf' \<and> g = g' \<and> to = to' \<and> v = v' \<and> data = data'"
proof -
  have u: "x = y" if "uint_bytes 8 (unat x) = uint_bytes 8 (unat y)" for x y :: "64 word"
    using uint_bytes_value [OF unat_64] that by (metis unsigned_word_eqI)
  have u': "x = y" if "uint_bytes 16 (unat x) = uint_bytes 16 (unat y)" for x y :: "128 word"
    using uint_bytes_value [OF unat_128] that by (metis unsigned_word_eqI)
  have "eip1559_items c n mp mf g to v data = eip1559_items c' n' mp' mf' g' to' v' data'"
    using unsigned_decodes [OF assms(1,2)] unsigned_decodes [OF assms(3,4)] eq by (metis option.inject)
  then show ?thesis using u u' by (simp add: eip1559_items_def)
qed

section \<open>Reading a Solana transfer back\<close>

definition le_value :: "bytes \<Rightarrow> nat" where
  "le_value bs = be_value (rev bs)"

lemma le_value_to_le_bytes: "v < 256 ^ n \<Longrightarrow> le_value (to_le_bytes n v) = v"
  by (simp add: le_value_def to_le_bytes_def be_value_to_be_bytes)

text \<open>Sender, recipient, lamports and blockhash of a message of the legacy format with one
  System Program transfer.\<close>

definition read_transfer :: "bytes \<Rightarrow> (bytes \<times> bytes \<times> nat \<times> bytes) option" where
  "read_transfer msg =
     (let header = take 4 msg; accounts = drop 4 msg; from_key = take 32 accounts;
          to_key = take 32 (drop 32 accounts); program = take 32 (drop 64 accounts);
          blockhash = take 32 (drop 96 accounts); instr = drop 128 accounts;
          data = drop 6 instr
      in if length msg = 150 \<and> header = [1, 0, 1, 3] \<and> program = system_program_id \<and>
            take 5 instr = [1, 2, 2, 0, 1] \<and> instr ! 5 = 12 \<and> le_value (take 4 data) = 2
         then Some (from_key, to_key, le_value (drop 4 data), blockhash) else None)"

lemma length_to_le_bytes [simp]: "length (to_le_bytes n v) = n"
  by (simp add: to_le_bytes_def)

lemma transfer_readable:
  assumes "length f = 32" and "length t = 32" and "length b = 32"
  shows "read_transfer (build_transfer_message f t lamports b) = Some (f, t, unat lamports, b)"
proof -
  have "unat lamports < 256 ^ 8" by (rule unat_64)
  then have "le_value (to_le_bytes 8 (unat lamports)) = unat lamports"
    by (rule le_value_to_le_bytes)
  moreover have "le_value (to_le_bytes 4 2) = 2" by (rule le_value_to_le_bytes) simp
  ultimately show ?thesis
    using assms by (simp add: read_transfer_def build_transfer_message_def Let_def system_program_id_def)
qed

end
