(* ===== verification/MeshWire.thy ===== *)
theory MeshWire
  imports Transactions
begin

text \<open>
  \<open>crates/osmoda-mesh/src/messages.rs\<close> and \<open>transport.rs\<close>: the wire frames, the messages, and
  the connection with its two layers of encryption. A byte stream is a list; the codec of messages
  (serde), the Noise session and the ChaCha20-Poly1305 cipher are parameters. A Noise session
  is given by what its n-th write and its n-th read do (\<open>None\<close> where the library refuses: a
  message that is too long, a failed authentication).
\<close>

section \<open>Messages and frames\<close>

datatype alert_severity = Info | Warning | Critical

text \<open>Doubles are kept as their 64 bits.\<close>

datatype mesh_message =
    Heartbeat timestamp
  | HealthReport string "64 word" "64 word" "64 word"
  | Alert alert_severity string string
  | Chat string string "string option"
  | PqExchange string

definition encode_frame :: "bytes \<Rightarrow> bytes" where
  "encode_frame payload =
     (let len = (word_of_nat (length payload) :: 32 word)
      in to_be_bytes 4 (unat len) @ payload)"

definition decode_frame_length :: "bytes \<Rightarrow> nat" where
  "decode_frame_length header = be_value header"

definition max_message_size :: nat where
  "max_message_size = 1048576"

text \<open>\<open>read_exact\<close> fails when the stream ends first.\<close>

datatype wire_error = Closed | FrameTooLarge nat | NoiseFailed | PqFailed | BadMessage

definition recv_frame :: "bytes \<Rightarrow> wire_error + bytes \<times> bytes" where
  "recv_frame stream =
     (if length stream < 4 then Inl Closed
      else let len = decode_frame_length (take 4 stream); rest = drop 4 stream
           in if max_message_size < len then Inl (FrameTooLarge len)
              else if length rest < len then Inl Closed
              else Inr (take len rest, drop len rest))"

lemma recv_encode_frame:
  assumes "length p \<le> max_message_size"
  shows "recv_frame (encode_frame p @ rest) = Inr (p, rest)"
proof -
  have "length p < 2 ^ 32" using assms by (simp add: max_message_size_def)
  then have n: "unat (word_of_nat (length p) :: 32 word) = length p"
    by (simp add: unat_of_nat)
  have "be_value (to_be_bytes 4 (length p)) = length p"
    by (rule be_value_to_be_bytes) (use \<open>length p < 2 ^ 32\<close> in simp)
  then show ?thesis
    using assms by (simp add: recv_frame_def encode_frame_def decode_frame_length_def n Let_def)
qed

section \<open>The post-quantum layer\<close>

definition make_pq_nonce :: "nat \<Rightarrow> bytes" where
  "make_pq_nonce counter = to_le_bytes 8 counter @ replicate 4 0"

lemma pq_nonce_inj:
  assumes "make_pq_nonce i = make_pq_nonce j" and "i < 2 ^ 64" and "j < 2 ^ 64"
  shows "i = j"
proof -
  have "to_le_bytes 8 i = to_le_bytes 8 j"
    using assms(1) by (simp add: make_pq_nonce_def)
  moreover have "i < 256 ^ 8" "j < 256 ^ 8" using assms(2,3) by simp_all
  ultimately show ?thesis by (metis le_value_to_le_bytes)
qed

section \<open>Connections\<close>

record codec =
  cd_to_json :: "mesh_message \<Rightarrow> bytes"
  cd_of_json :: "bytes \<Rightarrow> mesh_message option"
  cd_encrypt :: "bytes \<Rightarrow> bytes \<Rightarrow> bytes \<Rightarrow> bytes option"
  cd_decrypt :: "bytes \<Rightarrow> bytes \<Rightarrow> bytes \<Rightarrow> bytes option"

record session =
  se_write :: "nat \<Rightarrow> bytes \<Rightarrow> bytes option"
  se_read :: "nat \<Rightarrow> bytes \<Rightarrow> bytes option"
  se_pq_key :: bytes

text \<open>The counters of one end: Noise messages written and read (the library counts a message it
  accepted), and the two nonce counters of the post-quantum layer (counted up before use of the
  cipher's result).\<close>

record counters =
  ct_written :: nat
  ct_read :: nat
  ct_pq_out :: nat
  ct_pq_in :: nat

definition new_connection :: "nat \<Rightarrow> nat \<Rightarrow> counters" where
  "new_connection written was_read = \<lparr>ct_written = written, ct_read = was_read, ct_pq_out = 0, ct_pq_in = 0\<rparr>"

text \<open>The three critical sections of \<open>send_message\<close>: each holds its own lock.\<close>

definition noise_seal :: "codec \<Rightarrow> session \<Rightarrow> counters \<Rightarrow> mesh_message \<Rightarrow> counters \<times> (wire_error + bytes)" where
  "noise_seal cd se c m =
     (case se_write se (ct_written c) (cd_to_json cd m) of
        None \<Rightarrow> (c, Inl NoiseFailed)
      | Some x \<Rightarrow> (c\<lparr>ct_written := Suc (ct_written c)\<rparr>, Inr x))"

definition pq_seal :: "codec \<Rightarrow> session \<Rightarrow> counters \<Rightarrow> bytes \<Rightarrow> counters \<times> (wire_error + bytes)" where
  "pq_seal cd se c x =
     (let nonce = make_pq_nonce (ct_pq_out c); c' = c\<lparr>ct_pq_out := wrapping_add_w 64 (ct_pq_out c) 1\<rparr>
      in case cd_encrypt cd (se_pq_key se) nonce x of
           None \<Rightarrow> (c', Inl PqFailed)
         | Some y \<Rightarrow> (c', Inr y))"

text \<open>A send without interleaving, up to the bytes handed to the socket.\<close>

definition send_message :: "codec \<Rightarrow> session \<Rightarrow> counters \<Rightarrow> mesh_message \<Rightarrow> counters \<times> (wire_error + bytes)" where
  "send_message cd se c m =
     (case noise_seal cd se c m of
        (c1, Inl e) \<Rightarrow> (c1, Inl e)
      | (c1, Inr x) \<Rightarrow>
          (case pq_seal cd se c1 x of
             (c2, Inl e) \<Rightarrow> (c2, Inl e)
           | (c2, Inr y) \<Rightarrow> (c2, Inr (encode_frame y))))"

definition recv_message ::
  "codec \<Rightarrow> session \<Rightarrow> counters \<Rightarrow> bytes \<Rightarrow> counters \<times> (wire_error + mesh_message \<times> bytes)" where
  "recv_message cd se c stream =
     (case recv_frame stream of
        Inl e \<Rightarrow> (c, Inl e)
      | Inr (payload, rest) \<Rightarrow>
          (let nonce = make_pq_nonce (ct_pq_in c); c1 = c\<lparr>ct_pq_in := wrapping_add_w 64 (ct_pq_in c) 1\<rparr>
           in case cd_decrypt cd (se_pq_key se) nonce payload of
                None \<Rightarrow> (c1, Inl PqFailed)
              | Some x \<Rightarrow>
                  (case se_read se (ct_read c1) x of
                     None \<Rightarrow> (c1, Inl NoiseFailed)
                   | Some j \<Rightarrow>
                       (let c2 = c1\<lparr>ct_read := Suc (ct_read c1)\<rparr>
                        in case cd_of_json cd j of
                             None \<Rightarrow> (c2, Inl BadMessage)
                           | Some m \<Rightarrow> (c2, Inr (m, rest))))))"

section \<open>Reconnection back-off\<close>

record backoff =
  bo_attempt :: nat
  bo_base :: nat
  bo_max :: nat

definition new_backoff :: backoff where
  "new_backoff = \<lparr>bo_attempt = 0, bo_base = 1, bo_max = 60\<rparr>"

definition saturating_pow2 :: "nat \<Rightarrow> nat" where
  "saturating_pow2 n = (if n < 64 then 2 ^ n else 2 ^ 64 - 1)"

definition next_delay :: "backoff \<Rightarrow> backoff \<times> nat" where
  "next_delay b =
     (b\<lparr>bo_attempt := min (bo_attempt b + 1) (2 ^ 32 - 1)\<rparr>,
      min ((bo_base b * saturating_pow2 (bo_attempt b)) mod 2 ^ 64) (bo_max b))"

definition reset_backoff :: "backoff \<Rightarrow> backoff" where
  "reset_backoff b = b\<lparr>bo_attempt := 0\<rparr>"

definition backoff_after :: "nat \<Rightarrow> backoff" where
  "backoff_after n = ((\<lambda>b. fst (next_delay b)) ^^ n) new_backoff"

lemma backoff_after: "backoff_after n = new_backoff\<lparr>bo_attempt := min n (2 ^ 32 - 1)\<rparr>"
  by (induction n) (auto simp: backoff_after_def new_backoff_def next_delay_def min_def)

lemma saturating_pow2_ge: "6 \<le> n \<Longrightarrow> 64 \<le> saturating_pow2 n \<and> saturating_pow2 n < 2 ^ 64"
proof -
  assume n: "6 \<le> n"
  show ?thesis
  proof (cases "n < 64")
    case True
    have "(2::nat) ^ 6 \<le> 2 ^ n" using n by (intro power_increasing) simp_all
    moreover have "(2::nat) ^ n < 2 ^ 64" using True by (intro power_strict_increasing) simp_all
    ultimately show ?thesis using True by (simp add: saturating_pow2_def)
  qed (simp add: saturating_pow2_def)
qed

lemma next_delay_new:
  "snd (next_delay (backoff_after n)) = (if n < 6 then 2 ^ n else 60)"
proof (cases "n < 6")
  case True
  then have "n \<in> {0, 1, 2, 3, 4, 5}" by auto
  then show ?thesis
    by (auto simp: backoff_after next_delay_def new_backoff_def saturating_pow2_def)
next
  case False
  then have "6 \<le> min n (2 ^ 32 - 1)" by simp
  from saturating_pow2_ge [OF this] False show ?thesis
    by (simp add: backoff_after next_delay_def new_backoff_def)
qed

section \<open>Ordered delivery as an interface\<close>

text \<open>
  Two ends of a channel that is set up: what one end puts on the wire, the other end reads as the
  message sent, and the two stay set up. Both the connection of \<open>transport.rs\<close> and the Noise-only
  channel of the handshake keep this contract; its lemma lifts it to whole conversations.
\<close>

fun send_all :: "('a \<Rightarrow> 'm \<Rightarrow> 'a \<times> ('e + bytes)) \<Rightarrow> 'a \<Rightarrow> 'm list \<Rightarrow> ('a \<times> bytes) option" where
  "send_all send a [] = Some (a, [])"
| "send_all send a (m # ms) =
     (case send a m of
        (a1, Inl e) \<Rightarrow> None
      | (a1, Inr f) \<Rightarrow> map_option (\<lambda>(a2, s). (a2, f @ s)) (send_all send a1 ms))"

fun recv_all ::
  "('b \<Rightarrow> bytes \<Rightarrow> 'b \<times> ('e + 'm \<times> bytes)) \<Rightarrow> nat \<Rightarrow> 'b \<Rightarrow> bytes \<Rightarrow> ('b \<times> 'm list \<times> bytes) option" where
  "recv_all recv 0 b stream = Some (b, [], stream)"
| "recv_all recv (Suc n) b stream =
     (case recv b stream of
        (b1, Inl e) \<Rightarrow> None
      | (b1, Inr (m, rest)) \<Rightarrow> map_option (\<lambda>(b2, ms, r). (b2, m # ms, r)) (recv_all recv n b1 rest))"

locale fifo_channel =
  fixes send :: "'a \<Rightarrow> 'm \<Rightarrow> 'a \<times> ('e + bytes)"
    and recv :: "'b \<Rightarrow> bytes \<Rightarrow> 'b \<times> ('e + 'm \<times> bytes)"
    and linked :: "'a \<Rightarrow> 'b \<Rightarrow> bool"
  assumes deliver: "linked a b \<Longrightarrow> send a m = (a', Inr f) \<Longrightarrow>
    \<exists>b'. recv b (f @ rest) = (b', Inr (m, rest)) \<and> linked a' b'"
begin

lemma delivered:
  "linked a b \<Longrightarrow> send_all send a ms = Some (a', stream) \<Longrightarrow>
   \<exists>b'. recv_all recv (length ms) b (stream @ rest) = Some (b', ms, rest) \<and> linked a' b'"
proof (induction ms arbitrary: a b stream)
  case Nil
  then show ?case by simp
next
  case (Cons m ms)
  then obtain a1 f s where f: "send a m = (a1, Inr f)" and s: "send_all send a1 ms = Some (a', s)"
    and stream: "stream = f @ s"
    by (auto split: prod.splits sum.splits)
  obtain b1 where "recv b (f @ s @ rest) = (b1, Inr (m, s @ rest))" and "linked a1 b1"
    using deliver [OF Cons.prems(1) f] by blast
  with Cons.IH [OF _ s] show ?case by (force simp: stream)
qed

end

text \<open>The two ends share a Noise session and a key; the reader has read what the writer has written.\<close>

definition noise_link :: "session \<Rightarrow> session \<Rightarrow> bool" where
  "noise_link sa sb = (\<forall>n m x. se_write sa n m = Some x \<longrightarrow> se_read sb n x = Some m \<and> length x \<le> 65535)"

definition codec_ok :: "codec \<Rightarrow> bool" where
  "codec_ok cd = ((\<forall>m. cd_of_json cd (cd_to_json cd m) = Some m) \<and>
     (\<forall>k n x y. cd_encrypt cd k n x = Some y \<longrightarrow> cd_decrypt cd k n y = Some x \<and> length y = length x + 16))"

definition in_step :: "codec \<Rightarrow> session \<Rightarrow> session \<Rightarrow> counters \<Rightarrow> counters \<Rightarrow> bool" where
  "in_step cd sa sb a b = (noise_link sa sb \<and> codec_ok cd \<and> se_pq_key sa = se_pq_key sb \<and>
     ct_written a = ct_read b \<and> ct_pq_out a = ct_pq_in b)"

lemma recv_sent_message:
  assumes "in_step cd sa sb a b" and "send_message cd sa a m = (a', Inr f)"
  shows "\<exists>b'. recv_message cd sb b (f @ rest) = (b', Inr (m, rest)) \<and> in_step cd sa sb a' b'"
proof -
  have cd: "cd_of_json cd (cd_to_json cd m) = Some m" and key: "se_pq_key sa = se_pq_key sb"
    and c: "ct_written a = ct_read b" "ct_pq_out a = ct_pq_in b"
    using assms(1) by (simp_all add: in_step_def codec_ok_def)
  obtain x y where x: "se_write sa (ct_written a) (cd_to_json cd m) = Some x"
    and y: "cd_encrypt cd (se_pq_key sa) (make_pq_nonce (ct_pq_out a)) x = Some y"
    and a': "a' = a\<lparr>ct_written := Suc (ct_written a), ct_pq_out := wrapping_add_w 64 (ct_pq_out a) 1\<rparr>"
    and f: "f = encode_frame y"
    using assms(2) by (auto simp: send_message_def noise_seal_def pq_seal_def Let_def split: option.splits)
  have "se_read sb (ct_written a) x = Some (cd_to_json cd m)" "length x \<le> 65535"
    using assms(1) x by (auto simp: in_step_def noise_link_def)
  moreover have "cd_decrypt cd (se_pq_key sa) (make_pq_nonce (ct_pq_out a)) y = Some x" "length y = length x + 16"
    using assms(1) y by (auto simp: in_step_def codec_ok_def)
  moreover from calculation have "recv_frame (f @ rest) = Inr (y, rest)"
    unfolding f by (intro recv_encode_frame) (simp add: max_message_size_def)
  ultimately show ?thesis
    using assms(1) cd key c by (simp add: recv_message_def Let_def a' in_step_def)
qed

interpretation connection: fifo_channel "send_message cd sa" "recv_message cd sb" "in_step cd sa sb"
  for cd sa sb
  by unfold_locales (rule recv_sent_message)

section \<open>Interleaved sends\<close>

text \<open>Two tasks that send on one connection run the three critical sections of \<open>send_message\<close> in
  any order that keeps each task's own.\<close>

datatype send_stage = Start mesh_message | Sealed bytes | Framed bytes | Written | SendError

record sending =
  sg_counters :: counters
  sg_tasks :: "nat \<Rightarrow> send_stage"
  sg_wire :: bytes

definition send_step :: "codec \<Rightarrow> session \<Rightarrow> sending \<Rightarrow> nat \<Rightarrow> sending" where
  "send_step cd se g i =
     (case sg_tasks g i of
        Start m \<Rightarrow>
          (case noise_seal cd se (sg_counters g) m of
             (c, Inl e) \<Rightarrow> g\<lparr>sg_counters := c, sg_tasks := (sg_tasks g)(i := SendError)\<rparr>
           | (c, Inr x) \<Rightarrow> g\<lparr>sg_counters := c, sg_tasks := (sg_tasks g)(i := Sealed x)\<rparr>)
      | Sealed x \<Rightarrow>
          (case pq_seal cd se (sg_counters g) x of
             (c, Inl e) \<Rightarrow> g\<lparr>sg_counters := c, sg_tasks := (sg_tasks g)(i := SendError)\<rparr>
           | (c, Inr y) \<Rightarrow> g\<lparr>sg_counters := c, sg_tasks := (sg_tasks g)(i := Framed (encode_frame y))\<rparr>)
      | Framed f \<Rightarrow> g\<lparr>sg_wire := sg_wire g @ f, sg_tasks := (sg_tasks g)(i := Written)\<rparr>
      | _ \<Rightarrow> g)"

text \<open>Uninterrupted, the three steps are \<open>send_message\<close>.\<close>

lemma send_steps_message:
  assumes "sg_tasks g i = Start m" and "send_message cd se (sg_counters g) m = (c, Inr f)"
  shows "foldl (send_step cd se) g [i, i, i] =
     g\<lparr>sg_counters := c, sg_tasks := (sg_tasks g)(i := Written), sg_wire := sg_wire g @ f\<rparr>"
proof -
  obtain c1 x where x: "noise_seal cd se (sg_counters g) m = (c1, Inr x)"
    using assms(2) by (auto simp: send_message_def split: prod.splits sum.splits)
  then obtain y where "pq_seal cd se c1 x = (c, Inr y)" "f = encode_frame y"
    using assms(2) by (auto simp: send_message_def split: prod.splits sum.splits)
  then show ?thesis using x assms(1) by (simp add: send_step_def)
qed

text \<open>When the second task overtakes the first between two critical sections, the first frame on
  the wire is the second Noise message, which the receiver cannot read.\<close>

lemma overtaken_send_fails:
  assumes link: "in_step cd sa sb a b"
    and tasks: "g = \<lparr>sg_counters = a, sg_tasks = (\<lambda>i. if i = 0 then Start m0 else Start m1), sg_wire = []\<rparr>"
    and x0: "se_write sa (ct_written a) (cd_to_json cd m0) = Some x0"
    and x1: "se_write sa (Suc (ct_written a)) (cd_to_json cd m1) = Some x1"
    and strict: "se_read sb (ct_written a) x1 = None"
    and y1: "cd_encrypt cd (se_pq_key sa) (make_pq_nonce (ct_pq_out a)) x1 = Some y1"
    and y0: "cd_encrypt cd (se_pq_key sa) (make_pq_nonce (wrapping_add_w 64 (ct_pq_out a) 1)) x0 = Some y0"
  shows "\<exists>b'. recv_message cd sb b (sg_wire (foldl (send_step cd sa) g [0, 1, 1, 1, 0, 0])) = (b', Inl NoiseFailed)"
proof -
  have w: "sg_wire (foldl (send_step cd sa) g [0, 1, 1, 1, 0, 0]) = encode_frame y1 @ encode_frame y0"
    using x0 x1 y0 y1 by (simp add: tasks send_step_def noise_seal_def pq_seal_def Let_def)
  have "length x1 \<le> 65535" using link x1 by (auto simp: in_step_def noise_link_def)
  moreover have "cd_decrypt cd (se_pq_key sa) (make_pq_nonce (ct_pq_out a)) y1 = Some x1" "length y1 = length x1 + 16"
    using link y1 by (auto simp: in_step_def codec_ok_def)
  moreover from calculation have "recv_frame (encode_frame y1 @ encode_frame y0) = Inr (y1, encode_frame y0)"
    by (intro recv_encode_frame) (simp add: max_message_size_def)
  moreover have "se_pq_key sa = se_pq_key sb" "ct_written a = ct_read b" "ct_pq_out a = ct_pq_in b"
    using link by (simp_all add: in_step_def)
  ultimately show ?thesis using strict unfolding w by (simp add: recv_message_def Let_def)
qed

end
