(* ===== verification/MeshHandshake.thy ===== *)
theory MeshHandshake
  imports MeshWire
begin

text \<open>
  \<open>crates/osmoda-mesh/src/identity.rs\<close> and \<open>handshake.rs\<close>: the identity of a mesh daemon, its
  files and its signature, and the exchange that follows the Noise handshake: identities, two
  ML-KEM encapsulations and the derived key. The cryptographic primitives and codecs are
  parameters (record \<open>mesh_crypto\<close>); the randomness of a step is an argument.
\<close>

section \<open>Parameters\<close>

record mesh_crypto =
  mc_js :: "json \<Rightarrow> string"
  mc_hex :: "bytes \<Rightarrow> string"
  mc_unhex :: "string \<Rightarrow> bytes option"
  mc_b64 :: "bytes \<Rightarrow> string"
  mc_unb64 :: "string \<Rightarrow> bytes option"
  mc_sha256 :: "bytes \<Rightarrow> bytes"
  mc_ed_public :: "bytes \<Rightarrow> bytes"
  mc_ed_sign :: "bytes \<Rightarrow> bytes \<Rightarrow> bytes"
  mc_ed_verifier :: "bytes \<Rightarrow> (bytes \<Rightarrow> bytes \<Rightarrow> bool) option"
  mc_ek_of_dk :: "bytes \<Rightarrow> bytes option"
  mc_encap :: "bytes \<Rightarrow> bytes \<Rightarrow> (bytes \<times> bytes) option"
  mc_decap :: "bytes \<Rightarrow> bytes \<Rightarrow> bytes option"
  mc_hkdf :: "bytes \<Rightarrow> bytes \<Rightarrow> bytes"

section \<open>Identities\<close>

record public_identity =
  pi_instance_id :: string
  pi_ed25519 :: string
  pi_noise :: string
  pi_mlkem :: string
  pi_capabilities :: "string list"
  pi_signature :: "string option"

record mesh_identity =
  mi_ed_secret :: bytes
  mi_noise_private :: bytes
  mi_noise_public :: bytes
  mi_mlkem_dk :: bytes
  mi_mlkem_ek :: bytes
  mi_public :: public_identity

text \<open>A \<open>BTreeMap\<close> yields its keys in order.\<close>

definition canonical_json :: "mesh_crypto \<Rightarrow> public_identity \<Rightarrow> string" where
  "canonical_json mc p = mc_js mc (JObj
     [(''capabilities'', JArr (List.map JStr (pi_capabilities p))),
      (''ed25519_pubkey'', JStr (pi_ed25519 p)), (''instance_id'', JStr (pi_instance_id p)),
      (''mlkem_encap_key'', JStr (pi_mlkem p)), (''noise_static_pubkey'', JStr (pi_noise p))])"

definition sign_identity :: "mesh_crypto \<Rightarrow> bytes \<Rightarrow> public_identity \<Rightarrow> bytes" where
  "sign_identity mc sk p = mc_ed_sign mc sk (bytes_of (canonical_json mc p))"

datatype identity_error = NoSignature | BadHex | BadSignatureLength | BadKeyLength | BadKey | BadFile

definition verify_identity :: "mesh_crypto \<Rightarrow> public_identity \<Rightarrow> identity_error + bool" where
  "verify_identity mc p =
     (case pi_signature p of
        None \<Rightarrow> Inl NoSignature
      | Some sig_hex \<Rightarrow>
          (case mc_unhex mc sig_hex of
             None \<Rightarrow> Inl BadHex
           | Some sig \<Rightarrow>
               if length sig \<noteq> 64 then Inl BadSignatureLength
               else case mc_unhex mc (pi_ed25519 p) of
                      None \<Rightarrow> Inl BadHex
                    | Some pk \<Rightarrow>
                        if length pk \<noteq> 32 then Inl BadKeyLength
                        else case mc_ed_verifier mc pk of
                               None \<Rightarrow> Inl BadKey
                             | Some verify_strict \<Rightarrow> Inr (verify_strict (bytes_of (canonical_json mc p)) sig)))"

text \<open>What \<open>generate\<close> and \<open>load_from_disk\<close> build from the key material.\<close>

definition instance_id :: "mesh_crypto \<Rightarrow> bytes \<Rightarrow> string" where
  "instance_id mc noise_public = mc_hex mc (take 16 (mc_sha256 mc noise_public))"

definition unsigned_identity :: "mesh_crypto \<Rightarrow> bytes \<Rightarrow> bytes \<Rightarrow> bytes \<Rightarrow> public_identity" where
  "unsigned_identity mc ed_secret noise_public ek =
     \<lparr>pi_instance_id = instance_id mc noise_public, pi_ed25519 = mc_hex mc (mc_ed_public mc ed_secret),
      pi_noise = mc_hex mc noise_public, pi_mlkem = mc_b64 mc ek, pi_capabilities = [''mesh.v1''],
      pi_signature = None\<rparr>"

definition build_identity :: "mesh_crypto \<Rightarrow> bytes \<Rightarrow> bytes \<Rightarrow> bytes \<Rightarrow> bytes \<Rightarrow> bytes \<Rightarrow> mesh_identity" where
  "build_identity mc ed_secret noise_private noise_public dk ek =
     (let p = unsigned_identity mc ed_secret noise_public ek
      in \<lparr>mi_ed_secret = ed_secret, mi_noise_private = noise_private, mi_noise_public = noise_public,
          mi_mlkem_dk = dk, mi_mlkem_ek = ek,
          mi_public = p\<lparr>pi_signature := Some (mc_hex mc (sign_identity mc ed_secret p))\<rparr>\<rparr>)"

text \<open>The fresh keys of one generation, as the generators return them.\<close>

record fresh_keys =
  fk_ed_secret :: bytes
  fk_noise :: "bytes \<times> bytes"
  fk_mlkem :: "bytes \<times> bytes"

definition generate :: "mesh_crypto \<Rightarrow> fresh_keys \<Rightarrow> mesh_identity" where
  "generate mc k = build_identity mc (fk_ed_secret k) (fst (fk_noise k)) (snd (fk_noise k))
     (fst (fk_mlkem k)) (snd (fk_mlkem k))"

section \<open>Key files\<close>

record key_files =
  kf_ed :: "bytes option"
  kf_noise_key :: "bytes option"
  kf_noise_pub :: "bytes option"
  kf_dk :: "bytes option"
  kf_identity :: "public_identity option"

definition save_to_disk :: "mesh_identity \<Rightarrow> key_files \<Rightarrow> key_files" where
  "save_to_disk i f = f\<lparr>kf_ed := Some (mi_ed_secret i), kf_noise_key := Some (mi_noise_private i),
     kf_noise_pub := Some (mi_noise_public i), kf_dk := Some (mi_mlkem_dk i)\<rparr>"

definition load_from_disk :: "mesh_crypto \<Rightarrow> key_files \<Rightarrow> identity_error + mesh_identity" where
  "load_from_disk mc f =
     (case (kf_ed f, kf_noise_key f, kf_noise_pub f, kf_dk f) of
        (Some ed, Some priv, Some pub, Some dk) \<Rightarrow>
          (if length ed \<noteq> 32 \<or> length priv \<noteq> 32 \<or> length pub \<noteq> 32 then Inl BadKeyLength
           else case mc_ek_of_dk mc dk of
                  None \<Rightarrow> Inl BadKeyLength
                | Some ek \<Rightarrow> Inr (build_identity mc ed priv pub dk ek))
      | _ \<Rightarrow> Inl BadFile)"

definition load_or_create ::
  "mesh_crypto \<Rightarrow> fresh_keys \<Rightarrow> key_files \<Rightarrow> key_files \<times> (identity_error + mesh_identity)" where
  "load_or_create mc k f =
     (if kf_ed f \<noteq> None \<and> kf_noise_key f \<noteq> None \<and> kf_noise_pub f \<noteq> None \<and> kf_dk f \<noteq> None
      then (f, load_from_disk mc f)
      else let i = generate mc k
           in ((save_to_disk i f)\<lparr>kf_identity := Some (mi_public i)\<rparr>, Inr i))"

text \<open>\<open>identity_rotate_handler\<close>: the key files are deleted (a file that cannot be deleted stays),
  then a new identity is made.\<close>

definition rotate_identity ::
  "mesh_crypto \<Rightarrow> fresh_keys \<Rightarrow> (bool \<times> bool \<times> bool \<times> bool) \<Rightarrow> key_files \<Rightarrow> key_files \<times> (identity_error + mesh_identity)" where
  "rotate_identity mc k deleted f =
     (case deleted of (a, b, c, d) \<Rightarrow>
        load_or_create mc k
          (f\<lparr>kf_ed := (if a then None else kf_ed f), kf_noise_key := (if b then None else kf_noise_key f),
             kf_noise_pub := (if c then None else kf_noise_pub f), kf_dk := (if d then None else kf_dk f)\<rparr>))"

section \<open>The Noise channel of the handshake\<close>

definition secure_send :: "session \<Rightarrow> counters \<Rightarrow> bytes \<Rightarrow> counters \<times> (wire_error + bytes)" where
  "secure_send se c payload =
     (case se_write se (ct_written c) payload of
        None \<Rightarrow> (c, Inl NoiseFailed)
      | Some x \<Rightarrow> (c\<lparr>ct_written := Suc (ct_written c)\<rparr>, Inr (encode_frame x)))"

definition secure_recv :: "session \<Rightarrow> counters \<Rightarrow> bytes \<Rightarrow> counters \<times> (wire_error + bytes \<times> bytes)" where
  "secure_recv se c stream =
     (case recv_frame stream of
        Inl e \<Rightarrow> (c, Inl e)
      | Inr (x, rest) \<Rightarrow>
          (case se_read se (ct_read c) x of
             None \<Rightarrow> (c, Inl NoiseFailed)
           | Some m \<Rightarrow> (c\<lparr>ct_read := Suc (ct_read c)\<rparr>, Inr (m, rest))))"

definition noise_in_step :: "session \<Rightarrow> session \<Rightarrow> counters \<Rightarrow> counters \<Rightarrow> bool" where
  "noise_in_step sa sb a b = (noise_link sa sb \<and> ct_written a = ct_read b)"

lemma recv_secure_sent:
  assumes "noise_in_step sa sb a b" and "secure_send sa a m = (a', Inr f)"
  shows "\<exists>b'. secure_recv sb b (f @ rest) = (b', Inr (m, rest)) \<and> noise_in_step sa sb a' b'"
proof -
  obtain x where x: "se_write sa (ct_written a) m = Some x" "f = encode_frame x"
    and a': "a' = a\<lparr>ct_written := Suc (ct_written a)\<rparr>"
    using assms(2) by (auto simp: secure_send_def split: option.splits)
  moreover have "se_read sb (ct_written a) x = Some m" "length x \<le> 65535"
    using assms(1) x by (auto simp: noise_in_step_def noise_link_def)
  moreover from calculation have "recv_frame (f @ rest) = Inr (x, rest)"
    by (simp add: recv_encode_frame max_message_size_def)
  ultimately show ?thesis using assms(1) by (simp add: secure_recv_def noise_in_step_def)
qed

interpretation secure_channel: fifo_channel "secure_send sa" "secure_recv sb" "noise_in_step sa sb"
  for sa sb
  by unfold_locales (rule recv_secure_sent)

section \<open>Identities and ML-KEM exchange\<close>

text \<open>What one side of a handshake needs: its primitives, its codecs, its identity and the Noise
  session with its handshake hash.\<close>

record party =
  pa_crypto :: mesh_crypto
  pa_codec :: codec
  pa_id_to_json :: "public_identity \<Rightarrow> bytes"
  pa_id_of_json :: "bytes \<Rightarrow> public_identity option"
  pa_identity :: mesh_identity
  pa_session :: session
  pa_hash :: bytes

datatype hs_error = HsWire wire_error | HsJson | HsIdentity identity_error | HsForged | HsKem | HsUnexpected

definition hkdf_info :: bytes where
  "hkdf_info = bytes_of ''osMODA-mesh-v1''"

definition derive_hybrid_key :: "mesh_crypto \<Rightarrow> bytes \<Rightarrow> bytes \<Rightarrow> bytes \<Rightarrow> bytes" where
  "derive_hybrid_key mc handshake_hash ss1 ss2 = mc_hkdf mc (handshake_hash @ ss1 @ ss2) hkdf_info"

definition mlkem_encapsulate :: "mesh_crypto \<Rightarrow> string \<Rightarrow> bytes \<Rightarrow> (bytes \<times> bytes) option" where
  "mlkem_encapsulate mc ek_b64 rnd =
     (case mc_unb64 mc ek_b64 of None \<Rightarrow> None | Some ek \<Rightarrow> mc_encap mc ek rnd)"

definition mlkem_decapsulate :: "mesh_crypto \<Rightarrow> mesh_identity \<Rightarrow> bytes \<Rightarrow> bytes option" where
  "mlkem_decapsulate mc i ct = mc_decap mc (mi_mlkem_dk i) ct"

text \<open>The steps both roles share.\<close>

definition send_identity :: "party \<Rightarrow> counters \<Rightarrow> hs_error + counters \<times> bytes" where
  "send_identity p c =
     (case secure_send (pa_session p) c (pa_id_to_json p (mi_public (pa_identity p))) of
        (c', Inl e) \<Rightarrow> Inl (HsWire e)
      | (c', Inr f) \<Rightarrow> Inr (c', f))"

definition recv_identity :: "party \<Rightarrow> counters \<Rightarrow> bytes \<Rightarrow> hs_error + counters \<times> public_identity \<times> bytes" where
  "recv_identity p c stream =
     (case secure_recv (pa_session p) c stream of
        (c', Inl e) \<Rightarrow> Inl (HsWire e)
      | (c', Inr (j, rest)) \<Rightarrow>
          (case pa_id_of_json p j of
             None \<Rightarrow> Inl HsJson
           | Some peer \<Rightarrow>
               (case verify_identity (pa_crypto p) peer of
                  Inl e \<Rightarrow> Inl (HsIdentity e)
                | Inr True \<Rightarrow> Inr (c', peer, rest)
                | Inr False \<Rightarrow> Inl HsForged)))"

text \<open>Encapsulate to the peer's key and send the ciphertext; returns our shared secret.\<close>

definition send_ciphertext ::
  "party \<Rightarrow> public_identity \<Rightarrow> bytes \<Rightarrow> counters \<Rightarrow> hs_error + counters \<times> bytes \<times> bytes" where
  "send_ciphertext p peer rnd c =
     (case mlkem_encapsulate (pa_crypto p) (pi_mlkem peer) rnd of
        None \<Rightarrow> Inl HsKem
      | Some (ct, ss) \<Rightarrow>
          (case secure_send (pa_session p) c
                  (cd_to_json (pa_codec p) (PqExchange (mc_b64 (pa_crypto p) ct))) of
             (c', Inl e) \<Rightarrow> Inl (HsWire e)
           | (c', Inr f) \<Rightarrow> Inr (c', ss, f)))"

definition recv_ciphertext :: "party \<Rightarrow> counters \<Rightarrow> bytes \<Rightarrow> hs_error + counters \<times> bytes \<times> bytes" where
  "recv_ciphertext p c stream =
     (case secure_recv (pa_session p) c stream of
        (c', Inl e) \<Rightarrow> Inl (HsWire e)
      | (c', Inr (j, rest)) \<Rightarrow>
          (case cd_of_json (pa_codec p) j of
             None \<Rightarrow> Inl HsJson
           | Some (PqExchange ct_b64) \<Rightarrow>
               (case mc_unb64 (pa_crypto p) ct_b64 of
                  None \<Rightarrow> Inl HsJson
                | Some ct \<Rightarrow>
                    (case mlkem_decapsulate (pa_crypto p) (pa_identity p) ct of
                       None \<Rightarrow> Inl HsKem
                     | Some ss \<Rightarrow> Inr (c', ss, rest)))
           | Some _ \<Rightarrow> Inl HsUnexpected))"

record hs_result =
  hr_counters :: counters
  hr_peer :: public_identity
  hr_key :: bytes

text \<open>The initiator after the Noise handshake: \<open>from1\<close> and \<open>from2\<close> are what the responder has sent
  when the initiator reads. Each role is cut where it waits for the other one.\<close>

definition initiator_start :: "party \<Rightarrow> hs_error + counters \<times> bytes" where
  "initiator_start p = send_identity p (new_connection 0 0)"

definition initiator_exchange ::
  "party \<Rightarrow> bytes \<Rightarrow> counters \<Rightarrow> bytes \<Rightarrow> hs_error + counters \<times> public_identity \<times> bytes \<times> bytes \<times> bytes" where
  "initiator_exchange p rnd c from1 =
     and_then (recv_identity p c from1) (\<lambda>(c1, peer, rest).
     and_then (send_ciphertext p peer rnd c1) (\<lambda>(c2, ss, f). Inr (c2, peer, ss, f, rest)))"

definition initiator_finish ::
  "party \<Rightarrow> counters \<Rightarrow> public_identity \<Rightarrow> bytes \<Rightarrow> bytes \<Rightarrow> hs_error + hs_result" where
  "initiator_finish p c peer ss_initiator from2 =
     and_then (recv_ciphertext p c from2) (\<lambda>(c', ss_responder, rest).
       Inr \<lparr>hr_counters = c', hr_peer = peer,
            hr_key = derive_hybrid_key (pa_crypto p) (pa_hash p) ss_initiator ss_responder\<rparr>)"

definition responder_start :: "party \<Rightarrow> bytes \<Rightarrow> hs_error + counters \<times> public_identity \<times> bytes \<times> bytes" where
  "responder_start p from1 =
     and_then (recv_identity p (new_connection 0 0) from1) (\<lambda>(c1, peer, rest).
     and_then (send_identity p c1) (\<lambda>(c2, f). Inr (c2, peer, f, rest)))"

definition responder_finish ::
  "party \<Rightarrow> bytes \<Rightarrow> counters \<Rightarrow> public_identity \<Rightarrow> bytes \<Rightarrow> hs_error + hs_result \<times> bytes" where
  "responder_finish p rnd c peer from2 =
     and_then (recv_ciphertext p c from2) (\<lambda>(c1, ss_initiator, rest).
     and_then (send_ciphertext p peer rnd c1) (\<lambda>(c2, ss_responder, f).
       Inr (\<lparr>hr_counters = c2, hr_peer = peer,
             hr_key = derive_hybrid_key (pa_crypto p) (pa_hash p) ss_initiator ss_responder\<rparr>, f)))"

text \<open>One handshake over a wire that delivers what is sent.\<close>

definition run_handshake :: "party \<Rightarrow> party \<Rightarrow> bytes \<Rightarrow> bytes \<Rightarrow> hs_error + hs_result \<times> hs_result" where
  "run_handshake a b rnd_a rnd_b =
     and_then (initiator_start a) (\<lambda>(ca, f1).
     and_then (responder_start b f1) (\<lambda>(cb, peer_b, f2, _).
     and_then (initiator_exchange a rnd_a ca f2) (\<lambda>(ca', peer_a, ss, f3, _).
     and_then (responder_finish b rnd_b cb peer_b f3) (\<lambda>(rb, f4).
     and_then (initiator_finish a ca' peer_a ss f4) (\<lambda>ra. Inr (ra, rb))))))"

section \<open>Two honest parties agree\<close>

text \<open>The two sides use the same primitives and codecs and are the two ends of one Noise session.\<close>

definition same_world :: "party \<Rightarrow> party \<Rightarrow> bool" where
  "same_world a b = (pa_crypto a = pa_crypto b \<and> pa_codec a = pa_codec b \<and> pa_hash a = pa_hash b \<and>
     noise_link (pa_session a) (pa_session b) \<and> noise_link (pa_session b) (pa_session a) \<and>
     codec_ok (pa_codec a) \<and>
     pa_id_of_json b (pa_id_to_json a (mi_public (pa_identity a))) = Some (mi_public (pa_identity a)) \<and>
     pa_id_of_json a (pa_id_to_json b (mi_public (pa_identity b))) = Some (mi_public (pa_identity b)))"

text \<open>What the documentation of the primitives promises.\<close>

definition crypto_ok :: "mesh_crypto \<Rightarrow> bool" where
  "crypto_ok mc = ((\<forall>x. mc_unhex mc (mc_hex mc x) = Some x) \<and> (\<forall>x. mc_unb64 mc (mc_b64 mc x) = Some x) \<and>
     (\<forall>sk m. length (mc_ed_sign mc sk m) = 64) \<and> (\<forall>sk. length (mc_ed_public mc sk) = 32) \<and>
     (\<forall>sk. \<exists>v. mc_ed_verifier mc (mc_ed_public mc sk) = Some v \<and> (\<forall>m. v m (mc_ed_sign mc sk m))) \<and>
     (\<forall>dk ek rnd. mc_ek_of_dk mc dk = Some ek \<longrightarrow>
        (\<exists>ct ss. mc_encap mc ek rnd = Some (ct, ss) \<and> mc_decap mc dk ct = Some ss)))"

definition own_identity :: "mesh_crypto \<Rightarrow> mesh_identity \<Rightarrow> bool" where
  "own_identity mc i = (\<exists>ed priv pub dk ek. i = build_identity mc ed priv pub dk ek \<and> mc_ek_of_dk mc dk = Some ek)"

text \<open>The Noise library takes messages of up to 65519 bytes; the identity and the ciphertext of the
  party fit.\<close>

definition fits :: "party \<Rightarrow> bool" where
  "fits p = ((\<forall>n m. length m \<le> 65519 \<longrightarrow> se_write (pa_session p) n m \<noteq> None) \<and>
     length (pa_id_to_json p (mi_public (pa_identity p))) \<le> 65519 \<and>
     (\<forall>ek rnd ct ss. mc_encap (pa_crypto p) ek rnd = Some (ct, ss) \<longrightarrow>
        length (cd_to_json (pa_codec p) (PqExchange (mc_b64 (pa_crypto p) ct))) \<le> 65519))"

lemma built_identity_verifies:
  assumes "crypto_ok mc"
  shows "verify_identity mc (mi_public (build_identity mc ed priv pub dk ek)) = Inr True"
proof -
  obtain v where "mc_ed_verifier mc (mc_ed_public mc ed) = Some v" and "\<And>m. v m (mc_ed_sign mc ed m)"
    using assms unfolding crypto_ok_def by blast
  then show ?thesis
    using assms by (simp add: crypto_ok_def verify_identity_def build_identity_def Let_def
        unsigned_identity_def sign_identity_def canonical_json_def)
qed

lemma own_verifies: "crypto_ok mc \<Longrightarrow> own_identity mc i \<Longrightarrow> verify_identity mc (mi_public i) = Inr True"
  using built_identity_verifies by (auto simp: own_identity_def)

text \<open>Both directions are in step and the post-quantum layer has not been used.\<close>

definition duplex :: "session \<Rightarrow> session \<Rightarrow> counters \<Rightarrow> counters \<Rightarrow> bool" where
  "duplex sa sb a b = (noise_in_step sa sb a b \<and> noise_in_step sb sa b a \<and>
     ct_pq_out a = 0 \<and> ct_pq_in a = 0 \<and> ct_pq_out b = 0 \<and> ct_pq_in b = 0)"

lemma duplex_sym: "duplex sa sb a b \<Longrightarrow> duplex sb sa b a"
  by (simp add: duplex_def)

lemma secure_send_frame:
  "secure_send s c m = (c', Inr f) \<Longrightarrow> ct_read c' = ct_read c \<and> ct_pq_out c' = ct_pq_out c \<and> ct_pq_in c' = ct_pq_in c"
  by (auto simp: secure_send_def split: option.splits)

lemma secure_recv_frame:
  "secure_recv s c f = (c', Inr m) \<Longrightarrow>
   ct_written c' = ct_written c \<and> ct_pq_out c' = ct_pq_out c \<and> ct_pq_in c' = ct_pq_in c"
  by (auto simp: secure_recv_def split: sum.splits option.splits)

lemma secure_sent:
  assumes "duplex (pa_session a) sb ca cb" and "fits a" and "length m \<le> 65519"
  shows "\<exists>ca' f cb'. secure_send (pa_session a) ca m = (ca', Inr f) \<and>
    secure_recv sb cb f = (cb', Inr (m, [])) \<and> duplex (pa_session a) sb ca' cb'"
proof -
  obtain ca' f where s: "secure_send (pa_session a) ca m = (ca', Inr f)"
    using assms(2,3) by (fastforce simp: fits_def secure_send_def split: option.split)
  moreover obtain cb' where r: "secure_recv sb cb (f @ []) = (cb', Inr (m, []))"
    and "noise_in_step (pa_session a) sb ca' cb'"
    using recv_secure_sent [OF _ s] assms(1) unfolding duplex_def by blast
  ultimately show ?thesis
    using assms(1) secure_send_frame [OF s] secure_recv_frame [OF r]
    by (auto simp: duplex_def noise_in_step_def)
qed

lemma exchanged_identity:
  assumes w: "same_world a b" "crypto_ok (pa_crypto a)" "own_identity (pa_crypto a) (pa_identity a)" "fits a"
    and d: "duplex (pa_session a) (pa_session b) ca cb"
  shows "\<exists>ca' f cb'. send_identity a ca = Inr (ca', f) \<and>
    recv_identity b cb f = Inr (cb', mi_public (pa_identity a), []) \<and>
    duplex (pa_session a) (pa_session b) ca' cb'"
proof -
  have "length (pa_id_to_json a (mi_public (pa_identity a))) \<le> 65519" using w(4) by (simp add: fits_def)
  from secure_sent [OF d w(4) this] show ?thesis
    using w(1) own_verifies [OF w(2,3)] by (auto simp: send_identity_def recv_identity_def same_world_def)
qed

lemma exchanged_ciphertext:
  assumes w: "same_world a b" "crypto_ok (pa_crypto b)" "own_identity (pa_crypto b) (pa_identity b)" "fits a"
    and d: "duplex (pa_session a) (pa_session b) ca cb"
  shows "\<exists>ca' ss f cb'. send_ciphertext a (mi_public (pa_identity b)) rnd ca = Inr (ca', ss, f) \<and>
    recv_ciphertext b cb f = Inr (cb', ss, []) \<and> duplex (pa_session a) (pa_session b) ca' cb'"
proof -
  let ?mc = "pa_crypto b"
  obtain ed priv pub dk ek where i: "pa_identity b = build_identity ?mc ed priv pub dk ek"
    and ek: "mc_ek_of_dk ?mc dk = Some ek"
    using w(3) by (auto simp: own_identity_def)
  have unb64: "\<And>x. mc_unb64 ?mc (mc_b64 ?mc x) = Some x" and mc: "pa_crypto a = ?mc"
    using w(1,2) by (simp_all add: same_world_def crypto_ok_def)
  have json: "cd_of_json (pa_codec b) (cd_to_json (pa_codec a) m) = Some m" for m
    using w(1) unfolding same_world_def codec_ok_def by metis
  have p: "pi_mlkem (mi_public (pa_identity b)) = mc_b64 ?mc ek" and dk: "mi_mlkem_dk (pa_identity b) = dk"
    by (simp_all add: i build_identity_def unsigned_identity_def Let_def)
  obtain ct ss where ct: "mc_encap ?mc ek rnd = Some (ct, ss)" "mc_decap ?mc dk ct = Some ss"
    using w(2) ek unfolding crypto_ok_def by blast
  then have "length (cd_to_json (pa_codec a) (PqExchange (mc_b64 ?mc ct))) \<le> 65519"
    using w(4) mc unfolding fits_def by metis
  from secure_sent [OF d w(4) this] show ?thesis
    using ct by (auto simp: send_ciphertext_def recv_ciphertext_def mlkem_encapsulate_def
        mlkem_decapsulate_def p dk mc unb64 json)
qed

text \<open>The handshake of two honest parties completes; both hold the same key and the other's
  identity, and the connections made from the result are in step in both directions.\<close>

lemma handshake_completes:
  assumes w: "same_world a b" and c: "crypto_ok (pa_crypto a)"
    and own: "own_identity (pa_crypto a) (pa_identity a)" "own_identity (pa_crypto b) (pa_identity b)"
    and f: "fits a" "fits b"
  shows "\<exists>x y. run_handshake a b rnd_a rnd_b = Inr (x, y) \<and> hr_key x = hr_key y \<and>
    hr_peer x = mi_public (pa_identity b) \<and> hr_peer y = mi_public (pa_identity a) \<and>
    duplex (pa_session a) (pa_session b) (hr_counters x) (hr_counters y)"
proof -
  have w': "same_world b a" using w unfolding same_world_def by metis
  have c': "crypto_ok (pa_crypto b)" and mc: "pa_crypto b = pa_crypto a" and hash: "pa_hash b = pa_hash a"
    using w c by (simp_all add: same_world_def)
  have "duplex (pa_session a) (pa_session b) (new_connection 0 0) (new_connection 0 0)"
    using w by (simp add: duplex_def noise_in_step_def new_connection_def same_world_def)
  then obtain ca f1 cb where 1: "send_identity a (new_connection 0 0) = Inr (ca, f1)"
    "recv_identity b (new_connection 0 0) f1 = Inr (cb, mi_public (pa_identity a), [])"
    and d1: "duplex (pa_session a) (pa_session b) ca cb"
    using exchanged_identity [OF w c own(1) f(1)] by blast
  obtain cb2 f2 ca2 where 2: "send_identity b cb = Inr (cb2, f2)"
    "recv_identity a ca f2 = Inr (ca2, mi_public (pa_identity b), [])"
    and d2: "duplex (pa_session b) (pa_session a) cb2 ca2"
    using exchanged_identity [OF w' c' own(2) f(2) duplex_sym [OF d1]] by blast
  obtain ca3 ss1 f3 cb3 where 3: "send_ciphertext a (mi_public (pa_identity b)) rnd_a ca2 = Inr (ca3, ss1, f3)"
    "recv_ciphertext b cb2 f3 = Inr (cb3, ss1, [])" and d3: "duplex (pa_session a) (pa_session b) ca3 cb3"
    using exchanged_ciphertext [OF w c' own(2) f(1) duplex_sym [OF d2]] by blast
  obtain cb4 ss2 f4 ca4 where 4: "send_ciphertext b (mi_public (pa_identity a)) rnd_b cb3 = Inr (cb4, ss2, f4)"
    "recv_ciphertext a ca3 f4 = Inr (ca4, ss2, [])" and d4: "duplex (pa_session b) (pa_session a) cb4 ca4"
    using exchanged_ciphertext [OF w' c own(1) f(2) duplex_sym [OF d3]] by blast
  show ?thesis
    using 1 2 3 4 duplex_sym [OF d4]
    by (simp add: run_handshake_def initiator_start_def responder_start_def initiator_exchange_def
        responder_finish_def initiator_finish_def mc hash)
qed

text \<open>The keys go into the sessions of the two connections, which can then exchange messages.\<close>

definition keyed :: "party \<Rightarrow> hs_result \<Rightarrow> session" where
  "keyed p r = (pa_session p)\<lparr>se_pq_key := hr_key r\<rparr>"

lemma handshake_in_step:
  assumes "same_world a b" and "duplex (pa_session a) (pa_session b) (hr_counters x) (hr_counters y)"
    and "hr_key x = hr_key y"
  shows "in_step (pa_codec a) (keyed a x) (keyed b y) (hr_counters x) (hr_counters y) \<and>
    in_step (pa_codec b) (keyed b y) (keyed a x) (hr_counters y) (hr_counters x)"
  using assms by (auto simp: in_step_def keyed_def duplex_def noise_in_step_def noise_link_def same_world_def)

end
