(* ===== verification/MeshRooms.thy ===== *)
theory MeshRooms
  imports Decimal
begin

text \<open>
  \<open>crates/osmoda-mesh/src/room_store.rs\<close>: the SQLite tables of rooms, members and messages. \<open>fk\<close>
  says whether the library enforces foreign keys; \<open>H\<close> is SHA-256 in hex; times are RFC 3339
  strings compared by bytes, as SQLite compares them. Rows with equal times are listed in the
  order of insertion (the reverse of it where the query sorts downwards), as the index scan does.
  The second half is the contract of a store that is filled by gossip.
\<close>

section \<open>Tables\<close>

record stored_room =
  sr_id :: string
  sr_name :: string
  sr_created_by :: string
  sr_created_at :: timestamp

record room_member =
  rm_room :: string
  rm_peer :: string
  rm_joined_at :: timestamp

record stored_message =
  sm_id :: nat
  sm_room :: string
  sm_sender :: string
  sm_content :: string
  sm_timestamp :: timestamp
  sm_hash :: string

record room_store =
  st_rooms :: "stored_room list"
  st_members :: "room_member list"
  st_messages :: "stored_message list"
  st_last_id :: nat

datatype store_error = Constraint | ForeignKey

definition new_store :: room_store where
  "new_store = \<lparr>st_rooms = [], st_members = [], st_messages = [], st_last_id = 0\<rparr>"

definition room_exists :: "room_store \<Rightarrow> string \<Rightarrow> bool" where
  "room_exists s room = (0 < length (filter (\<lambda>r. sr_id r = room) (st_rooms s)))"

definition is_member :: "room_store \<Rightarrow> string \<Rightarrow> string \<Rightarrow> bool" where
  "is_member s room peer = (\<exists>m \<in> set (st_members s). rm_room m = room \<and> rm_peer m = peer)"

definition create_room ::
  "bool \<Rightarrow> timestamp \<Rightarrow> room_store \<Rightarrow> string \<Rightarrow> string \<Rightarrow> string \<Rightarrow> room_store \<times> (store_error + stored_room)" where
  "create_room fk now s i name created_by =
     (if room_exists s i then (s, Inl Constraint)
      else let room = \<lparr>sr_id = i, sr_name = name, sr_created_by = created_by, sr_created_at = now\<rparr>;
               s1 = s\<lparr>st_rooms := st_rooms s @ [room]\<rparr>
           in if is_member s1 i created_by then (s1, Inl Constraint)
              else (s1\<lparr>st_members := st_members s1 @
                      [\<lparr>rm_room = i, rm_peer = created_by, rm_joined_at = now\<rparr>]\<rparr>, Inr room))"

definition join_room :: "bool \<Rightarrow> timestamp \<Rightarrow> room_store \<Rightarrow> string \<Rightarrow> string \<Rightarrow> room_store \<times> (store_error + unit)" where
  "join_room fk now s room peer =
     (if is_member s room peer then (s, Inr ())
      else if fk \<and> \<not> room_exists s room then (s, Inl ForeignKey)
      else (s\<lparr>st_members := st_members s @ [\<lparr>rm_room = room, rm_peer = peer, rm_joined_at = now\<rparr>]\<rparr>, Inr ()))"

definition leave_room :: "room_store \<Rightarrow> string \<Rightarrow> string \<Rightarrow> room_store" where
  "leave_room s room peer =
     s\<lparr>st_members := filter (\<lambda>m. \<not> (rm_room m = room \<and> rm_peer m = peer)) (st_members s)\<rparr>"

definition message_hash :: "(string \<Rightarrow> string) \<Rightarrow> string \<Rightarrow> string \<Rightarrow> timestamp \<Rightarrow> string" where
  "message_hash H sender content ts = H (sender @ ''|'' @ content @ ''|'' @ ts)"

text \<open>\<open>INSERT OR IGNORE\<close>: a message whose hash is there is skipped before the foreign key is looked
  at; the result says whether a row was added.\<close>

definition store_message ::
  "(string \<Rightarrow> string) \<Rightarrow> bool \<Rightarrow> room_store \<Rightarrow> string \<Rightarrow> string \<Rightarrow> string \<Rightarrow> timestamp
    \<Rightarrow> room_store \<times> (store_error + bool)" where
  "store_message H fk s room sender content ts =
     (let h = message_hash H sender content ts
      in if h \<in> sm_hash ` set (st_messages s) then (s, Inr False)
         else if fk \<and> \<not> room_exists s room then (s, Inl ForeignKey)
         else (s\<lparr>st_messages := st_messages s @
                   [\<lparr>sm_id = st_last_id s + 1, sm_room = room, sm_sender = sender, sm_content = content,
                     sm_timestamp = ts, sm_hash = h\<rparr>],
                 st_last_id := st_last_id s + 1\<rparr>, Inr True))"

definition get_history :: "room_store \<Rightarrow> string \<Rightarrow> timestamp option \<Rightarrow> nat \<Rightarrow> stored_message list" where
  "get_history s room since limit =
     (case since of
        Some ts \<Rightarrow> take limit (sort_key sm_timestamp
                     (filter (\<lambda>m. sm_room m = room \<and> ts < sm_timestamp m) (st_messages s)))
      | None \<Rightarrow> take limit (rev (sort_key sm_timestamp (filter (\<lambda>m. sm_room m = room) (st_messages s)))))"

definition list_rooms :: "room_store \<Rightarrow> stored_room list" where
  "list_rooms s = rev (sort_key sr_created_at (rev (st_rooms s)))"

definition get_members :: "room_store \<Rightarrow> string \<Rightarrow> room_member list" where
  "get_members s room = sort_key rm_joined_at (filter (\<lambda>m. rm_room m = room) (st_members s))"

definition latest_timestamp :: "room_store \<Rightarrow> string \<Rightarrow> timestamp option" where
  "latest_timestamp s room =
     (let ts = List.map sm_timestamp (filter (\<lambda>m. sm_room m = room) (st_messages s))
      in if ts = [] then None else Some (foldl max (hd ts) (tl ts)))"

section \<open>Well-formed stores\<close>

definition store_ok :: "(string \<Rightarrow> string) \<Rightarrow> room_store \<Rightarrow> bool" where
  "store_ok H s = (distinct (List.map sm_hash (st_messages s)) \<and>
     List.map sm_id (st_messages s) = [1..<Suc (st_last_id s)] \<and>
     list_all (\<lambda>m. sm_hash m = message_hash H (sm_sender m) (sm_content m) (sm_timestamp m)) (st_messages s) \<and>
     distinct (List.map (\<lambda>m. (rm_room m, rm_peer m)) (st_members s)))"

lemma new_store_ok: "store_ok H new_store"
  by (simp add: store_ok_def new_store_def)

lemma store_message_cases:
  obtains (known) "message_hash H u c t \<in> sm_hash ` set (st_messages s)" "store_message H fk s r u c t = (s, Inr False)"
    | (refused) "message_hash H u c t \<notin> sm_hash ` set (st_messages s)" "fk" "\<not> room_exists s r"
        "store_message H fk s r u c t = (s, Inl ForeignKey)"
    | (stored) "message_hash H u c t \<notin> sm_hash ` set (st_messages s)" "\<not> fk \<or> room_exists s r"
        "store_message H fk s r u c t = (s\<lparr>st_messages := st_messages s @ [\<lparr>sm_id = st_last_id s + 1,
           sm_room = r, sm_sender = u, sm_content = c, sm_timestamp = t, sm_hash = message_hash H u c t\<rparr>],
           st_last_id := st_last_id s + 1\<rparr>, Inr True)"
  by (cases "message_hash H u c t \<in> sm_hash ` set (st_messages s)"; cases "fk \<and> \<not> room_exists s r")
    (auto simp: store_message_def Let_def)

lemma store_message_ok: "store_ok H s \<Longrightarrow> store_ok H (fst (store_message H fk s r u c t))"
  by (cases rule: store_message_cases [of H u c t s fk r]) (auto simp: store_ok_def)

lemma join_room_ok: "store_ok H s \<Longrightarrow> store_ok H (fst (join_room fk now s r p))"
  by (auto simp: join_room_def store_ok_def is_member_def)

lemma leave_room_ok: "store_ok H s \<Longrightarrow> store_ok H (leave_room s r p)"
  by (auto simp: leave_room_def store_ok_def distinct_map_filter)

lemma create_room_ok: "store_ok H s \<Longrightarrow> store_ok H (fst (create_room fk now s i n p))"
  by (auto simp: create_room_def store_ok_def is_member_def Let_def)

lemma store_message_members [simp]:
  "st_members (fst (store_message H fk s r u c t)) = st_members s"
  "st_rooms (fst (store_message H fk s r u c t)) = st_rooms s"
  by (cases rule: store_message_cases [of H u c t s fk r]; simp)+

section \<open>Filling a store by gossip\<close>

text \<open>
  What makes gossip converge: putting a message that is there, or that is not accepted, changes
  nothing, and putting another one adds its key. Then the order and the number of times messages
  arrive do not matter.
\<close>

locale merge_store =
  fixes put :: "'s \<Rightarrow> 'm \<Rightarrow> 's"
    and keys :: "'s \<Rightarrow> 'k set"
    and key :: "'m \<Rightarrow> 'k"
    and accepts :: "'s \<Rightarrow> 'm \<Rightarrow> bool"
  assumes put_keys: "keys (put s m) = (if accepts s m then insert (key m) (keys s) else keys s)"
    and put_accepts: "accepts (put s m) m' = accepts s m'"
    and put_known: "key m \<in> keys s \<or> \<not> accepts s m \<Longrightarrow> put s m = s"
begin

lemma puts_accepts: "accepts (foldl put s ms) m = accepts s m"
  by (induction ms arbitrary: s) (simp_all add: put_accepts)

lemma puts_keys: "keys (foldl put s ms) = keys s \<union> key ` {m \<in> set ms. accepts s m}"
  by (induction ms arbitrary: s) (auto simp: put_keys put_accepts)

lemma puts_known: "key ` {m \<in> set ms. accepts s m} \<subseteq> keys s \<Longrightarrow> foldl put s ms = s"
proof (induction ms)
  case Nil
  then show ?case by simp
next
  case (Cons m ms)
  then have "put s m = s" by (intro put_known) auto
  with Cons show ?case by auto
qed

lemma puts_again: "foldl put (foldl put s ms) ms = foldl put s ms"
  by (rule puts_known) (auto simp: puts_keys puts_accepts)

lemma puts_commute: "keys (foldl put (foldl put s ms) ns) = keys (foldl put (foldl put s ns) ms)"
  by (auto simp: puts_keys puts_accepts)

lemma puts_reorder: "set ms = set ns \<Longrightarrow> keys (foldl put s ms) = keys (foldl put s ns)"
  by (simp add: puts_keys)

end

text \<open>A message as it comes in a sync reply: it is stored when its hash matches its content.\<close>

record sync_message =
  sy_sender :: string
  sy_content :: string
  sy_timestamp :: timestamp
  sy_hash :: string

definition sync_one :: "(string \<Rightarrow> string) \<Rightarrow> bool \<Rightarrow> string \<Rightarrow> room_store \<Rightarrow> sync_message \<Rightarrow> room_store" where
  "sync_one H fk room s m =
     (if sy_hash m \<noteq> message_hash H (sy_sender m) (sy_content m) (sy_timestamp m) then s
      else fst (store_message H fk s room (sy_sender m) (sy_content m) (sy_timestamp m)))"

definition message_keys :: "room_store \<Rightarrow> string set" where
  "message_keys s = sm_hash ` set (st_messages s)"

definition sync_accepts :: "(string \<Rightarrow> string) \<Rightarrow> bool \<Rightarrow> string \<Rightarrow> room_store \<Rightarrow> sync_message \<Rightarrow> bool" where
  "sync_accepts H fk room s m =
     (sy_hash m = message_hash H (sy_sender m) (sy_content m) (sy_timestamp m) \<and> (\<not> fk \<or> room_exists s room))"

lemma sync_one_rooms: "st_rooms (sync_one H fk room s m) = st_rooms s"
  by (simp add: sync_one_def)

lemma sync_one_keys:
  "message_keys (sync_one H fk room s m) =
     (if sync_accepts H fk room s m then insert (sy_hash m) (message_keys s) else message_keys s)"
  by (cases rule: store_message_cases [of H "sy_sender m" "sy_content m" "sy_timestamp m" s fk room])
    (auto simp: sync_one_def sync_accepts_def message_keys_def)

lemma sync_one_known:
  "sy_hash m \<in> message_keys s \<or> \<not> sync_accepts H fk room s m \<Longrightarrow> sync_one H fk room s m = s"
  by (cases rule: store_message_cases [of H "sy_sender m" "sy_content m" "sy_timestamp m" s fk room])
    (auto simp: sync_one_def sync_accepts_def message_keys_def)

interpretation sync_store: merge_store "sync_one H fk room" message_keys sy_hash "sync_accepts H fk room"
  for H fk room
  by unfold_locales
    (simp_all add: sync_one_keys sync_one_known sync_accepts_def sync_one_rooms room_exists_def)

text \<open>The table row of a synced message, and what a peer serves of its history.\<close>

definition to_sync :: "stored_message \<Rightarrow> sync_message" where
  "to_sync m = \<lparr>sy_sender = sm_sender m, sy_content = sm_content m, sy_timestamp = sm_timestamp m, sy_hash = sm_hash m\<rparr>"

definition max_sync_messages :: nat where
  "max_sync_messages = 500"

definition apply_sync ::
  "(string \<Rightarrow> string) \<Rightarrow> bool \<Rightarrow> room_store \<Rightarrow> string \<Rightarrow> sync_message list \<Rightarrow> room_store" where
  "apply_sync H fk s room ms = foldl (sync_one H fk room) s (take max_sync_messages ms)"

lemma history_set: "m \<in> set (get_history s room since n) \<Longrightarrow> m \<in> set (st_messages s) \<and> sm_room m = room"
  by (auto simp: get_history_def split: option.splits dest!: in_set_takeD)

lemma history_length: "length (get_history s room since n) \<le> n"
  by (simp add: get_history_def split: option.split)

text \<open>Where the whole history fits into one reply, the receiver knows every message of it.\<close>

lemma history_complete:
  assumes "length (filter (\<lambda>m. sm_room m = room) (st_messages s)) \<le> n"
  shows "set (get_history s room None n) = {m \<in> set (st_messages s). sm_room m = room}"
proof -
  have "take n (rev (sort_key sm_timestamp (filter (\<lambda>m. sm_room m = room) (st_messages s)))) =
      rev (sort_key sm_timestamp (filter (\<lambda>m. sm_room m = room) (st_messages s)))"
    using assms by simp
  then show ?thesis by (simp add: get_history_def)
qed

lemma synced_keys:
  assumes "store_ok H s" and "length (filter (\<lambda>m. sm_room m = room) (st_messages s)) \<le> n" and "n \<le> max_sync_messages"
    and "\<not> fk \<or> room_exists d room"
  shows "message_keys (apply_sync H fk d room (List.map to_sync (get_history s room None n))) =
     message_keys d \<union> sm_hash ` {m \<in> set (st_messages s). sm_room m = room}"
proof -
  let ?ms = "List.map to_sync (get_history s room None n)"
  have all: "take max_sync_messages ?ms = ?ms"
    using history_length [of s room None n] assms(3) by simp
  have "sync_accepts H fk room d (to_sync m)" if "m \<in> set (st_messages s)" for m
    using that assms(1,4) by (auto simp: sync_accepts_def to_sync_def store_ok_def list_all_iff)
  then have accepted: "{m \<in> set ?ms. sync_accepts H fk room d m} = to_sync ` {m \<in> set (st_messages s). sm_room m = room}"
    using history_complete [OF assms(2)] by auto
  have "message_keys (apply_sync H fk d room ?ms) =
      message_keys d \<union> sy_hash ` {m \<in> set ?ms. sync_accepts H fk room d m}"
    unfolding apply_sync_def all by (rule sync_store.puts_keys)
  also have "sy_hash ` to_sync ` M = sm_hash ` M" for M
    by (simp add: image_image to_sync_def)
  then have "sy_hash ` {m \<in> set ?ms. sync_accepts H fk room d m} = sm_hash ` {m \<in> set (st_messages s). sm_room m = room}"
    by (simp only: accepted)
  finally show ?thesis .
qed

end
