(* ===== verification/MeshNode.thy ===== *)
theory MeshNode
  imports MeshHandshake MeshRooms
begin

text \<open>
  The mesh daemon: \<open>crates/osmoda-mesh/src/main.rs\<close> (accept loop, outbound connections, receive
  and health loops, dispatch), \<open>api.rs\<close>, \<open>invite.rs\<close>, \<open>peers.rs\<close>, \<open>receipt.rs\<close> and \<open>gossip.rs\<close>.
  A connection is a handle (a number); what is handed to it is recorded in \<open>ms_sent\<close>, what is
  posted to agentd in \<open>ms_posts\<close>. Every critical section under the state's mutex is one step, so
  the background tasks interleave as steps. Clock, UUIDs, the reachability of connections and the
  disk are in \<open>mesh_env\<close>; codecs and SHA-256 are in \<open>mesh_world\<close>.
\<close>

section \<open>State\<close>

datatype connection_state = Disconnected | Connecting | Connected timestamp | ConnFailed string timestamp

record peer_info =
  pe_id :: string
  pe_label :: string
  pe_noise :: string
  pe_mlkem :: string
  pe_endpoint :: string
  pe_added_at :: timestamp
  pe_last_seen :: "timestamp option"
  pe_state :: connection_state

record room_message =
  ro_from :: string
  ro_text :: string
  ro_ts :: timestamp
  ro_seq :: nat

record room =
  rr_id :: string
  rr_name :: string
  rr_members :: "string list"
  rr_messages :: "room_message list"
  rr_created_at :: timestamp

record mesh_post =
  po_category :: string
  po_tags :: "string list"
  po_content :: json

record mesh =
  ms_identity :: mesh_identity
  ms_files :: key_files
  ms_peers :: "peer_info list"
  ms_connections :: "string \<Rightarrow> nat option"
  ms_saved :: "peer_info list option"
  ms_public_endpoint :: string
  ms_rooms :: "room list"
  ms_used_invites :: "string set"
  ms_store :: "room_store option"
  ms_dialing :: "(string \<times> string) list"
  ms_sent :: "(nat \<times> mesh_message) list"
  ms_posts :: "mesh_post list"

record mesh_env =
  me_now :: timestamp
  me_clock :: int
  me_uuid :: string
  me_after :: "nat \<Rightarrow> timestamp"
  me_reaches :: "nat \<Rightarrow> bool"
  me_io_ok :: bool

record invite =
  iv_endpoint :: string
  iv_noise :: string
  iv_mlkem :: string
  iv_instance :: string
  iv_expires_at :: timestamp

datatype gossip_message =
    RoomSync string "timestamp option"
  | RoomSyncReply string "sync_message list"
  | RoomJoinNotify string string
  | RoomLeaveNotify string string

record mesh_world =
  mw_crypto :: mesh_crypto
  mw_sha :: "string \<Rightarrow> string"
  mw_fk :: bool
  mw_parse_time :: "timestamp \<Rightarrow> int option"
  mw_invite_text :: "invite \<Rightarrow> string"
  mw_invite_of :: "string \<Rightarrow> invite option"
  mw_gossip_text :: "gossip_message \<Rightarrow> string"
  mw_gossip_of :: "string \<Rightarrow> gossip_message option"
  mw_double :: "64 word \<Rightarrow> json"

section \<open>Peers file and receipts\<close>

definition save_peers :: "bool \<Rightarrow> mesh \<Rightarrow> mesh" where
  "save_peers io_ok st = (if io_ok then st\<lparr>ms_saved := Some (ms_peers st)\<rparr> else st)"

definition load_peers :: "peer_info list option \<Rightarrow> peer_info list" where
  "load_peers file =
     (case file of None \<Rightarrow> [] | Some ps \<Rightarrow> List.map (\<lambda>p. p\<lparr>pe_state := Disconnected\<rparr>) ps)"

definition post :: "mesh_post \<Rightarrow> mesh \<Rightarrow> mesh" where
  "post p st = st\<lparr>ms_posts := ms_posts st @ [p]\<rparr>"

definition log_receipt :: "mesh_env \<Rightarrow> string \<Rightarrow> string \<Rightarrow> string \<Rightarrow> mesh \<Rightarrow> mesh" where
  "log_receipt env event_type peer_id detail = post
     \<lparr>po_category = ''mesh.'' @ event_type, po_tags = [''mesh'', event_type, peer_id],
      po_content = JObj [(''event_type'', JStr event_type), (''peer_id'', JStr peer_id),
        (''detail'', JStr detail), (''timestamp'', JStr (me_now env))]\<rparr>"

definition log_connect :: "mesh_env \<Rightarrow> string \<Rightarrow> mesh \<Rightarrow> mesh" where
  "log_connect env peer = log_receipt env ''peer.connect'' peer ''peer connected''"

definition log_disconnect :: "mesh_env \<Rightarrow> string \<Rightarrow> mesh \<Rightarrow> mesh" where
  "log_disconnect env peer = log_receipt env ''peer.disconnect'' peer ''peer disconnected''"

definition log_message_sent :: "mesh_env \<Rightarrow> string \<Rightarrow> string \<Rightarrow> mesh \<Rightarrow> mesh" where
  "log_message_sent env peer msg_type =
     log_receipt env ''message.sent'' peer (''sent '' @ msg_type @ '' message'')"

definition hand_over :: "nat \<Rightarrow> mesh_message \<Rightarrow> mesh \<Rightarrow> mesh" where
  "hand_over h m st = st\<lparr>ms_sent := ms_sent st @ [(h, m)]\<rparr>"

definition set_peer :: "string \<Rightarrow> (peer_info \<Rightarrow> peer_info) \<Rightarrow> mesh \<Rightarrow> mesh" where
  "set_peer i f st = st\<lparr>ms_peers := update_first pe_id i f (ms_peers st)\<rparr>"

section \<open>Invites\<close>

definition new_invite :: "mesh_env \<Rightarrow> string \<Rightarrow> public_identity \<Rightarrow> nat option \<Rightarrow> invite" where
  "new_invite env endpoint p ttl_secs =
     (let ttl = min (case ttl_secs of None \<Rightarrow> 3600 | Some t \<Rightarrow> t) 3600
      in \<lparr>iv_endpoint = endpoint, iv_noise = pi_noise p, iv_mlkem = pi_mlkem p,
          iv_instance = pi_instance_id p, iv_expires_at = me_after env ttl\<rparr>)"

definition decode_invite :: "mesh_world \<Rightarrow> mesh_env \<Rightarrow> string \<Rightarrow> invite option" where
  "decode_invite w env code =
     (case mw_invite_of w code of
        None \<Rightarrow> None
      | Some iv \<Rightarrow>
          (case mw_parse_time w (iv_expires_at iv) of
             None \<Rightarrow> None
           | Some expires \<Rightarrow> if expires < me_clock env then None else Some iv))"

definition invite_create_handler ::
  "mesh_world \<Rightarrow> mesh_env \<Rightarrow> mesh \<Rightarrow> nat option \<Rightarrow> string option \<Rightarrow> (string \<times> timestamp) reply" where
  "invite_create_handler w env st ttl_secs endpoint =
     (let iv = new_invite env (case endpoint of None \<Rightarrow> ms_public_endpoint st | Some e \<Rightarrow> e)
                 (mi_public (ms_identity st)) ttl_secs
      in Reply 200 (mw_invite_text w iv, iv_expires_at iv))"

text \<open>\<open>&s[..n]\<close> panics past the end and inside a UTF-8 sequence.\<close>

definition slice_panics :: "string \<Rightarrow> nat \<Rightarrow> bool" where
  "slice_panics s n = (length s < n \<or> n < length s \<and> utf8_continuation (s ! n))"

definition invite_accept_handler ::
  "mesh_world \<Rightarrow> mesh_env \<Rightarrow> mesh \<Rightarrow> string \<Rightarrow> mesh \<times> (string \<times> string) reply" where
  "invite_accept_handler w env st code =
     (case decode_invite w env code of
        None \<Rightarrow> (st, Fail 400)
      | Some iv \<Rightarrow>
          (let h = mw_sha w code
           in if h \<in> ms_used_invites st then (st, Fail 409)
              else let st1 = st\<lparr>ms_used_invites := insert h (ms_used_invites st)\<rparr>
                   in if iv_instance iv \<in> pe_id ` set (ms_peers st) then (st1, Fail 409)
                      else if slice_panics (iv_instance iv) 8 then (st1, Panic)
                      else let p = \<lparr>pe_id = iv_instance iv, pe_label = ''peer-'' @ take 8 (iv_instance iv),
                                   pe_noise = iv_noise iv, pe_mlkem = iv_mlkem iv,
                                   pe_endpoint = iv_endpoint iv, pe_added_at = me_now env,
                                   pe_last_seen = None, pe_state = Connecting\<rparr>;
                               st2 = save_peers (me_io_ok env) (st1\<lparr>ms_peers := ms_peers st1 @ [p]\<rparr>)
                           in (st2\<lparr>ms_dialing := ms_dialing st2 @ [(iv_instance iv, iv_endpoint iv)]\<rparr>,
                               Reply 200 (iv_instance iv, ''connecting''))))"

section \<open>Peer and identity endpoints\<close>

definition peers_list_handler :: "mesh \<Rightarrow> peer_info list" where
  "peers_list_handler st = ms_peers st"

definition peer_get_handler :: "mesh \<Rightarrow> string \<Rightarrow> peer_info reply" where
  "peer_get_handler st i = (case find_by pe_id i (ms_peers st) of None \<Rightarrow> Fail 404 | Some p \<Rightarrow> Reply 200 p)"

fun msg_type :: "mesh_message \<Rightarrow> string" where
  "msg_type (Heartbeat t) = ''heartbeat''"
| "msg_type (HealthReport hn cpu mem up) = ''health_report''"
| "msg_type (Alert sev title detail) = ''alert''"
| "msg_type (Chat from txt rid) = ''chat''"
| "msg_type (PqExchange ct) = ''pq_exchange''"

definition peer_send_handler :: "mesh_env \<Rightarrow> mesh \<Rightarrow> string \<Rightarrow> mesh_message \<Rightarrow> mesh \<times> bool reply" where
  "peer_send_handler env st i m =
     (case ms_connections st i of
        None \<Rightarrow> (st, Fail 404)
      | Some h \<Rightarrow>
          (if me_reaches env h then (log_message_sent env i (msg_type m) (hand_over h m st), Reply 200 True)
           else (st, Fail 500)))"

definition peer_disconnect_handler :: "mesh_env \<Rightarrow> mesh \<Rightarrow> string \<Rightarrow> mesh \<times> string reply" where
  "peer_disconnect_handler env st i =
     (let before = length (ms_peers st);
          st1 = st\<lparr>ms_connections := (ms_connections st)(i := None),
                   ms_peers := filter (\<lambda>p. pe_id p \<noteq> i) (ms_peers st)\<rparr>
      in if length (ms_peers st1) < before
         then (log_disconnect env i (save_peers (me_io_ok env) st1), Reply 200 i)
         else (st1, Fail 404))"

definition identity_rotate_handler ::
  "mesh_world \<Rightarrow> fresh_keys \<Rightarrow> (bool \<times> bool \<times> bool \<times> bool) \<Rightarrow> mesh \<Rightarrow> mesh \<times> public_identity reply" where
  "identity_rotate_handler w k deleted st =
     (case rotate_identity (mw_crypto w) k deleted (ms_files st) of
        (f, Inl e) \<Rightarrow> (st\<lparr>ms_files := f\<rparr>, Fail 500)
      | (f, Inr i) \<Rightarrow> (st\<lparr>ms_files := f, ms_identity := i\<rparr>, Reply 200 (mi_public i)))"

definition identity_get_handler :: "mesh \<Rightarrow> public_identity" where
  "identity_get_handler st = mi_public (ms_identity st)"

definition mesh_health_handler :: "string list \<Rightarrow> mesh \<Rightarrow> nat \<times> nat" where
  "mesh_health_handler ids st =
     (length (ms_peers st), length (filter (\<lambda>i. ms_connections st i \<noteq> None) ids))"

section \<open>Incoming connections\<close>

text \<open>Per-address rate limit of the accept loop: window start and number of attempts.\<close>

type_synonym limiter = "string \<Rightarrow> (int \<times> nat) option"

definition attempt_window :: int where
  "attempt_window = 60 * 1000000000"

definition max_attempts_per_ip :: nat where
  "max_attempts_per_ip = 5"

definition admit :: "int \<Rightarrow> string \<Rightarrow> limiter \<Rightarrow> limiter \<times> bool" where
  "admit now ip lim =
     (let e0 = (case lim ip of None \<Rightarrow> (now, 0) | Some e \<Rightarrow> e);
          e1 = (if attempt_window < now - fst e0 then (now, 0) else e0);
          n = wrapping_add_w 32 (snd e1) 1
      in (lim(ip \<mapsto> (fst e1, n)), n \<le> max_attempts_per_ip))"

definition max_unknown_inbound_peers :: nat where
  "max_unknown_inbound_peers = 8"

definition unknown_count :: "mesh \<Rightarrow> nat" where
  "unknown_count st = length (filter (\<lambda>p. pe_endpoint p = []) (ms_peers st))"

text \<open>The critical section after a handshake as responder; \<open>h\<close> is the new connection. The flag says
  whether the receive loop is started.\<close>

definition inbound_connected :: "mesh_env \<Rightarrow> mesh \<Rightarrow> public_identity \<Rightarrow> nat \<Rightarrow> mesh \<times> bool" where
  "inbound_connected env st peer h =
     (let i = pi_instance_id peer; known = i \<in> pe_id ` set (ms_peers st)
      in if \<not> known \<and> max_unknown_inbound_peers \<le> unknown_count st then (st, False)
         else let st1 = st\<lparr>ms_connections := (ms_connections st)(i \<mapsto> h)\<rparr>
              in if known
                 then (log_connect env i (set_peer i (\<lambda>p. p\<lparr>pe_state := Connected (me_now env),
                         pe_last_seen := Some (me_now env)\<rparr>) st1), True)
                 else if slice_panics i (min 8 (length i)) then (st1, False)
                 else let p = \<lparr>pe_id = i, pe_label = ''inbound-'' @ take 8 i, pe_noise = pi_noise peer,
                              pe_mlkem = pi_mlkem peer, pe_endpoint = [], pe_added_at = me_now env,
                              pe_last_seen = Some (me_now env), pe_state = Connected (me_now env)\<rparr>
                      in (log_connect env i (save_peers (me_io_ok env) (st1\<lparr>ms_peers := ms_peers st1 @ [p]\<rparr>)), True))"

section \<open>Outgoing connections\<close>

datatype attempt = NoConnection | HandshakeFailed string | HandshakeDone public_identity nat

definition mitm_reason :: string where
  "mitm_reason = ''static key mismatch '' @ [CHR 0xE2, CHR 0x80, CHR 0x94] @ '' possible MITM''"

text \<open>One attempt of \<open>initiate_outbound_connection\<close> to the peer \<open>i\<close>; the flag says it succeeded.\<close>

fun outbound_attempt :: "mesh_env \<Rightarrow> string \<Rightarrow> mesh \<Rightarrow> attempt \<Rightarrow> mesh \<times> bool" where
  "outbound_attempt env i st NoConnection = (st, False)"
| "outbound_attempt env i st (HandshakeFailed e) =
     (set_peer i (\<lambda>p. p\<lparr>pe_state := ConnFailed (''handshake failed: '' @ e) (me_now env)\<rparr>) st, False)"
| "outbound_attempt env i st (HandshakeDone peer h) =
     (let expected = map_option pe_noise (find_by pe_id i (ms_peers st))
      in if (case expected of None \<Rightarrow> False | Some k \<Rightarrow> k \<noteq> [] \<and> pi_noise peer \<noteq> k)
         then (set_peer i (\<lambda>p. p\<lparr>pe_state := ConnFailed mitm_reason (me_now env)\<rparr>) st, False)
         else (log_connect env (pi_instance_id peer)
                 (set_peer i (\<lambda>p. p\<lparr>pe_state := Connected (me_now env), pe_last_seen := Some (me_now env)\<rparr>)
                   (st\<lparr>ms_connections := (ms_connections st)(pi_instance_id peer \<mapsto> h)\<rparr>)), True))"

definition outbound_exhausted :: "string \<Rightarrow> mesh \<Rightarrow> mesh" where
  "outbound_exhausted i st = set_peer i (\<lambda>p. p\<lparr>pe_state := Disconnected\<rparr>) st"

text \<open>The whole task, run without interleaving: three attempts at most.\<close>

fun outbound_connection :: "mesh_env \<Rightarrow> string \<Rightarrow> mesh \<Rightarrow> attempt list \<Rightarrow> mesh" where
  "outbound_connection env i st [] = outbound_exhausted i st"
| "outbound_connection env i st (a # as) =
     (case outbound_attempt env i st a of
        (st', True) \<Rightarrow> st'
      | (st', False) \<Rightarrow> outbound_connection env i st' as)"

section \<open>Losing connections\<close>

definition recv_failed :: "mesh_env \<Rightarrow> string \<Rightarrow> mesh \<Rightarrow> mesh" where
  "recv_failed env i st =
     log_disconnect env i (save_peers (me_io_ok env)
       (set_peer i (\<lambda>p. p\<lparr>pe_state := Disconnected\<rparr>)
         (st\<lparr>ms_connections := (ms_connections st)(i := None)\<rparr>)))"

definition is_stale :: "mesh_world \<Rightarrow> mesh_env \<Rightarrow> peer_info \<Rightarrow> bool" where
  "is_stale w env p =
     (case pe_last_seen p of
        None \<Rightarrow> True
      | Some ts \<Rightarrow> (case mw_parse_time w ts of None \<Rightarrow> True | Some t \<Rightarrow> 90 * 1000000000 < me_clock env - t))"

text \<open>\<open>ids\<close> is the order in which the connection table yields its keys.\<close>

definition stale_peers :: "mesh_world \<Rightarrow> mesh_env \<Rightarrow> string list \<Rightarrow> mesh \<Rightarrow> (string \<times> nat) list" where
  "stale_peers w env ids st = List.map_filter
     (\<lambda>i. case (ms_connections st i, find_by pe_id i (ms_peers st)) of
            (Some h, Some p) \<Rightarrow> if is_stale w env p then Some (i, h) else None
          | _ \<Rightarrow> None) ids"

definition probe :: "mesh_env \<Rightarrow> mesh \<Rightarrow> string \<times> nat \<Rightarrow> mesh" where
  "probe env st c =
     (case c of (i, h) \<Rightarrow>
        if me_reaches env h then hand_over h (Heartbeat (me_now env)) st else recv_failed env i st)"

definition reconnect_targets :: "mesh \<Rightarrow> (string \<times> string) list" where
  "reconnect_targets st = List.map (\<lambda>p. (pe_id p, pe_endpoint p))
     (filter (\<lambda>p. pe_state p = Disconnected \<and> ms_connections st (pe_id p) = None \<and> pe_endpoint p \<noteq> []) (ms_peers st))"

definition health_tick :: "mesh_world \<Rightarrow> mesh_env \<Rightarrow> string list \<Rightarrow> mesh \<Rightarrow> mesh" where
  "health_tick w env ids st =
     (let st1 = foldl (probe env) st (stale_peers w env ids st)
      in st1\<lparr>ms_dialing := ms_dialing st1 @ reconnect_targets st1\<rparr>)"

section \<open>Gossip\<close>

definition gossip_channel :: string where
  "gossip_channel = ''__gossip_channel__''"

definition gossip_from :: string where
  "gossip_from = ''__gossip__''"

definition gossip_chat :: "mesh_world \<Rightarrow> gossip_message \<Rightarrow> mesh_message" where
  "gossip_chat w g = Chat gossip_from (mw_gossip_text w g) (Some gossip_channel)"

text \<open>\<open>forward_room_message\<close>: every connected member except the peer the message came from.\<close>

definition forward_to :: "string \<Rightarrow> mesh_message \<Rightarrow> mesh \<Rightarrow> room_member \<Rightarrow> mesh" where
  "forward_to sender_peer m st member =
     (if rm_peer member = sender_peer then st
      else case ms_connections st (rm_peer member) of
             None \<Rightarrow> st
           | Some h \<Rightarrow> hand_over h m st)"

definition forward_room_message :: "mesh \<Rightarrow> string \<Rightarrow> string \<Rightarrow> string \<Rightarrow> string \<Rightarrow> mesh" where
  "forward_room_message st room_id sender_peer src txt =
     (case ms_store st of
        None \<Rightarrow> st
      | Some store \<Rightarrow>
          foldl (forward_to sender_peer (Chat src txt (Some room_id))) st (get_members store room_id))"

definition request_sync :: "mesh_world \<Rightarrow> mesh \<Rightarrow> string \<Rightarrow> string \<Rightarrow> mesh" where
  "request_sync w st peer room_id =
     (let since = (case ms_store st of None \<Rightarrow> None | Some store \<Rightarrow> latest_timestamp store room_id)
      in case ms_connections st peer of
           None \<Rightarrow> st
         | Some h \<Rightarrow> hand_over h (gossip_chat w (RoomSync room_id since)) st)"

definition sync_rooms_with_peer :: "mesh_world \<Rightarrow> mesh \<Rightarrow> string \<Rightarrow> mesh" where
  "sync_rooms_with_peer w st peer =
     (case ms_store st of
        None \<Rightarrow> st
      | Some store \<Rightarrow> foldl (\<lambda>st r. request_sync w st peer (sr_id r)) st (list_rooms store))"

definition handle_sync_request :: "mesh_world \<Rightarrow> mesh \<Rightarrow> string \<Rightarrow> string \<Rightarrow> timestamp option \<Rightarrow> mesh" where
  "handle_sync_request w st peer room_id since =
     (case ms_store st of
        None \<Rightarrow> st
      | Some store \<Rightarrow>
          (let ms = List.map to_sync (get_history store room_id since 100)
           in if ms = [] then st
              else case ms_connections st peer of
                     None \<Rightarrow> st
                   | Some h \<Rightarrow> hand_over h (gossip_chat w (RoomSyncReply room_id ms)) st))"

definition handle_sync_reply :: "mesh_world \<Rightarrow> mesh \<Rightarrow> string \<Rightarrow> sync_message list \<Rightarrow> mesh" where
  "handle_sync_reply w st room_id ms =
     (case ms_store st of
        None \<Rightarrow> st
      | Some store \<Rightarrow> st\<lparr>ms_store := Some (apply_sync (mw_sha w) (mw_fk w) store room_id ms)\<rparr>)"

definition handle_gossip :: "mesh_world \<Rightarrow> mesh_env \<Rightarrow> mesh \<Rightarrow> string \<Rightarrow> string \<Rightarrow> mesh \<times> bool" where
  "handle_gossip w env st peer txt =
     (case mw_gossip_of w txt of
        None \<Rightarrow> (st, False)
      | Some (RoomSync r since) \<Rightarrow> (handle_sync_request w st peer r since, True)
      | Some (RoomSyncReply r ms) \<Rightarrow> (handle_sync_reply w st r ms, True)
      | Some (RoomJoinNotify r joining) \<Rightarrow>
          (if joining \<noteq> peer then (st, True)
           else case ms_store st of
                  None \<Rightarrow> (st, True)
                | Some store \<Rightarrow>
                    (st\<lparr>ms_store := Some (fst (join_room (mw_fk w) (me_now env) store r joining))\<rparr>, True))
      | Some (RoomLeaveNotify r leaving) \<Rightarrow>
          (if leaving \<noteq> peer then (st, True)
           else case ms_store st of
                  None \<Rightarrow> (st, True)
                | Some store \<Rightarrow> (st\<lparr>ms_store := Some (leave_room store r leaving)\<rparr>, True)))"

section \<open>Rooms\<close>

definition push_message :: "string \<Rightarrow> string \<Rightarrow> timestamp \<Rightarrow> room \<Rightarrow> room" where
  "push_message src txt now r = r\<lparr>rr_messages := rr_messages r @
     [\<lparr>ro_from = src, ro_text = txt, ro_ts = now, ro_seq = length (rr_messages r)\<rparr>]\<rparr>"

text \<open>\<open>handle_room_message\<close>: a duplicate for the store ends it; a message of a room that is not in
  memory is stored but neither shown nor forwarded.\<close>

definition handle_room_message :: "mesh_world \<Rightarrow> mesh_env \<Rightarrow> mesh \<Rightarrow> string \<Rightarrow> string \<Rightarrow> string \<Rightarrow> string \<Rightarrow> mesh" where
  "handle_room_message w env st room_id src txt peer =
     (let (st1, duplicate) = (case ms_store st of
            None \<Rightarrow> (st, False)
          | Some store \<Rightarrow>
              (case store_message (mw_sha w) (mw_fk w) store room_id src txt (me_now env) of
                 (store', r) \<Rightarrow> (st\<lparr>ms_store := Some store'\<rparr>, r = Inr False)))
      in if duplicate then st1
         else if room_id \<notin> rr_id ` set (ms_rooms st1) then st1
         else post \<lparr>po_category = ''mesh.room.message'', po_tags = [''mesh'', ''room'', room_id, src],
                po_content = JObj [(''room_id'', JStr room_id), (''from'', JStr src), (''text'', JStr txt)]\<rparr>
              (forward_room_message
                (st1\<lparr>ms_rooms := update_first rr_id room_id (push_message src txt (me_now env)) (ms_rooms st1)\<rparr>)
                room_id peer src txt))"

fun severity_text :: "alert_severity \<Rightarrow> string" where
  "severity_text Info = ''info''"
| "severity_text Warning = ''warning''"
| "severity_text Critical = ''critical''"

fun dispatch_incoming :: "mesh_world \<Rightarrow> mesh_env \<Rightarrow> string \<Rightarrow> mesh \<Rightarrow> mesh_message \<Rightarrow> mesh" where
  "dispatch_incoming w env peer st (Heartbeat t) =
     set_peer peer (\<lambda>p. p\<lparr>pe_last_seen := Some (me_now env)\<rparr>) st"
| "dispatch_incoming w env peer st (HealthReport hn cpu mem up) =
     post \<lparr>po_category = ''mesh.health_report'', po_tags = [''mesh'', ''health_report'', peer],
       po_content = JObj [(''peer_id'', JStr peer), (''hostname'', JStr hn), (''cpu'', mw_double w cpu),
         (''memory'', mw_double w mem), (''uptime'', JNum (uint up))]\<rparr> st"
| "dispatch_incoming w env peer st (Alert sev title detail) =
     post \<lparr>po_category = ''mesh.alert'', po_tags = [''mesh'', ''alert'', peer],
       po_content = JObj [(''peer_id'', JStr peer), (''severity'', JStr (severity_text sev)),
         (''title'', JStr title), (''detail'', JStr detail)]\<rparr> st"
| "dispatch_incoming w env peer st (Chat src txt None) =
     post \<lparr>po_category = ''mesh.dm'', po_tags = [''mesh'', ''dm'', src],
       po_content = JObj [(''peer_id'', JStr peer), (''from'', JStr src), (''text'', JStr txt)]\<rparr> st"
| "dispatch_incoming w env peer st (Chat src txt (Some rid)) =
     (if rid = gossip_channel \<and> src = gossip_from then fst (handle_gossip w env st peer txt)
      else handle_room_message w env st rid src txt peer)"
| "dispatch_incoming w env peer st (PqExchange ct) = st"

definition room_create_handler :: "mesh_env \<Rightarrow> mesh \<Rightarrow> string \<Rightarrow> mesh \<times> room reply" where
  "room_create_handler env st name =
     (let r = \<lparr>rr_id = me_uuid env, rr_name = name, rr_members = [], rr_messages = [], rr_created_at = me_now env\<rparr>
      in (st\<lparr>ms_rooms := ms_rooms st @ [r]\<rparr>, Reply 200 r))"

definition add_member :: "string \<Rightarrow> room \<Rightarrow> room" where
  "add_member peer r = (if peer \<in> set (rr_members r) then r else r\<lparr>rr_members := rr_members r @ [peer]\<rparr>)"

definition room_join_handler :: "mesh \<Rightarrow> string \<Rightarrow> string \<Rightarrow> mesh \<times> room reply" where
  "room_join_handler st room_id peer =
     (case find_by rr_id room_id (ms_rooms st) of
        None \<Rightarrow> (st, Fail 404)
      | Some r \<Rightarrow> (st\<lparr>ms_rooms := update_first rr_id room_id (add_member peer) (ms_rooms st)\<rparr>,
                   Reply 200 (add_member peer r)))"

definition deliver_to :: "mesh_env \<Rightarrow> mesh_message \<Rightarrow> mesh \<times> nat \<Rightarrow> string \<Rightarrow> mesh \<times> nat" where
  "deliver_to env m p peer =
     (case p of (st, n) \<Rightarrow>
        case ms_connections st peer of
          None \<Rightarrow> (st, n)
        | Some h \<Rightarrow> (if me_reaches env h then (hand_over h m st, n + 1) else (st, n)))"

definition room_send_handler :: "mesh_env \<Rightarrow> mesh \<Rightarrow> string \<Rightarrow> string \<Rightarrow> mesh \<times> nat reply" where
  "room_send_handler env st room_id txt =
     (let my_id = pi_instance_id (mi_public (ms_identity st))
      in case find_by rr_id room_id (ms_rooms st) of
           None \<Rightarrow> (st, Fail 404)
         | Some r \<Rightarrow>
             (let st1 = st\<lparr>ms_rooms := update_first rr_id room_id (push_message my_id txt (me_now env)) (ms_rooms st)\<rparr>;
                  (st2, delivered) = foldl (deliver_to env (Chat my_id txt (Some room_id))) (st1, 0) (rr_members r)
              in (post \<lparr>po_category = ''mesh.room.message'', po_tags = [''mesh'', ''room'', room_id],
                    po_content = JObj [(''room_id'', JStr room_id), (''from'', JStr my_id), (''text'', JStr txt),
                      (''delivered_to'', JNum (int delivered))]\<rparr> st2, Reply 200 delivered)))"

definition room_history_handler :: "mesh \<Rightarrow> string \<Rightarrow> nat option \<Rightarrow> room_message list reply" where
  "room_history_handler st room_id limit =
     (case find_by rr_id room_id (ms_rooms st) of
        None \<Rightarrow> Fail 404
      | Some r \<Rightarrow>
          (let n = min (case limit of None \<Rightarrow> 50 | Some l \<Rightarrow> l) 500
           in Reply 200 (sort_key ro_seq (rev (take n (rev (rr_messages r)))))))"

definition rooms_list_handler :: "mesh \<Rightarrow> (string \<times> string \<times> nat \<times> nat \<times> timestamp) list" where
  "rooms_list_handler st = List.map
     (\<lambda>r. (rr_id r, rr_name r, length (rr_members r), length (rr_messages r), rr_created_at r)) (ms_rooms st)"

section \<open>Runs of the daemon\<close>

datatype mesh_call =
    AcceptInvite mesh_env string
  | SendToPeer mesh_env string mesh_message
  | Disconnect mesh_env string
  | Rotate fresh_keys "bool \<times> bool \<times> bool \<times> bool"
  | Inbound mesh_env public_identity nat
  | Outbound mesh_env string attempt
  | GiveUp string
  | RecvFailed mesh_env string
  | HealthTick mesh_env "string list"
  | Incoming mesh_env string mesh_message
  | CreateRoom mesh_env string
  | JoinRoom string string
  | SendRoom mesh_env string string

fun mesh_step :: "mesh_world \<Rightarrow> mesh \<Rightarrow> mesh_call \<Rightarrow> mesh" where
  "mesh_step w st (AcceptInvite env code) = fst (invite_accept_handler w env st code)"
| "mesh_step w st (SendToPeer env i m) = fst (peer_send_handler env st i m)"
| "mesh_step w st (Disconnect env i) = fst (peer_disconnect_handler env st i)"
| "mesh_step w st (Rotate k del) = fst (identity_rotate_handler w k del st)"
| "mesh_step w st (Inbound env p h) = fst (inbound_connected env st p h)"
| "mesh_step w st (Outbound env i a) = fst (outbound_attempt env i st a)"
| "mesh_step w st (GiveUp i) = outbound_exhausted i st"
| "mesh_step w st (RecvFailed env i) = recv_failed env i st"
| "mesh_step w st (HealthTick env ids) = health_tick w env ids st"
| "mesh_step w st (Incoming env i m) = dispatch_incoming w env i st m"
| "mesh_step w st (CreateRoom env name) = fst (room_create_handler env st name)"
| "mesh_step w st (JoinRoom r p) = fst (room_join_handler st r p)"
| "mesh_step w st (SendRoom env r t) = fst (room_send_handler env st r t)"

section \<open>What each step leaves alone\<close>

lemma post_frame [simp]:
  "ms_peers (post p st) = ms_peers st" "ms_rooms (post p st) = ms_rooms st" "ms_store (post p st) = ms_store st"
  "ms_used_invites (post p st) = ms_used_invites st" "ms_connections (post p st) = ms_connections st"
  "ms_sent (post p st) = ms_sent st"
  by (simp_all add: post_def)

lemmas log_defs = log_connect_def log_disconnect_def log_message_sent_def log_receipt_def

lemma hand_over_frame [simp]:
  "ms_peers (hand_over h m st) = ms_peers st" "ms_rooms (hand_over h m st) = ms_rooms st"
  "ms_store (hand_over h m st) = ms_store st" "ms_used_invites (hand_over h m st) = ms_used_invites st"
  "ms_connections (hand_over h m st) = ms_connections st"
  by (simp_all add: hand_over_def)

lemma save_peers_frame [simp]:
  "ms_peers (save_peers io st) = ms_peers st" "ms_rooms (save_peers io st) = ms_rooms st"
  "ms_store (save_peers io st) = ms_store st" "ms_used_invites (save_peers io st) = ms_used_invites st"
  "ms_connections (save_peers io st) = ms_connections st"
  by (simp_all add: save_peers_def)

lemma set_peer_frame [simp]:
  "ms_rooms (set_peer i f st) = ms_rooms st" "ms_store (set_peer i f st) = ms_store st"
  "ms_used_invites (set_peer i f st) = ms_used_invites st" "ms_connections (set_peer i f st) = ms_connections st"
  by (simp_all add: set_peer_def)

lemma recv_failed_frame [simp]:
  "ms_rooms (recv_failed env i st) = ms_rooms st" "ms_store (recv_failed env i st) = ms_store st"
  "ms_used_invites (recv_failed env i st) = ms_used_invites st"
  by (simp_all add: recv_failed_def log_defs)

lemma probe_frame [simp]:
  "ms_rooms (probe env st c) = ms_rooms st" "ms_store (probe env st c) = ms_store st"
  "ms_used_invites (probe env st c) = ms_used_invites st"
  by (simp_all add: probe_def split: prod.split)

lemma health_tick_frame [simp]:
  "ms_rooms (health_tick w env ids st) = ms_rooms st" "ms_store (health_tick w env ids st) = ms_store st"
  "ms_used_invites (health_tick w env ids st) = ms_used_invites st"
  by (simp_all add: health_tick_def Let_def foldl_frame [where g = ms_rooms] foldl_frame [where g = ms_store]
      foldl_frame [where g = ms_used_invites])

lemma forward_to_frame [simp]:
  "ms_peers (forward_to p m st x) = ms_peers st" "ms_rooms (forward_to p m st x) = ms_rooms st"
  "ms_store (forward_to p m st x) = ms_store st" "ms_used_invites (forward_to p m st x) = ms_used_invites st"
  "ms_connections (forward_to p m st x) = ms_connections st"
  by (simp_all add: forward_to_def split: option.split)

lemma forward_frame [simp]:
  "ms_peers (forward_room_message st r p f t) = ms_peers st" "ms_rooms (forward_room_message st r p f t) = ms_rooms st"
  "ms_store (forward_room_message st r p f t) = ms_store st"
  "ms_used_invites (forward_room_message st r p f t) = ms_used_invites st"
  by (simp_all add: forward_room_message_def foldl_frame [where g = ms_peers] foldl_frame [where g = ms_rooms]
      foldl_frame [where g = ms_store] foldl_frame [where g = ms_used_invites] split: option.split)

lemma sync_request_frame [simp]:
  "ms_peers (handle_sync_request w st p r t) = ms_peers st" "ms_rooms (handle_sync_request w st p r t) = ms_rooms st"
  "ms_store (handle_sync_request w st p r t) = ms_store st"
  "ms_used_invites (handle_sync_request w st p r t) = ms_used_invites st"
  by (simp_all add: handle_sync_request_def Let_def split: option.split)

lemma gossip_frame [simp]:
  "ms_peers (fst (handle_gossip w env st p t)) = ms_peers st"
  "ms_rooms (fst (handle_gossip w env st p t)) = ms_rooms st"
  "ms_used_invites (fst (handle_gossip w env st p t)) = ms_used_invites st"
  by (simp_all add: handle_gossip_def handle_sync_reply_def split: option.split gossip_message.split)

lemma room_message_frame [simp]:
  "ms_peers (handle_room_message w env st r f t p) = ms_peers st"
  "ms_used_invites (handle_room_message w env st r f t p) = ms_used_invites st"
  by (auto simp: handle_room_message_def Let_def split: option.splits prod.splits)

lemma outbound_frame [simp]:
  "ms_rooms (fst (outbound_attempt env i st a)) = ms_rooms st"
  "ms_store (fst (outbound_attempt env i st a)) = ms_store st"
  "ms_used_invites (fst (outbound_attempt env i st a)) = ms_used_invites st"
  by (cases a; simp add: Let_def log_defs)+

lemma inbound_frame [simp]:
  "ms_rooms (fst (inbound_connected env st p h)) = ms_rooms st"
  "ms_store (fst (inbound_connected env st p h)) = ms_store st"
  "ms_used_invites (fst (inbound_connected env st p h)) = ms_used_invites st"
  by (simp_all add: inbound_connected_def Let_def log_defs)

lemma deliver_to_frame [simp]:
  "ms_peers (fst (deliver_to env m p x)) = ms_peers (fst p)" "ms_rooms (fst (deliver_to env m p x)) = ms_rooms (fst p)"
  "ms_store (fst (deliver_to env m p x)) = ms_store (fst p)"
  "ms_used_invites (fst (deliver_to env m p x)) = ms_used_invites (fst p)"
  by (simp_all add: deliver_to_def split: prod.split option.split)

lemma deliver_frame:
  assumes "foldl (deliver_to env m) p xs = (st, n)"
  shows "ms_peers st = ms_peers (fst p)" "ms_rooms st = ms_rooms (fst p)" "ms_store st = ms_store (fst p)"
    "ms_used_invites st = ms_used_invites (fst p)"
  using foldl_frame [where g = "\<lambda>p. ms_peers (fst p)" and f = "deliver_to env m" and s = p and xs = xs]
    foldl_frame [where g = "\<lambda>p. ms_rooms (fst p)" and f = "deliver_to env m" and s = p and xs = xs]
    foldl_frame [where g = "\<lambda>p. ms_store (fst p)" and f = "deliver_to env m" and s = p and xs = xs]
    foldl_frame [where g = "\<lambda>p. ms_used_invites (fst p)" and f = "deliver_to env m" and s = p and xs = xs]
  by (simp_all add: assms)

lemma room_send_frame [simp]:
  "ms_peers (fst (room_send_handler env st r t)) = ms_peers st"
  "ms_store (fst (room_send_handler env st r t)) = ms_store st"
  "ms_used_invites (fst (room_send_handler env st r t)) = ms_used_invites st"
  by (auto simp: room_send_handler_def Let_def deliver_frame split: option.split prod.split)

section \<open>The invariant of the daemon\<close>

definition peers_ok :: "mesh \<Rightarrow> bool" where
  "peers_ok st = (distinct (List.map pe_id (ms_peers st)) \<and> unknown_count st \<le> max_unknown_inbound_peers)"

definition room_ok :: "room \<Rightarrow> bool" where
  "room_ok r = (List.map ro_seq (rr_messages r) = [0..<length (rr_messages r)])"

definition rooms_ok :: "mesh \<Rightarrow> bool" where
  "rooms_ok st = list_all room_ok (ms_rooms st)"

definition history_ok :: "mesh_world \<Rightarrow> mesh \<Rightarrow> bool" where
  "history_ok w st = (case ms_store st of None \<Rightarrow> True | Some s \<Rightarrow> store_ok (mw_sha w) s)"

definition mesh_ok :: "mesh_world \<Rightarrow> mesh \<Rightarrow> bool" where
  "mesh_ok w st = (peers_ok st \<and> rooms_ok st \<and> history_ok w st)"

text \<open>Peers learnt from an invite have an address; only the others count as unknown.\<close>

fun mesh_enabled :: "mesh_world \<Rightarrow> mesh \<Rightarrow> mesh_call \<Rightarrow> bool" where
  "mesh_enabled w st (AcceptInvite env code) =
     (case decode_invite w env code of None \<Rightarrow> True | Some iv \<Rightarrow> iv_endpoint iv \<noteq> [])"
| "mesh_enabled w st _ = True"

lemma peers_ok_cong: "ms_peers st' = ms_peers st \<Longrightarrow> peers_ok st' = peers_ok st"
  by (simp add: peers_ok_def unknown_count_def)

lemma peers_ok_frame [simp]:
  "peers_ok (post p st) = peers_ok st" "peers_ok (hand_over h m st) = peers_ok st"
  "peers_ok (save_peers io st) = peers_ok st" "peers_ok (st\<lparr>ms_connections := cs\<rparr>) = peers_ok st"
  "peers_ok (st\<lparr>ms_dialing := ds\<rparr>) = peers_ok st" "peers_ok (st\<lparr>ms_used_invites := us\<rparr>) = peers_ok st"
  by (simp_all add: peers_ok_def unknown_count_def)

lemma peers_ok_set_peer:
  "(\<And>p. pe_id (f p) = pe_id p \<and> pe_endpoint (f p) = pe_endpoint p) \<Longrightarrow> peers_ok (set_peer i f st) = peers_ok st"
  by (simp add: peers_ok_def unknown_count_def set_peer_def filter_update_first)

lemma peers_ok_recv_failed [simp]: "peers_ok (recv_failed env i st) = peers_ok st"
  by (simp add: recv_failed_def log_defs peers_ok_set_peer)

lemma peers_ok_probe [simp]: "peers_ok (probe env st c) = peers_ok st"
  by (simp add: probe_def split: prod.split)

lemma peers_ok_health [simp]: "peers_ok (health_tick w env ids st) = peers_ok st"
  by (simp add: health_tick_def Let_def foldl_frame [where g = peers_ok])

lemma peers_ok_add:
  assumes "peers_ok st" and "pe_id p \<notin> pe_id ` set (ms_peers st)"
    and "pe_endpoint p = [] \<Longrightarrow> unknown_count st < max_unknown_inbound_peers"
  shows "peers_ok (st\<lparr>ms_peers := ms_peers st @ [p]\<rparr>)"
  using assms by (auto simp: peers_ok_def unknown_count_def)

lemma unknown_count_frame [simp]:
  "unknown_count (st\<lparr>ms_connections := cs\<rparr>) = unknown_count st"
  "unknown_count (st\<lparr>ms_used_invites := us\<rparr>) = unknown_count st"
  by (simp_all add: unknown_count_def)

lemma peers_ok_inbound:
  assumes "peers_ok st"
  shows "peers_ok (fst (inbound_connected env st p h))"
proof -
  let ?i = "pi_instance_id p" and ?st = "st\<lparr>ms_connections := (ms_connections st)(pi_instance_id p \<mapsto> h)\<rparr>"
  have "peers_ok (?st\<lparr>ms_peers := ms_peers ?st @ [q]\<rparr>)"
    if "?i \<notin> pe_id ` set (ms_peers st)" "unknown_count st < max_unknown_inbound_peers" "pe_id q = ?i" for q
    using peers_ok_add [of ?st q] assms that by simp
  then show ?thesis
    using assms by (simp add: inbound_connected_def Let_def log_defs peers_ok_set_peer not_le)
qed

lemma peers_ok_accept:
  assumes "peers_ok st" and "mesh_enabled w st (AcceptInvite env code)"
  shows "peers_ok (fst (invite_accept_handler w env st code))"
proof (cases "decode_invite w env code")
  case None
  then show ?thesis using assms(1) by (simp add: invite_accept_handler_def)
next
  case (Some iv)
  let ?st = "st\<lparr>ms_used_invites := insert (mw_sha w code) (ms_used_invites st)\<rparr>"
  have "peers_ok (?st\<lparr>ms_peers := ms_peers ?st @ [q]\<rparr>)"
    if "iv_instance iv \<notin> pe_id ` set (ms_peers st)" "pe_id q = iv_instance iv" "pe_endpoint q = iv_endpoint iv" for q
    using peers_ok_add [of ?st q] assms that Some by simp
  then show ?thesis using Some assms(1) by (simp add: invite_accept_handler_def Let_def)
qed

lemma peers_ok_outbound [simp]: "peers_ok (fst (outbound_attempt env i st a)) = peers_ok st"
  by (cases a) (simp_all add: Let_def log_defs peers_ok_set_peer)

lemma peers_ok_disconnect:
  assumes "peers_ok st"
  shows "peers_ok (fst (peer_disconnect_handler env st i))"
proof -
  let ?st = "st\<lparr>ms_connections := (ms_connections st)(i := None), ms_peers := filter (\<lambda>p. pe_id p \<noteq> i) (ms_peers st)\<rparr>"
  have "unknown_count ?st \<le> unknown_count st"
  proof -
    have "filter (\<lambda>p. pe_endpoint p = []) (filter (\<lambda>p. pe_id p \<noteq> i) (ms_peers st)) =
        filter (\<lambda>p. pe_id p \<noteq> i) (filter (\<lambda>p. pe_endpoint p = []) (ms_peers st))"
      by (simp add: conj_commute)
    then show ?thesis by (simp add: unknown_count_def del: filter_filter)
  qed
  then have "peers_ok ?st" using assms by (auto simp: peers_ok_def distinct_map_filter)
  then show ?thesis by (simp add: peer_disconnect_handler_def Let_def log_defs)
qed

lemma push_message_ok: "room_ok r \<Longrightarrow> room_ok (push_message s t now r)"
  by (simp add: room_ok_def push_message_def)

lemma add_member_ok: "room_ok (add_member p r) = room_ok r"
  by (simp add: room_ok_def add_member_def)

lemma rooms_ok_update:
  "list_all room_ok rs \<Longrightarrow> (\<And>r. room_ok r \<Longrightarrow> room_ok (f r)) \<Longrightarrow> list_all room_ok (update_first rr_id i f rs)"
  by (auto simp: list_all_iff dest: set_update_first)

lemma rooms_ok_room_message: "rooms_ok st \<Longrightarrow> rooms_ok (handle_room_message w env st r f t p)"
  by (auto simp: handle_room_message_def Let_def rooms_ok_def push_message_ok rooms_ok_update
      split: option.splits prod.splits)

lemma rooms_ok_send: "rooms_ok st \<Longrightarrow> rooms_ok (fst (room_send_handler env st r t))"
  by (auto simp: room_send_handler_def Let_def rooms_ok_def deliver_frame push_message_ok rooms_ok_update
      split: option.split prod.split)

lemma history_ok_room_message: "history_ok w st \<Longrightarrow> history_ok w (handle_room_message w env st r f t p)"
proof (cases "ms_store st")
  case None
  assume "history_ok w st"
  with None show ?thesis by (auto simp: handle_room_message_def history_ok_def)
next
  case (Some s)
  assume "history_ok w st"
  then have "store_ok (mw_sha w) (fst (store_message (mw_sha w) (mw_fk w) s r f t (me_now env)))"
    using Some by (simp add: history_ok_def store_message_ok)
  with Some show ?thesis
    by (auto simp: handle_room_message_def history_ok_def Let_def split: prod.splits)
qed

lemma apply_sync_ok: "store_ok H s \<Longrightarrow> store_ok H (apply_sync H fk s r ms)"
  unfolding apply_sync_def by (rule foldl_invariant) (auto simp: sync_one_def store_message_ok)

lemma history_ok_gossip: "history_ok w st \<Longrightarrow> history_ok w (fst (handle_gossip w env st p t))"
  by (auto simp: handle_gossip_def handle_sync_reply_def history_ok_def apply_sync_ok join_room_ok leave_room_ok
      split: option.splits gossip_message.splits)

text \<open>The steps that touch rooms or the store; every other step frames them.\<close>

lemma dispatch_frames:
  "ms_peers (dispatch_incoming w env i st m) = ms_peers (case m of Heartbeat t \<Rightarrow>
     set_peer i (\<lambda>p. p\<lparr>pe_last_seen := Some (me_now env)\<rparr>) st | _ \<Rightarrow> st)"
  "ms_used_invites (dispatch_incoming w env i st m) = ms_used_invites st"
  by (cases "(w, env, i, st, m)" rule: dispatch_incoming.cases; simp)+

lemma dispatch_ok:
  assumes "rooms_ok st" and "history_ok w st"
  shows "rooms_ok (dispatch_incoming w env i st m)" "history_ok w (dispatch_incoming w env i st m)"
  using rooms_ok_room_message [OF assms(1)] history_ok_room_message [OF assms(2)] history_ok_gossip [OF assms(2)] assms
  by (cases "(w, env, i, st, m)" rule: dispatch_incoming.cases; simp add: rooms_ok_def history_ok_def)+

lemma accept_frame:
  "ms_rooms (fst (invite_accept_handler w env st code)) = ms_rooms st"
  "ms_store (fst (invite_accept_handler w env st code)) = ms_store st"
  by (simp_all add: invite_accept_handler_def Let_def split: option.split)

lemma endpoint_frames:
  "ms_rooms (fst (peer_send_handler env st i m)) = ms_rooms st" "ms_store (fst (peer_send_handler env st i m)) = ms_store st"
  "ms_peers (fst (peer_send_handler env st i m)) = ms_peers st"
  "ms_used_invites (fst (peer_send_handler env st i m)) = ms_used_invites st"
  "ms_rooms (fst (peer_disconnect_handler env st i)) = ms_rooms st" "ms_store (fst (peer_disconnect_handler env st i)) = ms_store st"
  "ms_used_invites (fst (peer_disconnect_handler env st i)) = ms_used_invites st"
  "ms_rooms (fst (identity_rotate_handler w k del st)) = ms_rooms st" "ms_store (fst (identity_rotate_handler w k del st)) = ms_store st"
  "ms_peers (fst (identity_rotate_handler w k del st)) = ms_peers st"
  "ms_used_invites (fst (identity_rotate_handler w k del st)) = ms_used_invites st"
  by (simp_all add: peer_send_handler_def peer_disconnect_handler_def identity_rotate_handler_def Let_def log_defs
      split: option.split prod.split sum.split)

lemma room_handler_frames:
  "ms_peers (fst (room_create_handler env st name)) = ms_peers st" "ms_store (fst (room_create_handler env st name)) = ms_store st"
  "ms_used_invites (fst (room_create_handler env st name)) = ms_used_invites st"
  "ms_peers (fst (room_join_handler st r p)) = ms_peers st" "ms_store (fst (room_join_handler st r p)) = ms_store st"
  "ms_used_invites (fst (room_join_handler st r p)) = ms_used_invites st"
  by (simp_all add: room_create_handler_def room_join_handler_def Let_def split: option.split)

lemmas step_frames = accept_frame endpoint_frames room_handler_frames outbound_exhausted_def

lemma peers_ok_step:
  assumes "peers_ok st" and "mesh_enabled w st c"
  shows "peers_ok (mesh_step w st c)"
proof (cases c)
  case (AcceptInvite env code)
  then show ?thesis using assms peers_ok_accept by simp
next
  case (Incoming env i m)
  have "peers_ok (case m of Heartbeat t \<Rightarrow> set_peer i (\<lambda>p. p\<lparr>pe_last_seen := Some (me_now env)\<rparr>) st | _ \<Rightarrow> st)"
    using assms(1) by (simp add: peers_ok_set_peer split: mesh_message.split)
  then show ?thesis using Incoming peers_ok_cong [OF dispatch_frames(1)] by simp
next
  case (SendToPeer env i m)
  then show ?thesis using assms(1) peers_ok_cong [OF endpoint_frames(3)] by simp
next
  case (Rotate k del)
  then show ?thesis using assms(1) peers_ok_cong [OF endpoint_frames(10)] by simp
next
  case (CreateRoom env name)
  then show ?thesis using assms(1) peers_ok_cong [OF room_handler_frames(1)] by simp
next
  case (JoinRoom i q)
  then show ?thesis using assms(1) peers_ok_cong [OF room_handler_frames(4)] by simp
next
  case (SendRoom env i t)
  then show ?thesis using assms(1) peers_ok_cong [OF room_send_frame(1)] by simp
qed (use assms(1) in \<open>simp_all add: peers_ok_disconnect peers_ok_inbound outbound_exhausted_def peers_ok_set_peer\<close>)

lemma rooms_ok_step: "rooms_ok st \<Longrightarrow> history_ok w st \<Longrightarrow> rooms_ok (mesh_step w st c)"
proof (cases c)
  case (CreateRoom env name)
  assume "rooms_ok st"
  with CreateRoom show ?thesis by (simp add: room_create_handler_def Let_def rooms_ok_def room_ok_def)
next
  case (JoinRoom i q)
  assume "rooms_ok st"
  with JoinRoom show ?thesis
    by (simp add: room_join_handler_def rooms_ok_def rooms_ok_update add_member_ok split: option.split)
next
  case (Incoming env i m)
  assume "rooms_ok st" "history_ok w st"
  with Incoming show ?thesis by (simp add: dispatch_ok)
next
  case (SendRoom env i t)
  assume "rooms_ok st"
  with SendRoom show ?thesis by (simp add: rooms_ok_send)
qed (simp_all add: rooms_ok_def step_frames)

lemma history_ok_step: "rooms_ok st \<Longrightarrow> history_ok w st \<Longrightarrow> history_ok w (mesh_step w st c)"
proof (cases c)
  case (Incoming env i m)
  assume "rooms_ok st" "history_ok w st"
  with Incoming show ?thesis by (simp add: dispatch_ok)
qed (simp_all add: history_ok_def step_frames)

lemma mesh_step_ok: "mesh_ok w st \<Longrightarrow> mesh_enabled w st c \<Longrightarrow> mesh_ok w (mesh_step w st c)"
  by (simp add: mesh_ok_def peers_ok_step rooms_ok_step history_ok_step)

lemma mesh_run_ok:
  "mesh_ok w st \<Longrightarrow> enabled_run (mesh_enabled w) (mesh_step w) st cs \<Longrightarrow> mesh_ok w (foldl (mesh_step w) st cs)"
  by (rule run_invariant [where I = "mesh_ok w"]) (rule mesh_step_ok)

section \<open>Invites are used once\<close>

lemma used_invites_step: "ms_used_invites st \<subseteq> ms_used_invites (mesh_step w st c)"
proof (cases c)
  case (AcceptInvite env code)
  then show ?thesis by (auto simp: invite_accept_handler_def Let_def split: option.split)
next
  case (Outbound env i a)
  then show ?thesis by simp
qed (simp_all add: dispatch_frames step_frames)

lemma used_invites_run: "ms_used_invites st \<subseteq> ms_used_invites (foldl (mesh_step w) st cs)"
  by (induction cs arbitrary: st) (auto dest: subsetD [OF used_invites_step])

lemma accepted_used:
  "snd (invite_accept_handler w env st code) = Reply k r \<Longrightarrow>
   mw_sha w code \<in> ms_used_invites (fst (invite_accept_handler w env st code))"
  by (auto simp: invite_accept_handler_def Let_def split: option.splits if_splits)

lemma used_refused:
  "mw_sha w code \<in> ms_used_invites st \<Longrightarrow> decode_invite w env code = Some iv \<Longrightarrow>
   invite_accept_handler w env st code = (st, Fail 409)"
  by (simp add: invite_accept_handler_def)

section \<open>The rate limit\<close>

text \<open>A sequence of arrivals, with what the loop decides on each.\<close>

fun run_admit :: "limiter \<Rightarrow> (int \<times> string) list \<Rightarrow> (string \<times> bool) list" where
  "run_admit lim [] = []"
| "run_admit lim ((now, ip) # as) = (case admit now ip lim of (lim', good) \<Rightarrow> (ip, good) # run_admit lim' as)"

definition admitted :: "string \<Rightarrow> limiter \<Rightarrow> (int \<times> string) list \<Rightarrow> nat" where
  "admitted ip lim as = length (filter (\<lambda>p. p = (ip, True)) (run_admit lim as))"

definition attempts_of :: "limiter \<Rightarrow> string \<Rightarrow> nat" where
  "attempts_of lim ip = (case lim ip of None \<Rightarrow> 0 | Some e \<Rightarrow> snd e)"

lemma admitted_Nil [simp]: "admitted ip lim [] = 0"
  by (simp add: admitted_def)

lemma admitted_other:
  "j \<noteq> ip \<Longrightarrow> admitted ip lim ((now, j) # as) = admitted ip (fst (admit now j lim)) as"
  by (simp add: admitted_def split: prod.split)

lemma admitted_own:
  "admitted ip lim ((now, ip) # as) =
     of_bool (snd (admit now ip lim)) + admitted ip (fst (admit now ip lim)) as"
  by (simp add: admitted_def split: prod.split)

lemma admit_other: "j \<noteq> ip \<Longrightarrow> fst (admit now j lim) ip = lim ip"
  by (simp add: admit_def Let_def)

lemma admit_own:
  assumes "n + 1 < 2 ^ 32"
  shows "lim ip = None \<Longrightarrow> fst (admit now ip lim) ip = Some (now, 1) \<and> snd (admit now ip lim)"
    and "lim ip = Some (s, n) \<Longrightarrow> now - s \<le> attempt_window \<Longrightarrow>
      fst (admit now ip lim) ip = Some (s, n + 1) \<and> snd (admit now ip lim) = (n < 5)"
    and "lim ip = Some (s, n) \<Longrightarrow> attempt_window < now - s \<Longrightarrow>
      fst (admit now ip lim) ip = Some (now, 1) \<and> snd (admit now ip lim)"
  using assms by (auto simp: admit_def Let_def wrapping_add_w_def max_attempts_per_ip_def)

lemma admitted_in_window:
  "lim ip = Some (s, n) \<Longrightarrow> list_all (\<lambda>a. fst a \<le> s + attempt_window) as \<Longrightarrow> n + length as < 2 ^ 32 \<Longrightarrow>
   admitted ip lim as \<le> 5 - n"
proof (induction as arbitrary: lim n)
  case Nil
  show ?case by simp
next
  case (Cons a as)
  obtain now j where a: "a = (now, j)" by (cases a)
  show ?case
  proof (cases "j = ip")
    case False
    then show ?thesis
      using Cons.IH [of "fst (admit now j lim)" n] Cons.prems a by (simp add: admitted_other admit_other)
  next
    case True
    have "n + 1 < 2 ^ 32" "now - s \<le> attempt_window" using Cons.prems(2,3) a by simp_all
    then have "fst (admit now ip lim) ip = Some (s, n + 1) \<and> snd (admit now ip lim) = (n < 5)"
      using Cons.prems(1) by (intro admit_own(2))
    then show ?thesis
      using Cons.IH [of "fst (admit now ip lim)" "n + 1"] Cons.prems(2,3) a True by (simp add: admitted_own) arith
  qed
qed

lemma admitted_after_reset:
  assumes "fst (admit now ip lim) ip = Some (now, 1)" and "t \<le> now"
    and "list_all (\<lambda>a. fst a \<le> t + attempt_window) as" and "length as < 2 ^ 32 - 1"
  shows "admitted ip lim ((now, ip) # as) \<le> 5"
proof -
  have "list_all (\<lambda>a. fst a \<le> now + attempt_window) as"
    using assms(2,3) by (auto simp: list_all_iff intro: order_trans)
  then have "admitted ip (fst (admit now ip lim)) as \<le> 5 - 1"
    using admitted_in_window [where lim = "fst (admit now ip lim)" and ip = ip and n = 1] assms(1,4) by simp
  then show ?thesis by (simp add: admitted_own)
qed

lemma admitted_in_interval:
  "list_all (\<lambda>a. t \<le> fst a \<and> fst a \<le> t + attempt_window) as \<Longrightarrow> attempts_of lim ip + length as < 2 ^ 32 \<Longrightarrow>
   admitted ip lim as \<le> (5 - attempts_of lim ip) + 5"
proof (induction as arbitrary: lim)
  case Nil
  show ?case by simp
next
  case (Cons a as)
  obtain now j where a: "a = (now, j)" by (cases a)
  have late: "list_all (\<lambda>a. fst a \<le> t + attempt_window) as" and t: "t \<le> now"
    using Cons.prems(1) a by (auto simp: list_all_iff)
  show ?case
  proof (cases "j = ip")
    case False
    then show ?thesis
      using Cons.IH [of "fst (admit now j lim)"] Cons.prems a by (simp add: admitted_other admit_other attempts_of_def)
  next
    case True
    show ?thesis
    proof (cases "lim ip")
      case None
      then have "fst (admit now ip lim) ip = Some (now, 1)" using admit_own(1) [of 0 lim ip now] by simp
      from admitted_after_reset [OF this t late] show ?thesis
        using Cons.prems(2) a True None by (simp add: attempts_of_def)
    next
      case (Some e)
      obtain s n where e: "lim ip = Some (s, n)" using Some by (cases e) simp
      have n: "n + 1 < 2 ^ 32" using Cons.prems(2) e by (simp add: attempts_of_def)
      show ?thesis
      proof (cases "attempt_window < now - s")
        case True
        then have "fst (admit now ip lim) ip = Some (now, 1)"
          using admit_own(3) [where lim = lim and ip = ip and now = now, OF n e] by simp
        from admitted_after_reset [OF this t late] show ?thesis
          using Cons.prems(2) a \<open>j = ip\<close> by simp
      next
        case False
        then have "fst (admit now ip lim) ip = Some (s, n + 1) \<and> snd (admit now ip lim) = (n < 5)"
          using n e by (intro admit_own(2)) simp_all
        then show ?thesis
          using Cons.IH [of "fst (admit now ip lim)"] Cons.prems a \<open>j = ip\<close> e
          by (simp add: admitted_own attempts_of_def) arith
      qed
    qed
  qed
qed

section \<open>Room history and membership\<close>

lemma room_history:
  assumes "rooms_ok st" and "room_history_handler st i limit = Reply 200 ms" and "find_by rr_id i (ms_rooms st) = Some r"
    and "n = min (case limit of None \<Rightarrow> 50 | Some l \<Rightarrow> l) 500"
  shows "ms = drop (length (rr_messages r) - n) (rr_messages r) \<and>
    List.map ro_seq ms = [length (rr_messages r) - n..<length (rr_messages r)]"
proof -
  have ok: "List.map ro_seq (rr_messages r) = [0..<length (rr_messages r)]"
    using assms(1) find_by_Some [OF assms(3)] by (auto simp: rooms_ok_def list_all_iff room_ok_def)
  let ?d = "drop (length (rr_messages r) - n) (rr_messages r)"
  have d: "rev (take n (rev (rr_messages r))) = ?d" by (simp add: rev_take)
  have seq: "List.map ro_seq ?d = [length (rr_messages r) - n..<length (rr_messages r)]"
    using ok by (metis drop_map drop_upt add_0)
  then have "sorted (List.map ro_seq ?d)" by simp
  then have "sort_key ro_seq ?d = ?d" by (rule sort_key_id_if_sorted)
  then show ?thesis
    using assms(2-4) d seq by (simp add: room_history_handler_def Let_def)
qed

text \<open>A peer changes only its own memberships, whatever it sends.\<close>

definition members_of :: "mesh \<Rightarrow> (string \<times> string) set" where
  "members_of st = (case ms_store st of None \<Rightarrow> {} | Some s \<Rightarrow> (\<lambda>m. (rm_room m, rm_peer m)) ` set (st_members s))"

lemma apply_sync_members [simp]: "st_members (apply_sync H fk s r ms) = st_members s"
  unfolding apply_sync_def by (rule foldl_frame) (simp add: sync_one_def)

lemma room_message_members: "members_of (handle_room_message w env st r f t p) = members_of st"
proof (cases "ms_store st")
  case None
  then show ?thesis by (auto simp: handle_room_message_def members_of_def)
next
  case (Some s)
  obtain s' res where "store_message (mw_sha w) (mw_fk w) s r f t (me_now env) = (s', res)" by (meson surj_pair)
  moreover from this have "st_members s' = st_members s" by (metis store_message_members(1) fst_conv)
  ultimately show ?thesis
    using Some by (simp add: handle_room_message_def members_of_def Let_def)
qed

lemma gossip_members:
  "q \<noteq> p \<Longrightarrow> (r, q) \<in> members_of (fst (handle_gossip w env st p t)) \<longleftrightarrow> (r, q) \<in> members_of st"
  by (auto simp: handle_gossip_def handle_sync_reply_def members_of_def join_room_def leave_room_def image_iff
      split: option.splits gossip_message.splits)

lemma dispatch_members:
  "q \<noteq> p \<Longrightarrow> (r, q) \<in> members_of (dispatch_incoming w env p st m) \<longleftrightarrow> (r, q) \<in> members_of st"
  by (cases "(w, env, p, st, m)" rule: dispatch_incoming.cases)
    (auto simp: gossip_members room_message_members members_of_def [of "set_peer _ _ _"] members_of_def [of "post _ _"]
      members_of_def [of st])

lemma mesh_fresh_ok:
  "ms_peers st = [] \<and> ms_rooms st = [] \<and> ms_store st = Some new_store \<Longrightarrow> mesh_ok w st"
  by (simp add: mesh_ok_def peers_ok_def unknown_count_def rooms_ok_def history_ok_def new_store_ok)

end
