(* ===== verification/MeshSample.thy ===== *)
theory MeshSample
  imports MeshNode
begin

text \<open>
  Concrete parameters of the mesh model, for the examples at the end of the development: a codec of
  messages that is proved to read back what it writes, a Noise session that tags each message with
  its number, and simple stand-ins of the primitives that meet the promises of \<open>crypto_ok\<close>.
\<close>

section \<open>A codec\<close>

fun put_str :: "string \<Rightarrow> bytes" where
  "put_str [] = [0]"
| "put_str (c # s) = 1 # word_of_nat (of_char c) # put_str s"

fun get_str :: "bytes \<Rightarrow> (string \<times> bytes) option" where
  "get_str [] = None"
| "get_str [t] = (if t = 0 then Some ([], []) else None)"
| "get_str (t # b # r) =
     (if t = 0 then Some ([], b # r)
      else map_option (\<lambda>(s, q). (char_of (unat b) # s, q)) (get_str r))"

lemma char_of_byte [simp]: "char_of (unat (word_of_nat (of_char c) :: 8 word)) = c"
  by (simp add: unat_of_nat)

lemma get_put_str [simp]: "get_str (put_str s @ r) = Some (s, r)"
proof (induction s)
  case Nil
  show ?case by (cases r) simp_all
qed simp

lemma length_put_str [simp]: "length (put_str s) = 2 * length s + 1"
  by (induction s) simp_all

definition put_word :: "64 word \<Rightarrow> bytes" where
  "put_word w = to_be_bytes 8 (unat w)"

definition get_word :: "bytes \<Rightarrow> 64 word \<times> bytes" where
  "get_word bs = (word_of_nat (be_value (take 8 bs)), drop 8 bs)"

lemma get_put_word [simp]: "get_word (put_word w @ r) = (w, r)"
proof -
  have "unat w < 256 ^ 8" using unsigned_less [of w] by simp
  then show ?thesis by (simp add: get_word_def put_word_def be_value_to_be_bytes)
qed

fun put_message :: "mesh_message \<Rightarrow> bytes" where
  "put_message (Heartbeat t) = 0 # put_str t"
| "put_message (HealthReport hn cpu mem up) = 1 # put_str hn @ put_word cpu @ put_word mem @ put_word up"
| "put_message (Alert Info t d) = 2 # put_str t @ put_str d"
| "put_message (Alert Warning t d) = 3 # put_str t @ put_str d"
| "put_message (Alert Critical t d) = 4 # put_str t @ put_str d"
| "put_message (Chat src txt None) = 5 # put_str src @ put_str txt"
| "put_message (Chat src txt (Some r)) = 6 # put_str src @ put_str txt @ put_str r"
| "put_message (PqExchange ct) = 7 # put_str ct"

definition get_two :: "(string \<Rightarrow> string \<Rightarrow> mesh_message) \<Rightarrow> bytes \<Rightarrow> mesh_message option" where
  "get_two f bs =
     (case get_str bs of
        None \<Rightarrow> None
      | Some (a, r) \<Rightarrow> (case get_str r of None \<Rightarrow> None | Some (b, r') \<Rightarrow> Some (f a b)))"

definition get_message :: "bytes \<Rightarrow> mesh_message option" where
  "get_message bs =
     (case bs of
        [] \<Rightarrow> None
      | t # r \<Rightarrow>
          (if t = 0 then map_option (\<lambda>(s, _). Heartbeat s) (get_str r)
           else if t = 1 then map_option (\<lambda>(s, q). let (c, q1) = get_word q; (m, q2) = get_word q1; (u, q3) = get_word q2
                                                in HealthReport s c m u) (get_str r)
           else if t = 2 then get_two (Alert Info) r
           else if t = 3 then get_two (Alert Warning) r
           else if t = 4 then get_two (Alert Critical) r
           else if t = 5 then get_two (\<lambda>a b. Chat a b None) r
           else if t = 6 then (case get_str r of
                                 None \<Rightarrow> None
                               | Some (a, q) \<Rightarrow>
                                   (case get_str q of
                                      None \<Rightarrow> None
                                    | Some (b, q') \<Rightarrow> map_option (\<lambda>(c, _). Chat a b (Some c)) (get_str q')))
           else map_option (\<lambda>(s, _). PqExchange s) (get_str r)))"

lemma get_put_str_end [simp]: "get_str (put_str s) = Some (s, [])"
  using get_put_str [of s "[]"] by simp

lemma get_put_word_end [simp]: "get_word (put_word w) = (w, [])"
  using get_put_word [of w "[]"] by simp

lemma get_put_message: "get_message (put_message m) = Some m"
  by (cases m rule: put_message.cases) (simp_all add: get_message_def get_two_def)

definition sample_codec :: codec where
  "sample_codec = \<lparr>cd_to_json = put_message, cd_of_json = get_message,
     cd_encrypt = (\<lambda>k n x. Some (x @ take 16 (k @ replicate 16 0))),
     cd_decrypt = (\<lambda>k n y. Some (take (length y - 16) y))\<rparr>"

lemma sample_codec_ok: "codec_ok sample_codec"
proof -
  have "min n 16 + (16 - n) = (16::nat)" for n by simp
  then show ?thesis by (simp add: codec_ok_def sample_codec_def get_put_message)
qed

section \<open>Two parties\<close>

definition tag :: "nat \<Rightarrow> bytes" where
  "tag n = replicate 16 (word_of_nat n)"

definition sample_session :: session where
  "sample_session = \<lparr>se_write = (\<lambda>n m. if length m \<le> 65519 then Some (m @ tag n) else None),
     se_read = (\<lambda>n x. if drop (length x - 16) x = tag n then Some (take (length x - 16) x) else None),
     se_pq_key = []\<rparr>"

lemma sample_link: "noise_link sample_session sample_session"
  by (auto simp: noise_link_def sample_session_def tag_def)

definition pad32 :: "bytes \<Rightarrow> bytes" where
  "pad32 x = take 32 (x @ replicate 32 0)"

lemma length_pad32 [simp]: "length (pad32 x) = 32"
  by (simp add: pad32_def)

definition text_of :: "bytes \<Rightarrow> string" where
  "text_of x = List.map (\<lambda>b. char_of (unat b)) x"

lemma bytes_of_text [simp]: "bytes_of (text_of x) = x"
proof -
  have "word_of_nat (unat b mod 256) = b" for b :: "8 word"
  proof -
    have "unat b < 256" using unsigned_less [of b] by simp
    then show ?thesis by simp
  qed
  then show ?thesis by (simp add: bytes_of_def text_of_def comp_def map_idI)
qed

lemma length_text_of [simp]: "length (text_of x) = length x"
  by (simp add: text_of_def)

definition sample_sign :: "bytes \<Rightarrow> bytes \<Rightarrow> bytes" where
  "sample_sign pk m = take 64 (pk @ m @ replicate 64 0)"

definition sample_mesh_crypto :: mesh_crypto where
  "sample_mesh_crypto = \<lparr>mc_js = (\<lambda>_. ''{}''), mc_hex = text_of, mc_unhex = (\<lambda>s. Some (bytes_of s)),
     mc_b64 = text_of, mc_unb64 = (\<lambda>s. Some (bytes_of s)), mc_sha256 = id, mc_ed_public = pad32,
     mc_ed_sign = (\<lambda>sk. sample_sign (pad32 sk)), mc_ed_verifier = (\<lambda>pk. Some (\<lambda>m s. s = sample_sign pk m)),
     mc_ek_of_dk = Some, mc_encap = (\<lambda>ek rnd. Some (pad32 rnd, pad32 rnd)), mc_decap = (\<lambda>dk ct. Some ct),
     mc_hkdf = (\<lambda>ikm info. ikm @ info)\<rparr>"

lemma sample_crypto_ok: "crypto_ok sample_mesh_crypto"
proof -
  have "min n 32 + (32 - n) = (32::nat)" for n by simp
  then show ?thesis by (simp add: crypto_ok_def sample_mesh_crypto_def sample_sign_def)
qed

definition put_identity :: "public_identity \<Rightarrow> bytes" where
  "put_identity p = put_str (pi_instance_id p) @ put_str (pi_ed25519 p) @ put_str (pi_noise p) @
     put_str (pi_mlkem p) @ put_str (case pi_signature p of None \<Rightarrow> [] | Some s \<Rightarrow> s)"

definition get_identity :: "bytes \<Rightarrow> public_identity option" where
  "get_identity bs =
     (case get_str bs of None \<Rightarrow> None | Some (i, r1) \<Rightarrow>
      (case get_str r1 of None \<Rightarrow> None | Some (e, r2) \<Rightarrow>
       (case get_str r2 of None \<Rightarrow> None | Some (n, r3) \<Rightarrow>
        (case get_str r3 of None \<Rightarrow> None | Some (k, r4) \<Rightarrow>
         (case get_str r4 of None \<Rightarrow> None | Some (s, r5) \<Rightarrow>
            Some \<lparr>pi_instance_id = i, pi_ed25519 = e, pi_noise = n, pi_mlkem = k,
              pi_capabilities = [''mesh.v1''], pi_signature = Some s\<rparr>)))))"

lemma get_put_identity:
  "get_identity (put_identity (mi_public (build_identity mc ed priv pub dk ek))) =
     Some (mi_public (build_identity mc ed priv pub dk ek))"
  by (simp add: get_identity_def put_identity_def build_identity_def unsigned_identity_def Let_def)

definition sample_party :: "8 word \<Rightarrow> party" where
  "sample_party i = \<lparr>pa_crypto = sample_mesh_crypto, pa_codec = sample_codec, pa_id_to_json = put_identity,
     pa_id_of_json = get_identity,
     pa_identity = build_identity sample_mesh_crypto (replicate 32 i) (replicate 32 i) (replicate 32 i)
       (replicate 32 i) (replicate 32 i),
     pa_session = sample_session, pa_hash = [9]\<rparr>"

lemma sample_world_ok: "same_world (sample_party i) (sample_party j)"
  by (simp add: same_world_def sample_party_def sample_link sample_codec_ok get_put_identity)

lemma sample_own: "own_identity (pa_crypto (sample_party i)) (pa_identity (sample_party i))"
  by (auto simp: own_identity_def sample_party_def sample_mesh_crypto_def)

lemma sample_fits: "fits (sample_party i)"
  by (auto simp: fits_def sample_party_def sample_session_def put_identity_def build_identity_def Let_def
      unsigned_identity_def sign_identity_def sample_sign_def sample_mesh_crypto_def sample_codec_def instance_id_def)

section \<open>A daemon\<close>

definition sample_mesh_env :: "nat \<Rightarrow> mesh_env" where
  "sample_mesh_env n = \<lparr>me_now = ''2026-01-01T00:00:00Z'', me_clock = int n, me_uuid = ''r1'',
     me_after = (\<lambda>s. ''2026-01-01T01:00:00Z''), me_reaches = (\<lambda>h. True), me_io_ok = True\<rparr>"

definition sample_invite :: invite where
  "sample_invite = \<lparr>iv_endpoint = ''203.0.113.5:18800'', iv_noise = ''aa'', iv_mlkem = ''bb'',
     iv_instance = ''0123456789abcdef'', iv_expires_at = ''2026-01-01T01:00:00Z''\<rparr>"

definition sample_mesh_world :: mesh_world where
  "sample_mesh_world = \<lparr>mw_crypto = sample_mesh_crypto, mw_sha = id, mw_fk = False, mw_parse_time = (\<lambda>_. Some 1000),
     mw_invite_text = (\<lambda>_. ''code''), mw_invite_of = (\<lambda>_. Some sample_invite),
     mw_gossip_text = (\<lambda>_. ''g''), mw_gossip_of = (\<lambda>_. Some (RoomJoinNotify ''r1'' ''p1'')), mw_double = (\<lambda>_. JNull)\<rparr>"

definition sample_mesh :: mesh where
  "sample_mesh = \<lparr>ms_identity = pa_identity (sample_party 1),
     ms_files = \<lparr>kf_ed = None, kf_noise_key = None, kf_noise_pub = None, kf_dk = None, kf_identity = None\<rparr>,
     ms_peers = [], ms_connections = (\<lambda>_. None), ms_saved = None, ms_public_endpoint = ''127.0.0.1:18800'',
     ms_rooms = [], ms_used_invites = {}, ms_store = Some new_store, ms_dialing = [], ms_sent = [], ms_posts = []\<rparr>"

lemma sample_mesh_ok: "mesh_ok w sample_mesh"
  by (simp add: mesh_ok_def peers_ok_def unknown_count_def rooms_ok_def history_ok_def sample_mesh_def new_store_ok)

end
