(* ===== verification/MeshStart.thy ===== *)
theory MeshStart
  imports MeshNode
begin

text \<open>
  Start and restart of the mesh daemon and its accept loop (\<open>main.rs\<close>). A restart reads the key
  files, the peers file and the room database back and starts with no connections, no rooms in
  memory and no used invites. The accept loop admits an address by the rate limit and then needs one
  of 32 permits, which the task of the connection holds until it ends.
\<close>

section \<open>Start and restart\<close>

text \<open>\<open>store\<close> is the opened room database; \<open>None\<close>: it could not be opened.\<close>

record boot_env =
  be_fresh :: fresh_keys
  be_addr :: string
  be_port :: nat
  be_public :: "string option"

definition mesh_boot ::
  "mesh_world \<Rightarrow> boot_env \<Rightarrow> key_files \<Rightarrow> peer_info list option \<Rightarrow> room_store option \<Rightarrow> identity_error + mesh" where
  "mesh_boot w env files saved store =
     (case load_or_create (mw_crypto w) (be_fresh env) files of
        (files', Inl e) \<Rightarrow> Inl e
      | (files', Inr i) \<Rightarrow>
          Inr \<lparr>ms_identity = i, ms_files = files', ms_peers = load_peers saved, ms_connections = (\<lambda>_. None),
               ms_saved = saved, ms_public_endpoint = (case be_public env of None \<Rightarrow> be_addr env @ '':'' @ dec (be_port env) | Some a \<Rightarrow> a),
               ms_rooms = [], ms_used_invites = {}, ms_store = store, ms_dialing = [], ms_sent = [], ms_posts = []\<rparr>)"

definition mesh_restart :: "mesh_world \<Rightarrow> boot_env \<Rightarrow> bool \<Rightarrow> mesh \<Rightarrow> identity_error + mesh" where
  "mesh_restart w env opens st =
     mesh_boot w env (ms_files st) (ms_saved st) (if opens then ms_store st else None)"

section \<open>The accept loop\<close>

definition max_concurrent_handshakes :: nat where
  "max_concurrent_handshakes = 32"

record acceptor =
  ac_limits :: limiter
  ac_busy :: nat

datatype accept_event = Arrives int string | TaskEnds

definition start_acceptor :: acceptor where
  "start_acceptor = \<lparr>ac_limits = (\<lambda>_. None), ac_busy = 0\<rparr>"

text \<open>The flag: a handshake is started for the connection.\<close>

fun accept_step :: "acceptor \<Rightarrow> accept_event \<Rightarrow> acceptor \<times> bool" where
  "accept_step a (Arrives now ip) =
     (case admit now ip (ac_limits a) of
        (limits, good) \<Rightarrow>
          (let a1 = a\<lparr>ac_limits := limits\<rparr>
           in if \<not> good then (a1, False)
              else if max_concurrent_handshakes \<le> ac_busy a1 then (a1, False)
              else (a1\<lparr>ac_busy := Suc (ac_busy a1)\<rparr>, True)))"
| "accept_step a TaskEnds = (a\<lparr>ac_busy := ac_busy a - 1\<rparr>, False)"

fun run_accept :: "acceptor \<Rightarrow> accept_event list \<Rightarrow> (string \<times> bool) list" where
  "run_accept a [] = []"
| "run_accept a (Arrives now ip # es) = (case accept_step a (Arrives now ip) of (a', started) \<Rightarrow> (ip, started) # run_accept a' es)"
| "run_accept a (TaskEnds # es) = run_accept (fst (accept_step a TaskEnds)) es"

fun arrivals :: "accept_event list \<Rightarrow> (int \<times> string) list" where
  "arrivals [] = []"
| "arrivals (Arrives now ip # es) = (now, ip) # arrivals es"
| "arrivals (TaskEnds # es) = arrivals es"

lemma accept_limits [simp]:
  "ac_limits (fst (accept_step a (Arrives now ip))) = fst (admit now ip (ac_limits a))"
  "ac_limits (fst (accept_step a TaskEnds)) = ac_limits a"
  by (simp_all add: Let_def split: prod.split)

lemma accept_started: "snd (accept_step a (Arrives now ip)) \<Longrightarrow> snd (admit now ip (ac_limits a))"
  by (auto simp: Let_def split: prod.splits if_splits)

text \<open>A started handshake was admitted by the rate limit, which does not depend on the permits.\<close>

lemma started_le_admitted:
  "length (filter (\<lambda>p. p = (ip, True)) (run_accept a es)) \<le> admitted ip (ac_limits a) (arrivals es)"
proof (induction a es rule: run_accept.induct)
  case (2 a now j es)
  obtain a' started where s: "accept_step a (Arrives now j) = (a', started)" by (metis prod.exhaust)
  have l: "ac_limits a' = fst (admit now j (ac_limits a))" using accept_limits(1) [of a now j] s by simp
  have "started \<Longrightarrow> snd (admit now j (ac_limits a))" using accept_started [of a now j] s by simp
  then show ?case using 2 [OF s [symmetric]] s l
    by (cases "j = ip") (auto simp: admitted_own admitted_other simp del: accept_step.simps)
qed simp_all

lemma busy_bounded: "ac_busy a \<le> 32 \<Longrightarrow> ac_busy (foldl (\<lambda>a e. fst (accept_step a e)) a es) \<le> 32"
proof (induction es arbitrary: a)
  case (Cons e es)
  have "ac_busy (fst (accept_step a e)) \<le> 32"
    using Cons.prems by (cases e) (auto simp: Let_def max_concurrent_handshakes_def split: prod.split)
  then show ?case using Cons.IH by simp
qed simp

section \<open>What a restart keeps\<close>

definition saved_list :: "mesh \<Rightarrow> peer_info list" where
  "saved_list st = (case ms_saved st of None \<Rightarrow> [] | Some ps \<Rightarrow> ps)"

definition saved_ok :: "mesh \<Rightarrow> bool" where
  "saved_ok st = peers_ok (st\<lparr>ms_peers := saved_list st\<rparr>)"

lemma saved_ok_cong: "ms_saved st' = ms_saved st \<Longrightarrow> saved_ok st' = saved_ok st"
  by (simp add: saved_ok_def saved_list_def peers_ok_def unknown_count_def)

lemma saved_ok_save [simp]: "saved_ok (save_peers io st) = (if io then peers_ok st else saved_ok st)"
  by (simp add: saved_ok_def saved_list_def save_peers_def peers_ok_def unknown_count_def)

lemma saved_frame [simp]:
  "ms_saved (post p st) = ms_saved st" "ms_saved (hand_over h m st) = ms_saved st" "ms_saved (set_peer i f st) = ms_saved st"
  "ms_saved (forward_to i m st x) = ms_saved st" "ms_saved (fst (deliver_to env m q y)) = ms_saved (fst q)"
  by (simp_all add: post_def hand_over_def set_peer_def forward_to_def deliver_to_def split: option.split prod.split)

lemma saved_dispatch [simp]:
  "ms_saved (forward_room_message st r p f t) = ms_saved st" "ms_saved (handle_sync_request w st p r ts) = ms_saved st"
  "ms_saved (fst (handle_gossip w env st p t)) = ms_saved st" "ms_saved (handle_room_message w env st r f t p) = ms_saved st"
  by (auto simp: forward_room_message_def foldl_frame [where g = ms_saved] handle_sync_request_def Let_def handle_gossip_def
      handle_sync_reply_def handle_room_message_def split: option.splits gossip_message.splits prod.splits)

lemma saved_deliver: "foldl (deliver_to env m) p xs = (st, n) \<Longrightarrow> ms_saved st = ms_saved (fst p)"
  using foldl_frame [where g = "\<lambda>p. ms_saved (fst p)" and f = "deliver_to env m" and s = p and xs = xs] by simp

lemma saved_ok_post [simp]: "saved_ok (post p st) = saved_ok st"
  by (rule saved_ok_cong) simp

lemma saved_ok_updates [simp]:
  "saved_ok (set_peer i f st) = saved_ok st" "saved_ok (hand_over h m st) = saved_ok st"
  "saved_ok (st\<lparr>ms_connections := cs\<rparr>) = saved_ok st" "saved_ok (st\<lparr>ms_dialing := ds\<rparr>) = saved_ok st"
  "saved_ok (st\<lparr>ms_used_invites := us\<rparr>) = saved_ok st" "saved_ok (st\<lparr>ms_peers := ps\<rparr>) = saved_ok st"
  by (rule saved_ok_cong; simp)+

lemma saved_ok_recv_failed: "peers_ok st \<Longrightarrow> saved_ok st \<Longrightarrow> saved_ok (recv_failed env i st)"
  by (simp add: recv_failed_def log_defs peers_ok_set_peer)

lemma saved_ok_health:
  assumes "peers_ok st" and "saved_ok st"
  shows "saved_ok (health_tick w env ids st)"
proof -
  have "peers_ok (foldl (probe env) st cs) \<and> saved_ok (foldl (probe env) st cs)" for cs
    using assms
    by (intro foldl_invariant [where P = "\<lambda>st. peers_ok st \<and> saved_ok st"])
      (auto simp: probe_def saved_ok_recv_failed split: prod.split)
  then show ?thesis by (simp add: health_tick_def Let_def)
qed

lemma saved_dispatch_incoming [simp]: "ms_saved (dispatch_incoming w env i st m) = ms_saved st"
  by (cases "(w, env, i, st, m)" rule: dispatch_incoming.cases) simp_all

lemma saved_handlers [simp]:
  "ms_saved (fst (peer_send_handler env st i m)) = ms_saved st" "ms_saved (fst (identity_rotate_handler w k del st)) = ms_saved st"
  "ms_saved (fst (room_create_handler env st name)) = ms_saved st" "ms_saved (fst (room_join_handler st r q)) = ms_saved st"
  "ms_saved (fst (room_send_handler env st r t)) = ms_saved st"
  by (auto simp: peer_send_handler_def identity_rotate_handler_def room_create_handler_def room_join_handler_def
      room_send_handler_def Let_def log_defs saved_deliver split: option.split prod.split sum.split)

lemma saved_ok_outbound [simp]: "saved_ok (fst (outbound_attempt env i st a)) = saved_ok st"
  by (cases a) (simp_all add: Let_def log_defs)

text \<open>What is saved are peers of some state of the run.\<close>

lemma saved_ok_accept:
  assumes "peers_ok (fst (invite_accept_handler w env st code))" and "saved_ok st"
  shows "saved_ok (fst (invite_accept_handler w env st code))"
  using assms by (auto simp: invite_accept_handler_def Let_def split: option.splits if_splits)

lemma saved_ok_inbound:
  assumes "peers_ok (fst (inbound_connected env st q h))" and "saved_ok st"
  shows "saved_ok (fst (inbound_connected env st q h))"
  using assms by (auto simp: inbound_connected_def Let_def log_defs split: if_splits)

lemma saved_ok_disconnect:
  assumes "peers_ok (fst (peer_disconnect_handler env st i))" and "saved_ok st"
  shows "saved_ok (fst (peer_disconnect_handler env st i))"
  using assms by (auto simp: peer_disconnect_handler_def Let_def log_defs split: if_splits)

lemma saved_ok_step:
  assumes "mesh_enabled w st c" and "peers_ok st" and "saved_ok st"
  shows "saved_ok (mesh_step w st c)"
proof -
  have "peers_ok (mesh_step w st c)" by (rule peers_ok_step [OF assms(2,1)])
  then show ?thesis using assms(2,3)
    by (cases c)
      (simp_all add: saved_ok_accept saved_ok_inbound saved_ok_disconnect saved_ok_recv_failed saved_ok_health
        outbound_exhausted_def saved_ok_cong [OF saved_dispatch_incoming] saved_ok_cong [OF saved_handlers(1)]
        saved_ok_cong [OF saved_handlers(2)] saved_ok_cong [OF saved_handlers(3)] saved_ok_cong [OF saved_handlers(4)]
        saved_ok_cong [OF saved_handlers(5)])
qed

text \<open>A daemon that is restarted any number of times. A start that fails ends the run.\<close>

datatype mesh_event = MeshCall mesh_call | MeshRestart boot_env bool

fun mesh_life_step :: "mesh_world \<Rightarrow> mesh option \<Rightarrow> mesh_event \<Rightarrow> mesh option" where
  "mesh_life_step w None e = None"
| "mesh_life_step w (Some st) (MeshCall c) = Some (mesh_step w st c)"
| "mesh_life_step w (Some st) (MeshRestart env opens) =
     (case mesh_restart w env opens st of Inl e \<Rightarrow> None | Inr st' \<Rightarrow> Some st')"

fun mesh_life_enabled :: "mesh_world \<Rightarrow> mesh option \<Rightarrow> mesh_event \<Rightarrow> bool" where
  "mesh_life_enabled w (Some st) (MeshCall c) = mesh_enabled w st c"
| "mesh_life_enabled w s e = True"

definition mesh_life_ok :: "mesh_world \<Rightarrow> mesh option \<Rightarrow> bool" where
  "mesh_life_ok w s = (case s of None \<Rightarrow> True | Some st \<Rightarrow> mesh_ok w st \<and> saved_ok st)"

lemma load_peers_ok: "peers_ok (st\<lparr>ms_peers := load_peers saved\<rparr>) = peers_ok (st\<lparr>ms_peers := case saved of None \<Rightarrow> [] | Some ps \<Rightarrow> ps\<rparr>)"
  by (simp add: peers_ok_def unknown_count_def load_peers_def comp_def filter_map split: option.split)

lemma restart_state:
  assumes "mesh_restart w env opens st = Inr st'"
  shows "ms_peers st' = load_peers (ms_saved st)" "ms_saved st' = ms_saved st" "ms_rooms st' = []"
    "ms_used_invites st' = {}" "ms_connections st' = (\<lambda>_. None)" "ms_store st' = (if opens then ms_store st else None)"
  using assms by (auto simp: mesh_restart_def mesh_boot_def split: prod.splits sum.splits)

lemma restart_ok:
  assumes "mesh_restart w env opens st = Inr st'" and "mesh_ok w st" and "saved_ok st"
  shows "mesh_ok w st' \<and> saved_ok st'"
proof
  have "peers_ok st' = saved_ok st"
    using load_peers_ok [where saved = "ms_saved st"] restart_state [OF assms(1)]
    by (simp add: peers_ok_def unknown_count_def saved_ok_def saved_list_def)
  then show "mesh_ok w st'" using restart_state [OF assms(1)] assms(2,3)
    by (simp add: mesh_ok_def rooms_ok_def history_ok_def)
  show "saved_ok st'" using saved_ok_cong [of st' st] restart_state(2) [OF assms(1)] assms(3) by simp
qed

lemma mesh_ok_peers: "mesh_ok w st \<Longrightarrow> peers_ok st"
  by (simp add: mesh_ok_def)

lemma mesh_life_step_ok:
  assumes "mesh_life_ok w s" and "mesh_life_enabled w s e"
  shows "mesh_life_ok w (mesh_life_step w s e)"
  using assms
proof (cases "(w, s, e)" rule: mesh_life_step.cases)
  case (2 w st c)
  then have "mesh_ok w st" "saved_ok st" "mesh_enabled w st c" using assms by (simp_all add: mesh_life_ok_def)
  then show ?thesis using 2 mesh_step_ok saved_ok_step mesh_ok_peers by (simp add: mesh_life_ok_def)
next
  case (3 w st env opens)
  then have "mesh_ok w st" "saved_ok st" using assms(1) by (simp_all add: mesh_life_ok_def)
  then show ?thesis using 3 restart_ok [of w env opens st] by (simp add: mesh_life_ok_def split: sum.split)
qed simp

lemma mesh_life_run_ok:
  "mesh_life_ok w s \<Longrightarrow> enabled_run (mesh_life_enabled w) (mesh_life_step w) s es \<Longrightarrow> mesh_life_ok w (foldl (mesh_life_step w) s es)"
  by (rule run_invariant [where I = "mesh_life_ok w"]) (rule mesh_life_step_ok)

lemma accept_files: "ms_files (fst (invite_accept_handler w env st code)) = ms_files st"
  by (simp add: invite_accept_handler_def Let_def save_peers_def split: option.split)

text \<open>The used invites are not on disk: after a restart an invite is accepted again, if its peer was removed.\<close>

lemma invite_reusable_after_restart:
  assumes "mesh_restart w env opens st = Inr st'" and "decode_invite w e code = Some iv"
    and "iv_instance iv \<notin> pe_id ` set (saved_list st)" and "\<not> slice_panics (iv_instance iv) 8"
  shows "snd (invite_accept_handler w e st' code) = Reply 200 (iv_instance iv, ''connecting'')"
proof -
  have "pe_id ` set (ms_peers st') = pe_id ` set (saved_list st)"
    by (cases "ms_saved st") (simp_all add: restart_state(1) [OF assms(1)] load_peers_def saved_list_def image_image)
  then show ?thesis using assms(2-4) restart_state(4) [OF assms(1)] by (simp add: invite_accept_handler_def Let_def)
qed

end
