(* ===== verification/Ledger.thy ===== *)
theory Ledger
  imports Decimal
begin

text \<open>
  \<open>crates/agentd/src/ledger.rs\<close>: the hash-chained event ledger of agentd and the incident
  workspaces kept in the same SQLite database. A table is a list of rows in rowid order, so
  \<open>ORDER BY id ASC\<close> is the list itself. SHA-256 with hex encoding is the parameter \<open>H\<close>;
  the clock (\<open>strftime\<close>) and the outcome of BM25 ranking are parameters too. SQL statements of
  one transaction are one step: they commit together or the state is unchanged.
\<close>

named_theorems ledger_simps \<open>rules that evaluate the ledger operations\<close>

section \<open>Rows and state\<close>

record event =
  ev_id :: int
  ev_ts :: string
  ev_type :: string
  ev_actor :: string
  ev_payload :: string
  ev_prev_hash :: string
  ev_hash :: string

record event_filter =
  fl_type :: "string option"
  fl_actor :: "string option"
  fl_limit :: "int option"

record incident_row =
  inc_id :: string
  inc_name :: string
  inc_status :: string
  inc_created_at :: string
  inc_resolved_at :: "string option"

record step_row =
  st_incident :: string
  st_number :: nat
  st_action :: string
  st_result :: string
  st_receipt :: "string option"
  st_timestamp :: string

record fts_row =
  fts_rowid :: int
  fts_type :: string
  fts_actor :: string
  fts_payload :: string

text \<open>\<open>last_rowid\<close> is SQLite's AUTOINCREMENT counter of the events table.\<close>

record ledger =
  events :: "event list"
  last_rowid :: int
  fts :: "fts_row list"
  incidents :: "incident_row list"
  steps :: "step_row list"
  schema_version :: "int option"

datatype ledger_error = SqliteFull | ConstraintViolation

definition genesis_prev_hash :: string where
  "genesis_prev_hash = replicate 64 (CHR ''0'')"

definition max_rowid :: int where
  "max_rowid = 2 ^ 63 - 1"

section \<open>Hashing one row\<close>

definition hash_input :: "int \<Rightarrow> string \<Rightarrow> string \<Rightarrow> string \<Rightarrow> string \<Rightarrow> string \<Rightarrow> string" where
  "hash_input i ts ty actor payload prev =
     dec_int i @ ''|'' @ ts @ ''|'' @ ty @ ''|'' @ actor @ ''|'' @ payload @ ''|'' @ prev"

definition compute_hash ::
  "(string \<Rightarrow> string) \<Rightarrow> int \<Rightarrow> string \<Rightarrow> string \<Rightarrow> string \<Rightarrow> string \<Rightarrow> string \<Rightarrow> string" where
  "compute_hash H i ts ty actor payload prev = H (hash_input i ts ty actor payload prev)"

definition event_input :: "event \<Rightarrow> string" where
  "event_input e =
     hash_input (ev_id e) (ev_ts e) (ev_type e) (ev_actor e) (ev_payload e) (ev_prev_hash e)"

section \<open>Chain operations\<close>

definition last_hash :: "ledger \<Rightarrow> string" where
  "last_hash l = (if events l = [] then genesis_prev_hash else ev_hash (last (events l)))"

text \<open>\<open>append\<close>: insert with an empty hash, read the id and the timestamp back, compute the
  hash and store it. The insert trigger adds the row to the full-text index.\<close>

definition append_event ::
  "(string \<Rightarrow> string) \<Rightarrow> string \<Rightarrow> ledger \<Rightarrow> string \<Rightarrow> string \<Rightarrow> string
    \<Rightarrow> ledger_error + (ledger \<times> event)" where
  "append_event H now l ty actor payload =
     (let prev = last_hash l; i = last_rowid l + 1
      in if max_rowid \<le> last_rowid l then Inl SqliteFull
         else let e = \<lparr>ev_id = i, ev_ts = now, ev_type = ty, ev_actor = actor,
                       ev_payload = payload, ev_prev_hash = prev,
                       ev_hash = compute_hash H i now ty actor payload prev\<rparr>
              in Inr (l\<lparr>events := events l @ [e], last_rowid := i,
                        fts := fts l @ [\<lparr>fts_rowid = i, fts_type = ty, fts_actor = actor,
                                         fts_payload = payload\<rparr>]\<rparr>, e))"

fun verify_from :: "(string \<Rightarrow> string) \<Rightarrow> string \<Rightarrow> event list \<Rightarrow> bool" where
  "verify_from H expected [] = True"
| "verify_from H expected (e # es) =
     (if ev_prev_hash e \<noteq> expected then False
      else if compute_hash H (ev_id e) (ev_ts e) (ev_type e) (ev_actor e) (ev_payload e)
                (ev_prev_hash e) \<noteq> ev_hash e then False
      else verify_from H (ev_hash e) es)"

definition verify :: "(string \<Rightarrow> string) \<Rightarrow> ledger \<Rightarrow> bool" where
  "verify H l = verify_from H genesis_prev_hash (events l)"

definition event_count :: "ledger \<Rightarrow> nat" where
  "event_count l = length (events l)"

text \<open>SQL's \<open>LIMIT\<close>: a negative limit is no limit.\<close>

definition sql_limit :: "int \<Rightarrow> 'a list \<Rightarrow> 'a list" where
  "sql_limit n xs = (if n < 0 then xs else take (nat n) xs)"

definition query :: "ledger \<Rightarrow> event_filter \<Rightarrow> event list" where
  "query l f =
     sql_limit (case fl_limit f of None \<Rightarrow> 50 | Some n \<Rightarrow> n)
       (rev (filter (\<lambda>e. (case fl_type f of None \<Rightarrow> True | Some t \<Rightarrow> ev_type e = t) \<and>
                         (case fl_actor f of None \<Rightarrow> True | Some a \<Rightarrow> ev_actor e = a))
              (events l)))"

section \<open>Migration\<close>

fun rehash_rows :: "(string \<Rightarrow> string) \<Rightarrow> string \<Rightarrow> event list \<Rightarrow> event list" where
  "rehash_rows H prev [] = []"
| "rehash_rows H prev (e # es) =
     (let h = compute_hash H (ev_id e) (ev_ts e) (ev_type e) (ev_actor e) (ev_payload e) prev
      in e\<lparr>ev_prev_hash := prev, ev_hash := h\<rparr> # rehash_rows H h es)"

definition rehash_chain :: "(string \<Rightarrow> string) \<Rightarrow> ledger \<Rightarrow> ledger" where
  "rehash_chain H l = l\<lparr>events := rehash_rows H genesis_prev_hash (events l)\<rparr>"

definition fts_of :: "event \<Rightarrow> fts_row" where
  "fts_of e = \<lparr>fts_rowid = ev_id e, fts_type = ev_type e, fts_actor = ev_actor e,
              fts_payload = ev_payload e\<rparr>"

text \<open>\<open>INSERT OR IGNORE\<close>: a rowid that the index already holds is skipped.\<close>

fun backfill_rows :: "fts_row list \<Rightarrow> event list \<Rightarrow> fts_row list" where
  "backfill_rows idx [] = idx"
| "backfill_rows idx (e # es) =
     backfill_rows (if ev_id e \<in> fts_rowid ` set idx then idx else idx @ [fts_of e]) es"

definition backfill_fts :: "ledger \<Rightarrow> ledger" where
  "backfill_fts l = l\<lparr>fts := backfill_rows (fts l) (events l)\<rparr>"

definition current_schema_version :: int where
  "current_schema_version = 3"

definition migrate :: "(string \<Rightarrow> string) \<Rightarrow> ledger \<Rightarrow> ledger" where
  "migrate H l =
     (let version = (case schema_version l of None \<Rightarrow> 0 | Some v \<Rightarrow> v)
      in if current_schema_version \<le> version then l
         else let l1 = (if version < 2 \<and> 0 < version then rehash_chain H l else l);
                  l2 = (if version < 3 then backfill_fts l1 else l1)
              in (if version < current_schema_version
                  then l2\<lparr>schema_version := Some current_schema_version\<rparr> else l2))"

definition empty_ledger :: ledger where
  "empty_ledger = \<lparr>events = [], last_rowid = 0, fts = [], incidents = [], steps = [],
                   schema_version = None\<rparr>"

definition open_ledger :: "(string \<Rightarrow> string) \<Rightarrow> ledger option \<Rightarrow> ledger" where
  "open_ledger H db = migrate H (case db of None \<Rightarrow> empty_ledger | Some l \<Rightarrow> l)"

section \<open>Full-text queries\<close>

definition fts_safe_char :: "char \<Rightarrow> bool" where
  "fts_safe_char c = (ascii_alnum c \<or> c = CHR ''_'' \<or> c = CHR ''-'' \<or> c = CHR ''.'')"

definition fts_term :: "string \<Rightarrow> string" where
  "fts_term t = (let clean = filter fts_safe_char t
                 in if clean = [] then [] else [CHR 0x22] @ clean @ [CHR 0x22])"

definition sanitize_fts_query :: "string \<Rightarrow> string" where
  "sanitize_fts_query q =
     join '' OR '' (filter (\<lambda>s. s \<noteq> []) (List.map fts_term (split_whitespace q)))"

text \<open>\<open>ranked\<close> is the answer of the FTS5 \<open>MATCH\<close> and \<open>bm25\<close>: rowids with their
  scores, best first.\<close>

definition fts_search ::
  "(string \<Rightarrow> fts_row list \<Rightarrow> (int \<times> int) list) \<Rightarrow> ledger \<Rightarrow> string \<Rightarrow> nat
    \<Rightarrow> (event \<times> int) list" where
  "fts_search ranked l q limit =
     (let fq = sanitize_fts_query q
      in if fq = [] then []
         else take limit (concat (List.map
                (\<lambda>(i, rank). List.map (\<lambda>e. (e, - rank)) (filter (\<lambda>e. ev_id e = i) (events l)))
                (ranked fq (fts l)))))"

section \<open>Incidents\<close>

definition create_incident ::
  "string \<Rightarrow> ledger \<Rightarrow> string \<Rightarrow> string \<Rightarrow> ledger_error + ledger" where
  "create_incident now l i name =
     (if i \<in> inc_id ` set (incidents l) then Inl ConstraintViolation
      else Inr (l\<lparr>incidents := incidents l @
             [\<lparr>inc_id = i, inc_name = name, inc_status = ''open'', inc_created_at = now,
               inc_resolved_at = None\<rparr>]\<rparr>))"

text \<open>\<open>fk\<close> says whether the SQLite build enforces foreign keys.\<close>

definition add_incident_step ::
  "bool \<Rightarrow> string \<Rightarrow> ledger \<Rightarrow> string \<Rightarrow> nat \<Rightarrow> string \<Rightarrow> string \<Rightarrow> string option
    \<Rightarrow> ledger_error + ledger" where
  "add_incident_step fk now l i n action result receipt =
     (if fk \<and> i \<notin> inc_id ` set (incidents l) then Inl ConstraintViolation
      else Inr (l\<lparr>steps := steps l @
             [\<lparr>st_incident = i, st_number = n, st_action = action, st_result = result,
               st_receipt = receipt, st_timestamp = now\<rparr>]\<rparr>))"

definition get_incident_steps :: "ledger \<Rightarrow> string \<Rightarrow> step_row list" where
  "get_incident_steps l i = sort_key st_number (filter (\<lambda>s. st_incident s = i) (steps l))"

definition get_incident :: "ledger \<Rightarrow> string \<Rightarrow> (incident_row \<times> step_row list) option" where
  "get_incident l i =
     (case find_by inc_id i (incidents l) of
        None \<Rightarrow> None
      | Some inc \<Rightarrow> Some (inc, get_incident_steps l (inc_id inc)))"

definition list_incidents :: "ledger \<Rightarrow> string option \<Rightarrow> (incident_row \<times> step_row list) list" where
  "list_incidents l status =
     List.map (\<lambda>inc. (inc, get_incident_steps l (inc_id inc)))
       (rev (sort_key inc_created_at
         (case status of None \<Rightarrow> incidents l
          | Some s \<Rightarrow> filter (\<lambda>r. inc_status r = s) (incidents l))))"

definition resolve_incident :: "string \<Rightarrow> ledger \<Rightarrow> string \<Rightarrow> ledger" where
  "resolve_incident now l i =
     l\<lparr>incidents := List.map (\<lambda>r. if inc_id r = i
         then r\<lparr>inc_status := ''resolved'', inc_resolved_at := Some now\<rparr> else r) (incidents l)\<rparr>"


section \<open>The hash chain\<close>

lemma append_event_Inr:
  "append_event H now l ty actor payload = Inr (l', e) \<Longrightarrow>
   events l' = events l @ [e] \<and> last_rowid l' = last_rowid l + 1 \<and> ev_id e = last_rowid l + 1 \<and>
   ev_ts e = now \<and> ev_type e = ty \<and> ev_actor e = actor \<and> ev_payload e = payload \<and>
   ev_prev_hash e = last_hash l \<and>
   ev_hash e = compute_hash H (ev_id e) now ty actor payload (last_hash l) \<and>
   fts l' = fts l @ [fts_of e] \<and> incidents l' = incidents l \<and> steps l' = steps l \<and>
   schema_version l' = schema_version l"
  by (auto simp: append_event_def Let_def fts_of_def split: if_splits)

lemma append_event_Inl:
  "append_event H now l ty actor payload = Inl err \<longleftrightarrow> max_rowid \<le> last_rowid l \<and> err = SqliteFull"
  by (auto simp: append_event_def Let_def)

lemma verify_from_append:
  "verify_from H p (es @ fs) \<longleftrightarrow>
   verify_from H p es \<and> verify_from H (if es = [] then p else ev_hash (last es)) fs"
  by (induction H p es rule: verify_from.induct) simp_all

lemma verify_from_hash:
  "verify_from H p es \<Longrightarrow> e \<in> set es \<Longrightarrow> ev_hash e = H (event_input e)"
  by (induction H p es rule: verify_from.induct)
     (auto simp: compute_hash_def event_input_def split: if_splits)

lemma verify_from_rehash: "verify_from H p (rehash_rows H p es)"
  by (induction es arbitrary: p) (simp_all add: Let_def)

lemma rehash_rows_id:
  "verify_from H p es \<Longrightarrow> rehash_rows H p es = es"
  by (induction H p es rule: verify_from.induct) (auto simp: Let_def split: if_splits)

lemma rehash_rows_frame:
  "List.map ev_id (rehash_rows H p es) = List.map ev_id es"
  "List.map fts_of (rehash_rows H p es) = List.map fts_of es"
  by (induction es arbitrary: p) (simp_all add: Let_def fts_of_def)

lemma verify_append:
  assumes "verify H l" and "append_event H now l ty actor payload = Inr (l', e)"
  shows "verify H l'"
  using assms(1) append_event_Inr [OF assms(2)]
  by (simp add: verify_def verify_from_append last_hash_def)

lemma verify_take: "verify H l \<Longrightarrow> verify H (l\<lparr>events := take n (events l)\<rparr>)"
  using verify_from_append [of H genesis_prev_hash "take n (events l)" "drop n (events l)"]
  by (simp add: verify_def)

section \<open>What one hash pins down\<close>

definition no_pipe :: "string \<Rightarrow> bool" where
  "no_pipe s = (CHR ''|'' \<notin> set s)"

text \<open>Timestamps, dotted event types and the daemons' actor names hold no pipe; payloads
  (JSON text) may.\<close>

definition clean_event :: "event \<Rightarrow> bool" where
  "clean_event e = (no_pipe (ev_ts e) \<and> no_pipe (ev_type e) \<and> no_pipe (ev_actor e))"

lemma dec_int_no_pipe [simp]: "CHR ''|'' \<notin> set (dec_int i)"
proof
  assume "CHR ''|'' \<in> set (dec_int i)"
  then have "ascii_digit (CHR ''|'') \<or> CHR ''|'' = CHR ''-''" by (rule dec_int_set)
  then show False by (simp add: ascii_digit_def)
qed

lemma hash_input_inj:
  assumes "no_pipe ts" "no_pipe ty" "no_pipe ac" "no_pipe pv"
    and "no_pipe ts'" "no_pipe ty'" "no_pipe ac'" "no_pipe pv'"
    and eq: "hash_input i ts ty ac pl pv = hash_input i' ts' ty' ac' pl' pv'"
  shows "i = i' \<and> ts = ts' \<and> ty = ty' \<and> ac = ac' \<and> pl = pl' \<and> pv = pv'"
proof -
  note np = assms(1-8) [unfolded no_pipe_def]
  from eq have "i = i' \<and> ts @ ''|'' @ ty @ ''|'' @ ac @ ''|'' @ pl @ ''|'' @ pv =
      ts' @ ''|'' @ ty' @ ''|'' @ ac' @ ''|'' @ pl' @ ''|'' @ pv'"
    by (simp add: hash_input_def sep_inj dec_int_inj)
  then have "i = i' \<and> ts = ts' \<and> ty = ty' \<and> ac = ac' \<and> pl @ ''|'' @ pv = pl' @ ''|'' @ pv'"
    using np by (simp add: sep_inj)
  then show ?thesis using np by (simp add: sep_inj_last)
qed

lemma event_input_inj:
  assumes "clean_event e" "clean_event f" "no_pipe (ev_prev_hash e)" "no_pipe (ev_prev_hash f)"
    and "event_input e = event_input f" "ev_hash e = ev_hash f"
  shows "e = f"
  using hash_input_inj [of "ev_ts e" "ev_type e" "ev_actor e" "ev_prev_hash e"
      "ev_ts f" "ev_type f" "ev_actor f" "ev_prev_hash f" "ev_id e" "ev_payload e"
      "ev_id f" "ev_payload f"] assms
  by (simp add: clean_event_def event_input_def)

lemma verify_from_prev_no_pipe:
  assumes "\<And>x. no_pipe (H x)" and "no_pipe p" and "verify_from H p es" and "e \<in> set es"
  shows "no_pipe (ev_prev_hash e)"
  using assms(2-)
proof (induction es arbitrary: p)
  case Nil
  then show ?case by simp
next
  case (Cons d es)
  then have "ev_prev_hash d = p" and "verify_from H (ev_hash d) es"
    and "ev_hash d = H (event_input d)"
    by (auto simp: compute_hash_def event_input_def split: if_splits)
  then show ?case using Cons.IH [of "ev_hash d"] Cons.prems(1,3) assms(1) by auto
qed

text \<open>The rows where two chains disagree although SHA-256 does not: a collision.\<close>

definition row_collision :: "(string \<Rightarrow> string) \<Rightarrow> event list \<Rightarrow> event list \<Rightarrow> bool" where
  "row_collision H es fs =
     (\<exists>i < min (length es) (length fs). event_input (es ! i) \<noteq> event_input (fs ! i) \<and>
        H (event_input (es ! i)) = H (event_input (fs ! i)))"

lemma row_collision_snoc: "row_collision H es fs \<Longrightarrow> length es = length fs \<Longrightarrow>
   row_collision H (es @ [e]) (fs @ [f])"
  unfolding row_collision_def by (force simp: nth_append)

lemma chains_agree:
  assumes hex: "\<And>x. no_pipe (H x)" and p: "no_pipe p"
    and "verify_from H p es" and "verify_from H p fs" and "length es = length fs"
    and "\<forall>e \<in> set es. clean_event e" and "\<forall>f \<in> set fs. clean_event f"
    and "es \<noteq> [] \<Longrightarrow> ev_hash (last es) = ev_hash (last fs)"
  shows "es = fs \<or> row_collision H es fs"
  using assms(3-)
proof (induction es arbitrary: fs rule: rev_induct)
  case Nil
  then show ?case by simp
next
  case (snoc e es)
  from snoc.prems(3) obtain gs f where fs: "fs = gs @ [f]"
    by (cases fs rule: rev_cases) auto
  have len: "length es = length gs" using snoc.prems(3) fs by simp
  have hash: "ev_hash e = ev_hash f" using snoc.prems(6) fs by simp
  have he: "ev_hash e = H (event_input e)" and hf: "ev_hash f = H (event_input f)"
    using verify_from_hash snoc.prems(1,2) fs by auto
  show ?case
  proof (cases "event_input e = event_input f")
    case False
    with he hf hash fs len show ?thesis
      by (auto simp: row_collision_def nth_append intro!: exI [of _ "length gs"])
  next
    case True
    have "no_pipe (ev_prev_hash e)" "no_pipe (ev_prev_hash f)"
      using verify_from_prev_no_pipe [OF hex p] snoc.prems(1,2) fs by auto
    then have ef: "e = f"
      using event_input_inj True hash snoc.prems(4,5) fs by auto
    have v: "verify_from H p es" "verify_from H p gs"
      and prev: "es \<noteq> [] \<Longrightarrow> ev_prev_hash e = ev_hash (last es)"
        "gs \<noteq> [] \<Longrightarrow> ev_prev_hash f = ev_hash (last gs)"
      using snoc.prems(1,2) fs by (auto simp: verify_from_append split: if_splits)
    have "es \<noteq> [] \<Longrightarrow> ev_hash (last es) = ev_hash (last gs)"
      using prev ef len by (metis length_0_conv)
    then have "es = gs \<or> row_collision H es gs"
      using snoc.IH [of gs] v len snoc.prems(4,5) fs by auto
    then show ?thesis using ef fs len row_collision_snoc by auto
  qed
qed


section \<open>Well-formed ledgers\<close>

text \<open>Rows have strictly increasing ids below the AUTOINCREMENT counter, and the full-text index
  holds exactly the rows that the table holds.\<close>

definition ledger_wf :: "ledger \<Rightarrow> bool" where
  "ledger_wf l = (sorted_wrt (<) (List.map ev_id (events l)) \<and>
     (\<forall>e \<in> set (events l). 0 < ev_id e \<and> ev_id e \<le> last_rowid l) \<and>
     0 \<le> last_rowid l \<and> last_rowid l \<le> max_rowid \<and>
     fts l = List.map fts_of (events l))"

lemma empty_ledger_wf: "ledger_wf empty_ledger"
  by (simp add: ledger_wf_def empty_ledger_def max_rowid_def)

lemma append_wf:
  assumes "ledger_wf l" and "append_event H now l ty actor payload = Inr (l', e)"
  shows "ledger_wf l'"
proof -
  have "last_rowid l < max_rowid"
    using assms(2) by (simp add: append_event_def Let_def split: if_splits)
  moreover have "\<forall>e \<in> set (events l). ev_id e \<le> last_rowid l"
    using assms(1) by (simp add: ledger_wf_def)
  ultimately show ?thesis using assms(1) append_event_Inr [OF assms(2)]
    by (force simp: ledger_wf_def sorted_wrt_append)
qed

lemma wf_distinct: "ledger_wf l \<Longrightarrow> distinct (List.map ev_id (events l))"
  by (auto simp: ledger_wf_def strict_sorted_iff)

lemma backfill_rows_complete:
  "ev_id ` set es \<subseteq> fts_rowid ` set (backfill_rows idx es) \<and>
   set idx \<subseteq> set (backfill_rows idx es)"
proof (induction idx es rule: backfill_rows.induct)
  case (2 idx e es)
  let ?idx = "if ev_id e \<in> fts_rowid ` set idx then idx else idx @ [fts_of e]"
  have "ev_id e \<in> fts_rowid ` set ?idx" and "set idx \<subseteq> set ?idx"
    by (auto simp: fts_of_def)
  with 2 show ?case by fastforce
qed simp

lemma backfill_rows_fresh:
  "distinct (List.map ev_id es) \<Longrightarrow> ev_id ` set es \<inter> fts_rowid ` set idx = {} \<Longrightarrow>
   backfill_rows idx es = idx @ List.map fts_of es"
  by (induction es arbitrary: idx) (auto simp: fts_of_def)

lemma migrate_verify:
  assumes "schema_version l = Some 1"
  shows "verify H (migrate H l)"
  using assms
  by (simp add: migrate_def Let_def current_schema_version_def backfill_fts_def rehash_chain_def
      verify_def verify_from_rehash)

lemma migrate_current: "schema_version l = Some v \<Longrightarrow> current_schema_version \<le> v \<Longrightarrow> migrate H l = l"
  by (simp add: migrate_def)

lemma migrate_version:
  "\<exists>v. schema_version (migrate H l) = Some v \<and> current_schema_version \<le> v"
  by (cases "schema_version l")
     (auto simp: migrate_def Let_def current_schema_version_def)

lemma migrate_idem: "migrate H (migrate H l) = migrate H l"
  using migrate_version [of H l] by (auto intro: migrate_current)

lemma migrate_frame:
  "List.map ev_id (events (migrate H l)) = List.map ev_id (events l)"
  "incidents (migrate H l) = incidents l" "steps (migrate H l) = steps l"
  by (simp_all add: migrate_def Let_def rehash_chain_def backfill_fts_def rehash_rows_frame
      split: option.split)

section \<open>Queries\<close>

lemma sql_limit_set: "set (sql_limit n xs) \<subseteq> set xs"
  by (auto simp: sql_limit_def dest: in_set_takeD)

lemma sql_limit_length: "0 \<le> n \<Longrightarrow> length (sql_limit n xs) \<le> nat n"
  by (simp add: sql_limit_def)

lemma sql_limit_full:
  assumes "e \<in> set xs" and "e \<notin> set (sql_limit n xs)"
  shows "int (length (sql_limit n xs)) = n"
proof -
  have n: "0 \<le> n" using assms by (auto simp: sql_limit_def split: if_splits)
  then have "\<not> length xs \<le> nat n" using assms by (auto simp: sql_limit_def)
  with n show ?thesis by (simp add: sql_limit_def)
qed

lemma query_sound: "e \<in> set (query l f) \<Longrightarrow> e \<in> set (events l) \<and>
   (case fl_type f of None \<Rightarrow> True | Some t \<Rightarrow> ev_type e = t) \<and>
   (case fl_actor f of None \<Rightarrow> True | Some a \<Rightarrow> ev_actor e = a)"
  unfolding query_def by (auto dest!: subsetD [OF sql_limit_set])

lemma query_newest_first:
  assumes "ledger_wf l"
  shows "sorted_wrt (>) (List.map ev_id (query l f))"
proof -
  have s: "sorted_wrt (\<lambda>a b. ev_id a < ev_id b) (events l)"
    using assms by (simp add: ledger_wf_def sorted_wrt_map)
  have "sorted_wrt (\<lambda>a b. ev_id b < ev_id a) (rev (filter P (events l)))" for P
    using sorted_wrt_filter [OF s] by (simp add: sorted_wrt_rev)
  then show ?thesis
    by (simp add: query_def sql_limit_def sorted_wrt_map sorted_wrt_take)
qed

lemma fts_term_chars:
  "set (fts_term t) \<subseteq> {c. fts_safe_char c} \<union> {CHR 0x22}"
  by (auto simp: fts_term_def Let_def)

section \<open>Logging as an interface\<close>

text \<open>
  What the daemons' handlers rely on when they write to the ledger: a logging step adds at most
  one row at the end and keeps the ledger valid. The handlers ignore a failed append
  (\<open>let _ = ledger.append(..)\<close>), so a step may also leave the ledger as it was.
\<close>

locale audit_log =
  fixes log_one :: "'s \<Rightarrow> 'entry \<Rightarrow> 's"
    and rows :: "'s \<Rightarrow> 'row list"
    and valid :: "'s \<Rightarrow> bool"
  assumes log_rows: "\<exists>rs. rows (log_one s e) = rows s @ rs \<and> length rs \<le> 1"
    and log_valid: "valid s \<Longrightarrow> valid (log_one s e)"
begin

lemma run_valid: "valid s \<Longrightarrow> valid (foldl log_one s es)"
  by (induction es arbitrary: s) (auto intro: log_valid)

lemma run_extends: "\<exists>rs. rows (foldl log_one s es) = rows s @ rs \<and> length rs \<le> length es"
proof (induction es rule: rev_induct)
  case Nil
  show ?case by simp
next
  case (snoc e es)
  then obtain rs where "rows (foldl log_one s es) = rows s @ rs" "length rs \<le> length es" by blast
  moreover obtain r where "rows (log_one (foldl log_one s es) e) = rows (foldl log_one s es) @ r"
    and "length r \<le> 1" using log_rows by blast
  ultimately show ?case by (intro exI [of _ "rs @ r"]) simp
qed

lemma run_keeps_prefix: "take (length (rows s)) (rows (foldl log_one s es)) = rows s"
  using run_extends [of s es] by auto

end

text \<open>One best-effort append of the API handlers.\<close>

record log_entry =
  le_now :: string
  le_type :: string
  le_actor :: string
  le_payload :: string

definition log_event :: "(string \<Rightarrow> string) \<Rightarrow> ledger \<Rightarrow> log_entry \<Rightarrow> ledger" where
  "log_event H l x =
     (case append_event H (le_now x) l (le_type x) (le_actor x) (le_payload x) of
        Inl _ \<Rightarrow> l
      | Inr (l', _) \<Rightarrow> l')"

definition ledger_ok :: "(string \<Rightarrow> string) \<Rightarrow> ledger \<Rightarrow> bool" where
  "ledger_ok H l = (verify H l \<and> ledger_wf l)"

lemma log_event_cases:
  "log_event H l x = l \<or> (\<exists>l' e. append_event H (le_now x) l (le_type x) (le_actor x)
     (le_payload x) = Inr (l', e) \<and> log_event H l x = l')"
  by (auto simp: log_event_def split: sum.split)

interpretation agent_log: audit_log "log_event H" events "ledger_ok H" for H
proof
  fix s e
  show "\<exists>rs. events (log_event H s e) = events s @ rs \<and> length rs \<le> 1"
    using log_event_cases [of H s e] append_event_Inr by fastforce
next
  fix s e
  assume "ledger_ok H s"
  then show "ledger_ok H (log_event H s e)"
    using log_event_cases [of H s e] verify_append append_wf unfolding ledger_ok_def by metis
qed

lemma log_event_frame:
  "incidents (log_event H l x) = incidents l" "steps (log_event H l x) = steps l"
  "schema_version (log_event H l x) = schema_version l"
  using log_event_cases [of H l x] append_event_Inr by force+

lemma open_fresh_ok: "ledger_ok H (open_ledger H None)"
  by (simp add: ledger_ok_def open_ledger_def migrate_def empty_ledger_def verify_def
      ledger_wf_def current_schema_version_def backfill_fts_def max_rowid_def)

end
