(* ===== verification/Approval.thy ===== *)
theory Approval
  imports Decimal
begin

text \<open>
  \<open>crates/agentd/src/approval.rs\<close>: the approval gate. Which commands count as destructive
  (normalisation, built-in patterns, structured operations, configured patterns, pipe-to-shell),
  the table of approval requests with its life cycle, and the runtime block
  \<open>check_and_reject\<close>. The UUID, the clock and chrono's \<open>now + ttl\<close> are parameters; chrono
  panics when the sum is out of range, which is \<open>None\<close>. The connection is behind a
  \<open>std::sync::Mutex\<close>: a panic under the lock poisons it and every later call panics.
\<close>

section \<open>Patterns\<close>

definition dangerous_commands :: "string list" where
  "dangerous_commands =
    [''rm -rf'', ''mkfs'', ''dd if='', ''wipefs'', ''fdisk'', ''parted'', ''sgdisk'', ''shred'',
     ''> /dev/sd'', ''nix-collect-garbage'', ''nixos-rebuild'', ''systemctl disable'',
     ''systemctl mask'', ''systemctl stop'', ''userdel'', ''groupdel'', ''passwd'', ''chown -R'',
     ''chmod -R'', ''iptables -F'', ''nft flush'', ''reboot'', ''shutdown'', ''poweroff'',
     ''halt'', ''kill -9'', ''pkill'', ''killall'', ''drop database'', ''drop table'',
     ''drop schema'', ''truncate table'', ''0.0.0.0'', ''::0:0:0:0'']"

definition dangerous_operations :: "string list" where
  "dangerous_operations =
    [''nix.rebuild'', ''system.user.create'', ''system.user.delete'', ''system.firewall.modify'',
     ''system.disk.format'', ''system.reboot'', ''system.shutdown'', ''wallet.send'',
     ''wallet.create'', ''switch.begin'']"

definition pipe_to_shell :: "string list" where
  "pipe_to_shell = [''| sh'', ''| bash'', ''|sh'', ''|bash'', ''| /bin/sh'', ''| /bin/bash'']"

section \<open>State\<close>

datatype approval_status = Pending | Approved | Denied | Expired

fun status_text :: "approval_status \<Rightarrow> string" where
  "status_text Pending = ''pending''"
| "status_text Approved = ''approved''"
| "status_text Denied = ''denied''"
| "status_text Expired = ''expired''"

definition parse_status :: "string \<Rightarrow> approval_status" where
  "parse_status s =
     (if s = ''approved'' then Approved
      else if s = ''denied'' then Denied
      else if s = ''expired'' then Expired
      else Pending)"

text \<open>A row of \<open>pending_approvals\<close> (the status is text) and the value read from it.\<close>

record approval_row =
  ar_id :: string
  ar_command :: string
  ar_actor :: string
  ar_reason :: string
  ar_created_at :: timestamp
  ar_expires_at :: timestamp
  ar_status :: string
  ar_decided_at :: "timestamp option"
  ar_decided_by :: "string option"

record pending_approval =
  pa_id :: string
  pa_command :: string
  pa_actor :: string
  pa_reason :: string
  pa_created_at :: timestamp
  pa_expires_at :: timestamp
  pa_status :: approval_status
  pa_decided_at :: "timestamp option"
  pa_decided_by :: "string option"

definition read_row :: "approval_row \<Rightarrow> pending_approval" where
  "read_row r =
     \<lparr>pa_id = ar_id r, pa_command = ar_command r, pa_actor = ar_actor r, pa_reason = ar_reason r,
      pa_created_at = ar_created_at r, pa_expires_at = ar_expires_at r,
      pa_status = parse_status (ar_status r), pa_decided_at = ar_decided_at r,
      pa_decided_by = ar_decided_by r\<rparr>"

record gate =
  gate_rows :: "approval_row list"
  extra_patterns :: "string list"
  poisoned :: bool

datatype gate_error =
    CommandTooLong | ActorTooLong | ReasonTooLong | InsertFailed
  | NotPending | Blocked | IdNotFound | NotApproved approval_status | OtherCommand
  | Panicked

definition new_gate :: "string list \<Rightarrow> gate" where
  "new_gate extras = \<lparr>gate_rows = [], extra_patterns = extras, poisoned = False\<rparr>"

definition default_ttl_secs :: int where
  "default_ttl_secs = 600"

section \<open>Destructive commands\<close>

definition normalize_command :: "string \<Rightarrow> string" where
  "normalize_command cmd =
     (let s = to_lowercase cmd;
          s = remove_char (CHR 0x5C) s;
          s = remove_char (CHR 0x27) s;
          s = remove_char (CHR 0x22) s
      in join '' '' (split_whitespace s))"

definition is_destructive :: "gate \<Rightarrow> string \<Rightarrow> bool" where
  "is_destructive g command =
     (let normalized = normalize_command command;
          lower = to_lowercase command
      in if list_ex (contains normalized) dangerous_commands then True
         else if list_ex (\<lambda>op. lower = op \<or> starts_with lower (op @ ''.'')) dangerous_operations
         then True
         else if list_ex (\<lambda>pattern. let p = to_lowercase pattern
                                    in contains normalized p \<or> lower = p) (extra_patterns g)
         then True
         else list_ex (contains normalized) pipe_to_shell)"

section \<open>Requests and decisions\<close>

definition request_approval ::
  "string \<Rightarrow> timestamp \<Rightarrow> (int \<Rightarrow> timestamp option) \<Rightarrow> gate \<Rightarrow> string \<Rightarrow> string \<Rightarrow> string
    \<Rightarrow> int option \<Rightarrow> gate \<times> (gate_error + pending_approval)" where
  "request_approval uuid now plus_secs g command actor reason ttl_secs =
     (if 4096 < length command then (g, Inl CommandTooLong)
      else if 256 < length actor then (g, Inl ActorTooLong)
      else if 1024 < length reason then (g, Inl ReasonTooLong)
      else if poisoned g then (g, Inl Panicked)
      else case plus_secs (case ttl_secs of None \<Rightarrow> default_ttl_secs | Some t \<Rightarrow> t) of
        None \<Rightarrow> (g\<lparr>poisoned := True\<rparr>, Inl Panicked)
      | Some expires \<Rightarrow>
          (let r = \<lparr>ar_id = uuid, ar_command = command, ar_actor = actor, ar_reason = reason,
                    ar_created_at = now, ar_expires_at = expires, ar_status = ''pending'',
                    ar_decided_at = None, ar_decided_by = None\<rparr>
           in if uuid \<in> ar_id ` set (gate_rows g) then (g, Inl InsertFailed)
              else (g\<lparr>gate_rows := gate_rows g @ [r]\<rparr>,
                    Inr \<lparr>pa_id = uuid, pa_command = command, pa_actor = actor, pa_reason = reason,
                         pa_created_at = now, pa_expires_at = expires, pa_status = Pending,
                         pa_decided_at = None, pa_decided_by = None\<rparr>)))"

definition check_approval :: "gate \<Rightarrow> string \<Rightarrow> gate_error + pending_approval option" where
  "check_approval g i =
     (if poisoned g then Inl Panicked
      else Inr (map_option read_row (find_by ar_id i (gate_rows g))))"

text \<open>\<open>approve\<close> and \<open>deny\<close> differ in the status they write.\<close>

definition decide ::
  "string \<Rightarrow> timestamp \<Rightarrow> gate \<Rightarrow> string \<Rightarrow> string \<Rightarrow> gate \<times> (gate_error + pending_approval)" where
  "decide verdict now g i decided_by =
     (if poisoned g then (g, Inl Panicked)
      else let (rows, n) = sql_update (\<lambda>r. ar_id r = i \<and> ar_status r = ''pending'')
                 (\<lambda>r. r\<lparr>ar_status := verdict, ar_decided_at := Some now,
                        ar_decided_by := Some decided_by\<rparr>) (gate_rows g)
           in if n = 0 then (g, Inl NotPending)
              else case find_by ar_id i rows of
                     None \<Rightarrow> (g\<lparr>gate_rows := rows\<rparr>, Inl IdNotFound)
                   | Some r \<Rightarrow> (g\<lparr>gate_rows := rows\<rparr>, Inr (read_row r)))"

definition approve ::
  "timestamp \<Rightarrow> gate \<Rightarrow> string \<Rightarrow> string \<Rightarrow> gate \<times> (gate_error + pending_approval)" where
  "approve now g i decided_by = decide ''approved'' now g i decided_by"

definition deny ::
  "timestamp \<Rightarrow> gate \<Rightarrow> string \<Rightarrow> string \<Rightarrow> gate \<times> (gate_error + pending_approval)" where
  "deny now g i decided_by = decide ''denied'' now g i decided_by"

definition list_pending :: "gate \<Rightarrow> gate_error + pending_approval list" where
  "list_pending g =
     (if poisoned g then Inl Panicked
      else Inr (List.map read_row (rev (sort_key ar_created_at
             (filter (\<lambda>r. ar_status r = ''pending'') (gate_rows g))))))"

text \<open>SQLite compares the two RFC 3339 texts byte by byte.\<close>

definition expire_stale :: "timestamp \<Rightarrow> gate \<Rightarrow> gate \<times> (gate_error + nat)" where
  "expire_stale now g =
     (if poisoned g then (g, Inl Panicked)
      else let (rows, n) = sql_update (\<lambda>r. ar_status r = ''pending'' \<and> ar_expires_at r < now)
                 (\<lambda>r. r\<lparr>ar_status := ''expired''\<rparr>) (gate_rows g)
           in (g\<lparr>gate_rows := rows\<rparr>, Inr n))"

section \<open>The runtime block\<close>

text \<open>The message of a refusal quotes \<open>&s[..200]\<close>: slicing inside a UTF-8 sequence panics.\<close>

definition truncate_panics :: "string \<Rightarrow> nat \<Rightarrow> bool" where
  "truncate_panics s k = (k < length s \<and> utf8_continuation (s ! k))"

definition check_and_reject :: "gate \<Rightarrow> string \<Rightarrow> string option \<Rightarrow> gate_error + unit" where
  "check_and_reject g command approval_id =
     (if \<not> is_destructive g command then Inr ()
      else let refuse = (if truncate_panics command 200 then Inl Panicked else Inl Blocked)
           in case approval_id of
                None \<Rightarrow> refuse
              | Some i \<Rightarrow>
                  if i = [] then refuse
                  else and_then (check_approval g i) (\<lambda>found.
                    case found of
                      None \<Rightarrow> Inl IdNotFound
                    | Some pending \<Rightarrow>
                        if pa_status pending \<noteq> Approved then Inl (NotApproved (pa_status pending))
                        else if pa_command pending \<noteq> command then Inl OtherCommand
                        else Inr ()))"


section \<open>Normalisation\<close>

lemma parse_status_text [simp]: "parse_status (status_text st) = st"
  by (cases st) (simp_all add: parse_status_def)

definition stripped_char :: "char \<Rightarrow> bool" where
  "stripped_char c = (c = CHR 0x5C \<or> c = CHR 0x27 \<or> c = CHR 0x22)"

lemma normalize_command_eq:
  "normalize_command cmd =
   join '' '' (split_whitespace (filter (\<lambda>c. \<not> stripped_char c) (to_lowercase cmd)))"
proof -
  have "remove_char (CHR 0x22) (remove_char (CHR 0x27) (remove_char (CHR 0x5C) s)) =
      filter (\<lambda>c. \<not> stripped_char c) s" for s
    by (simp add: remove_char_def stripped_char_def conj_commute conj_left_commute)
  then show ?thesis by (simp add: normalize_command_def Let_def)
qed

lemma normalize_chars: "set (normalize_command cmd) \<subseteq> {c. \<not> ascii_upper c}"
proof -
  have "set (normalize_command cmd) \<subseteq> insert (CHR '' '') (set (to_lowercase cmd))"
    unfolding normalize_command_eq
    using set_join [of "'' ''"] set_split_whitespace by fastforce
  moreover have "\<not> ascii_upper (CHR '' '')" by (simp add: ascii_upper_def)
  ultimately show ?thesis using to_lowercase_no_upper by blast
qed

lemma pattern_with_upper_never_matches:
  "\<exists>c \<in> set p. ascii_upper c \<Longrightarrow> \<not> contains (normalize_command cmd) p"
  using normalize_chars [of cmd] contains_set by blast

lemma lower_char_stripped [simp]: "stripped_char c \<Longrightarrow> lower_char c = c"
  by (auto simp: stripped_char_def lower_char_def ascii_upper_def)

lemma normalize_insert_quote:
  "stripped_char q \<Longrightarrow> normalize_command (u @ q # v) = normalize_command (u @ v)"
  by (simp add: normalize_command_eq to_lowercase_def)

lemma normalize_lowercase: "normalize_command (to_lowercase cmd) = normalize_command cmd"
  by (simp add: normalize_command_eq)

text \<open>Runs of white space count as one separator.\<close>

lemma split_whitespace_aux_double:
  "is_whitespace a \<Longrightarrow> is_whitespace b \<Longrightarrow>
   split_whitespace_aux w (u @ a # b # v) = split_whitespace_aux w (u @ a # v)"
  by (induction u arbitrary: w) auto

lemma split_whitespace_aux_swap:
  "is_whitespace a \<Longrightarrow> is_whitespace b \<Longrightarrow>
   split_whitespace_aux w (u @ a # v) = split_whitespace_aux w (u @ b # v)"
  by (induction u arbitrary: w) auto

lemma whitespace_not_stripped [simp]: "is_whitespace a \<Longrightarrow> \<not> stripped_char a"
  by (auto simp: stripped_char_def is_whitespace_def)

lemma whitespace_lower [simp]: "is_whitespace a \<Longrightarrow> lower_char a = a"
  by (auto simp: lower_char_def is_whitespace_def ascii_upper_def)

lemma normalize_double_space:
  "is_whitespace a \<Longrightarrow> is_whitespace b \<Longrightarrow>
   normalize_command (u @ a # b # v) = normalize_command (u @ a # v)"
  by (simp add: normalize_command_eq to_lowercase_def split_whitespace_def
      split_whitespace_aux_double)

lemma normalize_tab:
  "is_whitespace a \<Longrightarrow> is_whitespace b \<Longrightarrow>
   normalize_command (u @ a # v) = normalize_command (u @ b # v)"
  by (simp add: normalize_command_eq to_lowercase_def split_whitespace_def
      split_whitespace_aux_swap [of a b])

text \<open>One evasion step on a command line: another letter case, a quote or backslash put in, white
  space doubled or replaced by other white space.\<close>

inductive disguise :: "string \<Rightarrow> string \<Rightarrow> bool" where
  recase: "to_lowercase c = to_lowercase c' \<Longrightarrow> disguise c c'"
| quote: "stripped_char q \<Longrightarrow> disguise (u @ v) (u @ q # v)"
| space: "is_whitespace a \<Longrightarrow> is_whitespace b \<Longrightarrow> disguise (u @ a # v) (u @ a # b # v)"
| blank: "is_whitespace a \<Longrightarrow> is_whitespace b \<Longrightarrow> disguise (u @ a # v) (u @ b # v)"

lemma disguise_normal: "disguise c c' \<Longrightarrow> normalize_command c' = normalize_command c"
proof (induction rule: disguise.induct)
  case (recase c c')
  then show ?case by (metis normalize_lowercase)
next
  case (quote q u v)
  then show ?case by (rule normalize_insert_quote)
next
  case (space a b u v)
  then show ?case by (rule normalize_double_space)
next
  case (blank a b u v)
  from blank(2,1) show ?case by (rule normalize_tab)
qed

lemma disguises_normal: "disguise\<^sup>*\<^sup>* c c' \<Longrightarrow> normalize_command c' = normalize_command c"
  by (induction rule: rtranclp_induct) (simp_all add: disguise_normal)

lemma is_destructive_pattern:
  "p \<in> set dangerous_commands \<Longrightarrow> contains (normalize_command cmd) p \<Longrightarrow> is_destructive g cmd"
  by (auto simp: is_destructive_def Let_def list_ex_iff)

lemma is_destructive_pipe:
  "p \<in> set pipe_to_shell \<Longrightarrow> contains (normalize_command cmd) p \<Longrightarrow> is_destructive g cmd"
  by (auto simp: is_destructive_def Let_def list_ex_iff)

text \<open>The verdict depends on the configured patterns only.\<close>

lemma is_destructive_extras:
  "extra_patterns g = extra_patterns g' \<Longrightarrow> is_destructive g cmd = is_destructive g' cmd"
  by (simp add: is_destructive_def)

section \<open>The runtime block\<close>

lemma check_and_reject_Inr:
  assumes "check_and_reject g cmd aid = Inr ()" and "is_destructive g cmd"
  obtains i r where "aid = Some i" "i \<noteq> []" "\<not> poisoned g"
    "find_by ar_id i (gate_rows g) = Some r" "ar_status r = ''approved''" "ar_command r = cmd"
  using assms
  by (auto simp: check_and_reject_def Let_def check_approval_def read_row_def and_then_Inr
      parse_status_def split: option.splits if_splits)

lemma check_and_reject_benign: "\<not> is_destructive g cmd \<Longrightarrow> check_and_reject g cmd aid = Inr ()"
  by (simp add: check_and_reject_def)

section \<open>Runs of the gate\<close>

datatype gate_event =
    Request string timestamp "timestamp option" string string string
  | Approve timestamp string string
  | Deny timestamp string string
  | Expire timestamp

text \<open>One call on the shared gate; a request carries the UUID and the expiry it gets.\<close>

fun gate_step :: "gate \<Rightarrow> gate_event \<Rightarrow> gate" where
  "gate_step g (Request uuid now expires command actor reason) =
     fst (request_approval uuid now (\<lambda>_. expires) g command actor reason None)"
| "gate_step g (Approve now i by_whom) = fst (approve now g i by_whom)"
| "gate_step g (Deny now i by_whom) = fst (deny now g i by_whom)"
| "gate_step g (Expire now) = fst (expire_stale now g)"

text \<open>A panic under the lock: no later call does anything but panic, and nothing destructive passes.\<close>

lemma poisoned_step: "poisoned g \<Longrightarrow> gate_step g e = g"
  by (cases e) (simp_all add: request_approval_def approve_def deny_def decide_def expire_stale_def)

lemma poisoned_run: "poisoned g \<Longrightarrow> foldl gate_step g es = g"
  by (induction es) (simp_all add: poisoned_step)

lemma poisoned_refuses: "poisoned g \<Longrightarrow> is_destructive g c \<Longrightarrow> \<not> is_ok (check_and_reject g c i)"
  by (simp add: check_and_reject_def check_approval_def Let_def split: option.split)

definition gate_entry :: "gate \<Rightarrow> string \<Rightarrow> approval_row option" where
  "gate_entry g i = find_by ar_id i (gate_rows g)"

definition row_settled :: "approval_row \<Rightarrow> bool" where
  "row_settled r = (ar_status r \<noteq> ''pending'')"

lemma request_rows:
  "gate_rows (fst (request_approval uuid now ps g command actor reason ttl)) = gate_rows g \<or>
   uuid \<notin> ar_id ` set (gate_rows g) \<and>
   (\<exists>r. ar_id r = uuid \<and> ar_command r = command \<and> ar_status r = ''pending'' \<and>
      gate_rows (fst (request_approval uuid now ps g command actor reason ttl)) =
        gate_rows g @ [r])"
  by (simp add: request_approval_def Let_def split: option.split) blast?

definition settle_row :: "string \<Rightarrow> timestamp \<Rightarrow> string \<Rightarrow> string \<Rightarrow> approval_row \<Rightarrow> approval_row" where
  "settle_row verdict now i who r = (if ar_id r = i \<and> ar_status r = ''pending''
     then r\<lparr>ar_status := verdict, ar_decided_at := Some now, ar_decided_by := Some who\<rparr> else r)"

definition expire_row :: "timestamp \<Rightarrow> approval_row \<Rightarrow> approval_row" where
  "expire_row now r = (if ar_status r = ''pending'' \<and> ar_expires_at r < now
     then r\<lparr>ar_status := ''expired''\<rparr> else r)"

lemma decide_rows:
  "gate_rows (fst (decide verdict now g i who)) =
     (if poisoned g then gate_rows g else List.map (settle_row verdict now i who) (gate_rows g))"
proof -
  have "List.map (settle_row verdict now i who) rs = rs"
    if "\<forall>r \<in> set rs. \<not> (ar_id r = i \<and> ar_status r = ''pending'')" for rs
    using that by (intro map_idI) (auto simp: settle_row_def)
  then show ?thesis
    by (simp add: decide_def sql_update_def Let_def filter_empty_conv settle_row_def [abs_def]
        split: option.split)
qed

lemma expire_rows:
  "gate_rows (fst (expire_stale now g)) =
     (if poisoned g then gate_rows g else List.map (expire_row now) (gate_rows g))"
  by (simp add: expire_stale_def sql_update_def expire_row_def [abs_def])

text \<open>What one step does to the rows: nothing, one new undecided row with a fresh id, or an
  update of undecided rows only, of which only \<open>approve\<close> writes \<open>approved\<close>.\<close>

definition row_change :: "gate_event \<Rightarrow> approval_row \<Rightarrow> approval_row \<Rightarrow> bool" where
  "row_change e r r' = (r' = r \<or> ar_status r = ''pending'' \<and> ar_id r' = ar_id r \<and>
     ar_command r' = ar_command r \<and>
     (ar_status r' = ''approved'' \<longrightarrow> (\<exists>now who. e = Approve now (ar_id r) who)))"

lemma gate_step_cases:
  obtains (same) "gate_rows (gate_step g e) = gate_rows g"
  | (new) r where "gate_rows (gate_step g e) = gate_rows g @ [r]"
      "ar_id r \<notin> ar_id ` set (gate_rows g)" "ar_status r = ''pending''"
      "\<exists>now ex actor reason. e = Request (ar_id r) now ex (ar_command r) actor reason"
  | (upd) f where "gate_rows (gate_step g e) = List.map f (gate_rows g)"
      "\<And>r. row_change e r (f r)"
proof (cases e)
  case (Request uuid now ex cmd actor reason)
  then show ?thesis
    using request_rows [of uuid now "\<lambda>_. ex" g cmd actor reason None] same new by fastforce
next
  case (Approve now i who)
  have "row_change e r (settle_row ''approved'' now i who r)" for r
    by (simp add: row_change_def settle_row_def Approve)
  with Approve show ?thesis
    using upd [of "settle_row ''approved'' now i who"] same by (cases "poisoned g") (simp_all add: approve_def decide_rows)
next
  case (Deny now i who)
  have "row_change e r (settle_row ''denied'' now i who r)" for r
    by (simp add: row_change_def settle_row_def)
  with Deny show ?thesis
    using upd [of "settle_row ''denied'' now i who"] same by (cases "poisoned g") (simp_all add: deny_def decide_rows)
next
  case (Expire now)
  have "row_change e r (expire_row now r)" for r
    by (simp add: row_change_def expire_row_def)
  with Expire show ?thesis
    using upd [of "expire_row now"] same by (cases "poisoned g") (simp_all add: expire_rows)
qed

lemma row_change_id: "row_change e r r' \<Longrightarrow> ar_id r' = ar_id r"
  by (auto simp: row_change_def)

lemma gate_entry_step:
  assumes "gate_entry g i = Some r"
  shows "\<exists>r'. gate_entry (gate_step g e) i = Some r' \<and> row_change e r r'"
proof (cases rule: gate_step_cases [of g e])
  case same
  with assms show ?thesis by (simp add: gate_entry_def row_change_def)
next
  case (new r0)
  with assms show ?thesis
    by (simp add: gate_entry_def find_by_append row_change_def)
next
  case (upd f)
  have "ar_id (f r') = ar_id r'" for r' using upd(2) by (rule row_change_id)
  then have "find_by ar_id i (gate_rows (gate_step g e)) =
      map_option f (find_by ar_id i (gate_rows g))"
    using upd(1) find_by_map [of ar_id f i "gate_rows g"] by simp
  with assms upd(2) show ?thesis by (simp add: gate_entry_def)
qed

lemma gate_settled_step:
  "gate_entry g i = Some r \<Longrightarrow> row_settled r \<Longrightarrow> gate_entry (gate_step g e) i = Some r"
  using gate_entry_step [of g i r e] by (auto simp: row_settled_def row_change_def)

interpretation gate_store: decision_store gate_entry row_settled "\<lambda>_. True" "\<lambda>_ _. True" gate_step
  by unfold_locales (auto simp: gate_settled_step dest: gate_entry_step)

section \<open>Approvals come from an operator\<close>

text \<open>In a run from an empty gate: the request for exactly this command came first, and an
  approval of its id came after it.\<close>

definition requested :: "gate_event list \<Rightarrow> string \<Rightarrow> string \<Rightarrow> bool" where
  "requested es i cmd = (\<exists>now ex actor reason. Request i now ex cmd actor reason \<in> set es)"

definition granted :: "gate_event list \<Rightarrow> string \<Rightarrow> string \<Rightarrow> bool" where
  "granted es i cmd =
     (\<exists>us now who vs. es = us @ Approve now i who # vs \<and> requested us i cmd)"

lemma requested_snoc: "requested es i cmd \<Longrightarrow> requested (es @ [e]) i cmd"
  by (auto simp: requested_def)

lemma granted_snoc: "granted es i cmd \<Longrightarrow> granted (es @ [e]) i cmd"
  unfolding granted_def by fastforce

definition history_ok :: "gate_event list \<Rightarrow> approval_row \<Rightarrow> bool" where
  "history_ok es r = (requested es (ar_id r) (ar_command r) \<and>
     (ar_status r = ''approved'' \<longrightarrow> granted es (ar_id r) (ar_command r)))"

lemma history_ok_snoc: "history_ok es r \<Longrightarrow> history_ok (es @ [e]) r"
  by (auto simp: history_ok_def requested_snoc granted_snoc)

lemma history_ok_change:
  assumes "history_ok es r" and "row_change e r r'"
  shows "history_ok (es @ [e]) r'"
  using assms unfolding row_change_def
  by (auto simp: history_ok_def requested_snoc granted_snoc) (auto simp: granted_def)

lemma run_history:
  assumes "r \<in> set (gate_rows (foldl gate_step (new_gate extras) es))"
  shows "history_ok es r"
  using assms
proof (induction es arbitrary: r rule: rev_induct)
  case Nil
  then show ?case by (simp add: new_gate_def)
next
  case (snoc e es)
  let ?g = "foldl gate_step (new_gate extras) es"
  show ?case
  proof (cases rule: gate_step_cases [of ?g e])
    case same
    then show ?thesis using snoc by (simp add: history_ok_snoc)
  next
    case (new r0)
    have "history_ok (es @ [e]) r0"
      using new(3,4) by (auto simp: history_ok_def requested_def)
    then show ?thesis using new(1) snoc by (auto intro: history_ok_snoc)
  next
    case (upd f)
    then obtain r0 where "r0 \<in> set (gate_rows ?g)" and "r = f r0" using snoc.prems by auto
    then show ?thesis using snoc.IH upd(2) history_ok_change by blast
  qed
qed

lemma run_extras: "extra_patterns (foldl gate_step g es) = extra_patterns g"
proof (induction es arbitrary: g)
  case (Cons e es)
  have "extra_patterns (gate_step g e) = extra_patterns g"
    by (cases e) (simp_all add: request_approval_def approve_def deny_def decide_def
      expire_stale_def sql_update_def Let_def split: option.split)
  then show ?case using Cons by simp
qed simp

end
