(* ===== verification/Sandbox.thy ===== *)
theory Sandbox
  imports Decimal
begin

text \<open>
  \<open>crates/agentd/src/sandbox.rs\<close>: the bubblewrap sandbox and the capability tokens. Parameters:
  \<open>canon\<close> is \<open>std::fs::canonicalize\<close> (\<open>None\<close> when it fails), \<open>exists_path\<close> is
  \<open>Path::exists\<close>, \<open>mac\<close> is HMAC-SHA-256 in hex under the engine's key, \<open>parse_time\<close> is
  chrono's RFC 3339 parser (an instant, or \<open>None\<close>) and \<open>plus_secs\<close> its \<open>now + seconds\<close>
  printed back (\<open>None\<close> where chrono panics). What bubblewrap does with the arguments is outside.
\<close>

section \<open>Data\<close>

datatype ring = Ring1 | Ring2

fun ring_text :: "ring \<Rightarrow> string" where
  "ring_text Ring1 = ''ring1''"
| "ring_text Ring2 = ''ring2''"

record sandbox_config =
  sc_ring :: ring
  sc_capabilities :: "string list"
  sc_timeout_secs :: nat
  sc_memory_limit_mb :: nat
  sc_fs_read :: "string list"
  sc_fs_write :: "string list"
  sc_network :: bool

definition default_config :: sandbox_config where
  "default_config = \<lparr>sc_ring = Ring2, sc_capabilities = [], sc_timeout_secs = 60,
     sc_memory_limit_mb = 512, sc_fs_read = [], sc_fs_write = [], sc_network = False\<rparr>"

record sandbox_result =
  sr_exit_code :: int
  sr_stdout :: string
  sr_stderr :: string
  sr_ring :: ring
  sr_timed_out :: bool

record capability_token =
  ct_id :: string
  ct_granted_to :: string
  ct_permissions :: "string list"
  ct_created_at :: timestamp
  ct_expires_at :: timestamp
  ct_signature :: string

record sandbox_engine =
  hmac_key :: string
  egress_proxy :: string

datatype sandbox_error =
  EmptyPath | NotAbsolute | Traversal | BlockedPath string | SpawnFailed | BadExpiry

section \<open>Bind paths\<close>

definition blocked_prefixes :: "string list" where
  "blocked_prefixes = [''/proc'', ''/sys'', ''/dev'', ''/run'', ''/boot'', ''/etc/shadow'',
     ''/etc/passwd'', ''/etc/sudoers'', ''/root'', ''/nix/store'']"

definition path_blocked :: "string \<Rightarrow> bool" where
  "path_blocked p = list_ex (\<lambda>b. p = b \<or> starts_with p (b @ ''/'')) blocked_prefixes"

definition validate_bind_path :: "(string \<Rightarrow> string option) \<Rightarrow> string \<Rightarrow> sandbox_error + string" where
  "validate_bind_path canon path =
     (if path = [] then Inl EmptyPath
      else if \<not> starts_with path ''/'' then Inl NotAbsolute
      else if contains path ''..'' then Inl Traversal
      else let canonical = (case canon path of None \<Rightarrow> path | Some c \<Rightarrow> c)
           in if path_blocked canonical then Inl (BlockedPath canonical) else Inr canonical)"

section \<open>The bubblewrap command line\<close>

definition system_paths :: "string list" where
  "system_paths = [''/usr'', ''/bin'', ''/lib'', ''/lib64'', ''/etc/resolv.conf'', ''/etc/ssl'',
     ''/etc/hosts'']"

fun bind_args :: "(string \<Rightarrow> string option) \<Rightarrow> string \<Rightarrow> string list \<Rightarrow> string list" where
  "bind_args canon flag [] = []"
| "bind_args canon flag (path # paths) =
     (if path = [] then bind_args canon flag paths
      else case validate_bind_path canon path of
             Inl _ \<Rightarrow> bind_args canon flag paths
           | Inr safe \<Rightarrow> flag # safe # safe # bind_args canon flag paths)"

definition common_args :: "(string \<Rightarrow> bool) \<Rightarrow> string list" where
  "common_args exists_path =
     [''--unshare-all'', ''--die-with-parent'', ''--uid'', ''65534'', ''--gid'', ''65534'',
      ''--ro-bind'', ''/nix/store'', ''/nix/store''] @
     concat (List.map (\<lambda>p. if exists_path p then [''--ro-bind'', p, p] else []) system_paths) @
     [''--proc'', ''/proc'', ''--dev'', ''/dev'']"

definition ring_args ::
  "(string \<Rightarrow> string option) \<Rightarrow> sandbox_engine \<Rightarrow> sandbox_config \<Rightarrow> string list" where
  "ring_args canon eng config =
     (case sc_ring config of
        Ring1 \<Rightarrow>
          [''--tmpfs'', ''/tmp''] @
          bind_args canon ''--ro-bind'' (sc_fs_read config) @
          bind_args canon ''--bind'' (sc_fs_write config) @
          (if sc_network config
           then [''--share-net'', ''--setenv'', ''HTTPS_PROXY'', egress_proxy eng,
                 ''--setenv'', ''HTTP_PROXY'', egress_proxy eng]
           else [])
      | Ring2 \<Rightarrow> [''--tmpfs'', ''/tmp''])"

definition build_bwrap_args ::
  "(string \<Rightarrow> string option) \<Rightarrow> (string \<Rightarrow> bool) \<Rightarrow> sandbox_engine \<Rightarrow> sandbox_config \<Rightarrow> string
    \<Rightarrow> string list" where
  "build_bwrap_args canon exists_path eng config command =
     common_args exists_path @ ring_args canon eng config @
     [''--'', ''/bin/sh'', ''-c'', command]"

section \<open>Execution\<close>

text \<open>What \<open>tokio::time::timeout\<close> around the child process returns.\<close>

datatype process_outcome = TimedOut | Output "int option" string string | SpawnError

definition spawn_sandboxed ::
  "(string list \<Rightarrow> nat \<Rightarrow> process_outcome) \<Rightarrow> (string \<Rightarrow> string option) \<Rightarrow> (string \<Rightarrow> bool)
    \<Rightarrow> sandbox_engine \<Rightarrow> sandbox_config \<Rightarrow> string \<Rightarrow> sandbox_error + sandbox_result" where
  "spawn_sandboxed bwrap canon exists_path eng config command =
     (case bwrap (build_bwrap_args canon exists_path eng config command) (sc_timeout_secs config) of
        TimedOut \<Rightarrow> Inr \<lparr>sr_exit_code = -1, sr_stdout = [],
          sr_stderr = ''sandbox execution timed out after '' @ dec (sc_timeout_secs config) @ ''s'',
          sr_ring = sc_ring config, sr_timed_out = True\<rparr>
      | Output code out err \<Rightarrow> Inr \<lparr>sr_exit_code = (case code of None \<Rightarrow> -1 | Some c \<Rightarrow> c),
          sr_stdout = take 65536 out, sr_stderr = take 65536 err,
          sr_ring = sc_ring config, sr_timed_out = False\<rparr>
      | SpawnError \<Rightarrow> Inl SpawnFailed)"

section \<open>Capability tokens\<close>

definition sign_input :: "string \<Rightarrow> string \<Rightarrow> string list \<Rightarrow> timestamp \<Rightarrow> string" where
  "sign_input i granted_to permissions expires_at =
     i @ ''|'' @ granted_to @ ''|'' @ join '','' permissions @ ''|'' @ expires_at"

text \<open>\<open>ttl_secs as i64\<close>: two's complement.\<close>

definition as_i64 :: "nat \<Rightarrow> int" where
  "as_i64 n = (let m = int n mod 2 ^ 64 in if m < 2 ^ 63 then m else m - 2 ^ 64)"

definition mint_capability ::
  "(string \<Rightarrow> string \<Rightarrow> string) \<Rightarrow> string \<Rightarrow> timestamp \<Rightarrow> (int \<Rightarrow> timestamp option) \<Rightarrow> sandbox_engine
    \<Rightarrow> string \<Rightarrow> string list \<Rightarrow> nat \<Rightarrow> capability_token option" where
  "mint_capability mac uuid now plus_secs eng granted_to permissions ttl_secs =
     (case plus_secs (as_i64 ttl_secs) of
        None \<Rightarrow> None
      | Some expires_at \<Rightarrow>
          Some \<lparr>ct_id = uuid, ct_granted_to = granted_to, ct_permissions = permissions,
                ct_created_at = now, ct_expires_at = expires_at,
                ct_signature = mac (hmac_key eng)
                  (sign_input uuid granted_to permissions expires_at)\<rparr>)"

definition verify_capability ::
  "(string \<Rightarrow> string \<Rightarrow> string) \<Rightarrow> (timestamp \<Rightarrow> int option) \<Rightarrow> int \<Rightarrow> sandbox_engine
    \<Rightarrow> capability_token \<Rightarrow> sandbox_error + bool" where
  "verify_capability mac parse_time now eng token =
     (case parse_time (ct_expires_at token) of
        None \<Rightarrow> Inl BadExpiry
      | Some expires \<Rightarrow>
          if expires < now then Inr False
          else Inr (mac (hmac_key eng) (sign_input (ct_id token) (ct_granted_to token)
                 (ct_permissions token) (ct_expires_at token)) = ct_signature token))"

section \<open>Lemmas\<close>

lemma validate_bind_path_ok:
  "validate_bind_path canon path = Inr p \<Longrightarrow>
   \<not> path_blocked p \<and> starts_with path ''/'' \<and> \<not> contains path ''..'' \<and>
   p = (case canon path of None \<Rightarrow> path | Some c \<Rightarrow> c)"
  by (auto simp: validate_bind_path_def Let_def split: if_splits)

lemma path_blocked_iff:
  "path_blocked p \<longleftrightarrow> (\<exists>b \<in> set blocked_prefixes. p = b \<or> (\<exists>t. p = b @ ''/'' @ t))"
  by (auto simp: path_blocked_def list_ex_iff starts_with_iff)

text \<open>The mounts of a command line, as bubblewrap reads them: options up to \<open>--\<close>, each with
  its number of operands.\<close>

fun mounts :: "string list \<Rightarrow> (string \<times> string \<times> string) list" where
  "mounts (f # a # b # rest) =
     (if f = ''--'' then []
      else if f = ''--ro-bind'' \<or> f = ''--bind'' then (f, a, b) # mounts rest
      else if f = ''--setenv'' then mounts rest
      else if f = ''--uid'' \<or> f = ''--gid'' \<or> f = ''--proc'' \<or> f = ''--dev'' \<or> f = ''--tmpfs''
      then mounts (b # rest)
      else mounts (a # b # rest))"
| "mounts _ = []"

fun shares_net :: "string list \<Rightarrow> bool" where
  "shares_net (f # a # b # rest) =
     (if f = ''--'' then False
      else if f = ''--share-net'' then True
      else if f = ''--ro-bind'' \<or> f = ''--bind'' \<or> f = ''--setenv'' then shares_net rest
      else if f = ''--uid'' \<or> f = ''--gid'' \<or> f = ''--proc'' \<or> f = ''--dev'' \<or> f = ''--tmpfs''
      then shares_net (b # rest)
      else shares_net (a # b # rest))"
| "shares_net _ = False"

definition accepted_paths :: "(string \<Rightarrow> string option) \<Rightarrow> string list \<Rightarrow> string list" where
  "accepted_paths canon paths =
     concat (List.map (\<lambda>p. case validate_bind_path canon p of Inl _ \<Rightarrow> [] | Inr q \<Rightarrow> [q]) paths)"

lemma accepted_paths_Cons:
  "accepted_paths canon (p # ps) =
     (case validate_bind_path canon p of Inl _ \<Rightarrow> [] | Inr q \<Rightarrow> [q]) @ accepted_paths canon ps"
  by (simp add: accepted_paths_def)

lemma accepted_paths_ok: "q \<in> set (accepted_paths canon paths) \<Longrightarrow> \<not> path_blocked q"
  by (auto simp: accepted_paths_def split: sum.splits) (metis validate_bind_path_ok)

lemma bind_args_mounts:
  assumes "flag = ''--ro-bind'' \<or> flag = ''--bind''"
  shows "mounts (bind_args canon flag paths @ rest) =
     List.map (\<lambda>q. (flag, q, q)) (accepted_paths canon paths) @ mounts rest"
proof (induction paths)
  case Nil
  show ?case by (simp add: accepted_paths_def)
next
  case (Cons p ps)
  show ?case
  proof (cases "validate_bind_path canon p")
    case (Inl e)
    with Cons show ?thesis by (simp add: accepted_paths_Cons)
  next
    case (Inr q)
    then have "p \<noteq> []" by (auto simp: validate_bind_path_def)
    with Inr Cons assms show ?thesis by (auto simp: accepted_paths_Cons)
  qed
qed

lemma bind_args_shares_net:
  assumes "flag = ''--ro-bind'' \<or> flag = ''--bind''"
  shows "shares_net (bind_args canon flag paths @ rest) = shares_net rest"
  using assms by (induction paths) (auto split: sum.split)

lemma system_binds:
  "mounts (concat (List.map (\<lambda>p. if ex p then [''--ro-bind'', p, p] else []) ps) @ rest) =
     List.map (\<lambda>p. (''--ro-bind'', p, p)) (filter ex ps) @ mounts rest"
  "shares_net (concat (List.map (\<lambda>p. if ex p then [''--ro-bind'', p, p] else []) ps) @ rest) =
     shares_net rest"
  by (induction ps) auto

lemma common_mounts:
  "mounts (common_args ex @ c # d # rest) =
     (''--ro-bind'', ''/nix/store'', ''/nix/store'') #
     List.map (\<lambda>p. (''--ro-bind'', p, p)) (filter ex system_paths) @ mounts (c # d # rest)"
  by (simp add: common_args_def system_binds)

lemma common_shares_net:
  "shares_net (common_args ex @ c # d # rest) = shares_net (c # d # rest)"
  by (simp add: common_args_def system_binds)

lemma tmpfs_skip:
  "ys \<noteq> [] \<Longrightarrow> mounts (''--tmpfs'' # ''/tmp'' # ys) = mounts ys"
  "ys \<noteq> [] \<Longrightarrow> shares_net (''--tmpfs'' # ''/tmp'' # ys) = shares_net ys"
  by (cases ys; simp)+

lemmas bind_args_rules =
  bind_args_mounts [of "''--ro-bind''"] bind_args_mounts [of "''--bind''"]
  bind_args_shares_net [of "''--ro-bind''"] bind_args_shares_net [of "''--bind''"]

lemmas build_rules =
  build_bwrap_args_def ring_args_def common_mounts common_shares_net tmpfs_skip bind_args_rules

lemma build_mounts:
  "mounts (build_bwrap_args canon ex eng config command) =
     (''--ro-bind'', ''/nix/store'', ''/nix/store'') #
     List.map (\<lambda>p. (''--ro-bind'', p, p)) (filter ex system_paths) @
     (if sc_ring config = Ring1
      then List.map (\<lambda>q. (''--ro-bind'', q, q)) (accepted_paths canon (sc_fs_read config)) @
           List.map (\<lambda>q. (''--bind'', q, q)) (accepted_paths canon (sc_fs_write config))
      else [])"
  by (cases "sc_ring config"; cases "sc_network config") (simp_all add: build_rules)

lemma build_shares_net:
  "shares_net (build_bwrap_args canon ex eng config command) \<longleftrightarrow>
     sc_ring config = Ring1 \<and> sc_network config"
  by (cases "sc_ring config"; cases "sc_network config") (simp_all add: build_rules)

lemma sign_input_inj:
  assumes "CHR ''|'' \<notin> set i" "CHR ''|'' \<notin> set g" "CHR ''|'' \<notin> set t"
    and "CHR ''|'' \<notin> set i'" "CHR ''|'' \<notin> set g'" "CHR ''|'' \<notin> set t'"
    and "sign_input i g ps t = sign_input i' g' ps' t'"
  shows "i = i' \<and> g = g' \<and> join '','' ps = join '','' ps' \<and> t = t'"
proof -
  have "i @ CHR ''|'' # g @ CHR ''|'' # join '','' ps @ CHR ''|'' # t =
      i' @ CHR ''|'' # g' @ CHR ''|'' # join '','' ps' @ CHR ''|'' # t'"
    using assms(7) by (simp add: sign_input_def)
  then show ?thesis
    by (simp add: sep_inj [OF assms(1,4)] sep_inj [OF assms(2,5)] sep_inj_last [OF assms(3,6)])
qed

text \<open>Permission names without commas are determined by the joined text, up to the empty list,
  which joins to the same text as one empty name.\<close>

lemma join_comma_inj:
  assumes "\<forall>x \<in> set xs. CHR '','' \<notin> set x" and "\<forall>x \<in> set ys. CHR '','' \<notin> set x"
    and "xs \<noteq> []" and "ys \<noteq> []" and "join '','' xs = join '','' ys"
  shows "xs = ys"
  using split_on_join [OF assms(3,1)] split_on_join [OF assms(4,2)] assms(5) by metis

end
