(* ===== verification/Agentd.thy ===== *)
theory Agentd
  imports Ledger Approval Sandbox
begin

text \<open>
  The agentd daemon: \<open>crates/agentd/src/state.rs\<close>, \<open>main.rs\<close> (start-up) and the HTTP handlers
  of \<open>crates/agentd/src/api/\<close> that act on the ledger, the approval gate, the sandbox and the
  backups. A handler takes the shared state and a request and returns the new state and a reply;
  it runs under the ledger's mutex, so handlers interleave as whole steps. \<open>js\<close> is
  \<open>serde_json::to_string\<close>, \<open>field\<close> reads a string member of a JSON payload, and a
  \<open>call_env\<close> holds what the clock and the UUID generator gave this call.
\<close>

section \<open>State, replies, environment\<close>

record app =
  app_ledger :: ledger
  app_gate :: "gate option"
  app_engine :: "sandbox_engine option"
  app_backups :: "string list"

record call_env =
  ce_sql_now :: timestamp
  ce_now :: timestamp
  ce_uuid :: string
  ce_plus_secs :: "int \<Rightarrow> timestamp option"

definition log_app ::
  "(string \<Rightarrow> string) \<Rightarrow> call_env \<Rightarrow> app \<Rightarrow> string \<Rightarrow> string \<Rightarrow> string \<Rightarrow> app" where
  "log_app H env st ty actor payload =
     st\<lparr>app_ledger := log_event H (app_ledger st)
        \<lparr>le_now = ce_sql_now env, le_type = ty, le_actor = actor, le_payload = payload\<rparr>\<rparr>"

section \<open>Start-up\<close>

text \<open>\<open>main\<close>: open the ledger, check the chain (a broken chain is only reported), log the
  start, build the gate from the comma-separated patterns.\<close>

definition parse_patterns :: "string \<Rightarrow> string list" where
  "parse_patterns s = filter (\<lambda>p. p \<noteq> []) (List.map trim (split_on (CHR '','') s))"

definition start_daemon ::
  "(string \<Rightarrow> string) \<Rightarrow> call_env \<Rightarrow> ledger option \<Rightarrow> string \<Rightarrow> string \<Rightarrow> bool \<Rightarrow> string \<Rightarrow> bool
    \<Rightarrow> string \<Rightarrow> string \<Rightarrow> app \<times> bool" where
  "start_daemon H env db socket state_dir approval_required patterns sandbox_enabled key proxy =
     (let l = open_ledger H db;
          chain_ok = verify H l;
          l' = log_event H l \<lparr>le_now = ce_sql_now env, le_type = ''daemon.start'',
                 le_actor = ''agentd'',
                 le_payload = ''{'' @ [CHR 0x22] @ ''socket'' @ [CHR 0x22] @ '':'' @ [CHR 0x22] @
                   socket @ [CHR 0x22] @ '','' @ [CHR 0x22] @ ''state_dir'' @ [CHR 0x22] @ '':'' @
                   [CHR 0x22] @ state_dir @ [CHR 0x22] @ ''}''\<rparr>
      in (\<lparr>app_ledger = l',
           app_gate = (if approval_required then Some (new_gate (parse_patterns patterns)) else None),
           app_engine = (if sandbox_enabled
                         then Some \<lparr>hmac_key = key, egress_proxy = proxy\<rparr> else None),
           app_backups = []\<rparr>, chain_ok))"

section \<open>Approval endpoints\<close>

record check_response =
  cr_allow :: bool
  cr_is_destructive :: bool
  cr_reason :: "gate_error option"

text \<open>\<open>why\<close> prints the refusal (\<open>e.to_string()\<close>).\<close>

definition approval_check_command_handler ::
  "(string \<Rightarrow> string) \<Rightarrow> (json \<Rightarrow> string) \<Rightarrow> (gate_error \<Rightarrow> string) \<Rightarrow> call_env \<Rightarrow> app \<Rightarrow> string
    \<Rightarrow> string option \<Rightarrow> app \<times> check_response reply" where
  "approval_check_command_handler H js why env st command approval_id =
     (case app_gate st of
        None \<Rightarrow> (st, Fail 503)
      | Some g \<Rightarrow>
          (let d = is_destructive g command; verdict = check_and_reject g command approval_id
           in if verdict = Inl Panicked then (st, Panic)
              else let allow = is_ok verdict;
                       reason = (case verdict of Inl e \<Rightarrow> Some e | Inr _ \<Rightarrow> None);
                       st' = (if d then log_app H env st ''approval.check'' ''agent''
                                (js (JObj [(''command'', JStr command), (''allow'', JBool allow),
                                   (''approval_id'', jopt approval_id),
                                   (''reason'', jopt (map_option why reason))]))
                              else st)
                   in (st', Reply 200 \<lparr>cr_allow = allow, cr_is_destructive = d,
                                       cr_reason = reason\<rparr>)))"

text \<open>The request endpoint answers either with the stored request or, for a command that is not
  destructive, with \<open>auto_approved\<close>.\<close>

datatype request_answer = AutoApproved | Stored pending_approval

definition approval_request_handler ::
  "(string \<Rightarrow> string) \<Rightarrow> (json \<Rightarrow> string) \<Rightarrow> call_env \<Rightarrow> app \<Rightarrow> string \<Rightarrow> string option \<Rightarrow> string
    \<Rightarrow> int option \<Rightarrow> app \<times> request_answer reply" where
  "approval_request_handler H js env st command actor reason ttl =
     (case app_gate st of
        None \<Rightarrow> (st, Fail 503)
      | Some g \<Rightarrow>
          (let actor' = (case actor of None \<Rightarrow> ''agent'' | Some a \<Rightarrow> a)
           in if \<not> is_destructive g command then (st, Reply 200 AutoApproved)
              else case request_approval (ce_uuid env) (ce_now env) (ce_plus_secs env) g command
                          actor' reason ttl of
                     (g', Inl Panicked) \<Rightarrow> (st\<lparr>app_gate := Some g'\<rparr>, Panic)
                   | (g', Inl _) \<Rightarrow> (st\<lparr>app_gate := Some g'\<rparr>, Fail 500)
                   | (g', Inr approval) \<Rightarrow>
                       (log_app H env (st\<lparr>app_gate := Some g'\<rparr>) ''approval.requested'' actor'
                          (js (JObj [(''approval_id'', JStr (pa_id approval)),
                             (''command'', JStr (pa_command approval)),
                             (''reason'', JStr (pa_reason approval))])),
                        Reply 201 (Stored approval))))"

definition approval_pending_handler :: "app \<Rightarrow> pending_approval list reply" where
  "approval_pending_handler st =
     (case app_gate st of
        None \<Rightarrow> Fail 503
      | Some g \<Rightarrow> (case list_pending g of Inl _ \<Rightarrow> Panic | Inr ps \<Rightarrow> Reply 200 ps))"

definition decision_handler ::
  "(string \<Rightarrow> string) \<Rightarrow> (json \<Rightarrow> string) \<Rightarrow> call_env \<Rightarrow> app \<Rightarrow> string \<Rightarrow> string \<Rightarrow> string \<Rightarrow> string option
    \<Rightarrow> app \<times> pending_approval reply" where
  "decision_handler H js env st verdict event i decided_by =
     (case app_gate st of
        None \<Rightarrow> (st, Fail 503)
      | Some g \<Rightarrow>
          (let who = (case decided_by of None \<Rightarrow> ''user'' | Some w \<Rightarrow> w)
           in case decide verdict (ce_now env) g i who of
                (g', Inl Panicked) \<Rightarrow> (st\<lparr>app_gate := Some g'\<rparr>, Panic)
              | (g', Inl _) \<Rightarrow> (st\<lparr>app_gate := Some g'\<rparr>, Fail 404)
              | (g', Inr approval) \<Rightarrow>
                  (log_app H env (st\<lparr>app_gate := Some g'\<rparr>) event who
                     (js (JObj [(''approval_id'', JStr i), (''command'', JStr (pa_command approval)),
                        (''decided_by'', JStr who)])),
                   Reply 200 approval)))"

definition approval_approve_handler ::
  "(string \<Rightarrow> string) \<Rightarrow> (json \<Rightarrow> string) \<Rightarrow> call_env \<Rightarrow> app \<Rightarrow> string \<Rightarrow> string option
    \<Rightarrow> app \<times> pending_approval reply" where
  "approval_approve_handler H js env st i decided_by =
     decision_handler H js env st ''approved'' ''approval.approved'' i decided_by"

definition approval_deny_handler ::
  "(string \<Rightarrow> string) \<Rightarrow> (json \<Rightarrow> string) \<Rightarrow> call_env \<Rightarrow> app \<Rightarrow> string \<Rightarrow> string option
    \<Rightarrow> app \<times> pending_approval reply" where
  "approval_deny_handler H js env st i decided_by =
     decision_handler H js env st ''denied'' ''approval.denied'' i decided_by"

definition approval_check_handler :: "app \<Rightarrow> string \<Rightarrow> pending_approval reply" where
  "approval_check_handler st i =
     (case app_gate st of
        None \<Rightarrow> Fail 503
      | Some g \<Rightarrow> (case check_approval g i of
                    Inl _ \<Rightarrow> Panic
                  | Inr None \<Rightarrow> Fail 404
                  | Inr (Some p) \<Rightarrow> Reply 200 p))"

text \<open>The background task of \<open>approval.rs\<close>: one tick.\<close>

definition expiry_tick :: "call_env \<Rightarrow> app \<Rightarrow> app" where
  "expiry_tick env st =
     st\<lparr>app_gate := map_option (\<lambda>g. fst (expire_stale (ce_now env) g)) (app_gate st)\<rparr>"

section \<open>Sandbox and capability endpoints\<close>

definition sandbox_exec_config ::
  "string option \<Rightarrow> string list option \<Rightarrow> nat option \<Rightarrow> string list option \<Rightarrow> string list option
    \<Rightarrow> bool option \<Rightarrow> sandbox_config" where
  "sandbox_exec_config ring caps timeout fs_read fs_write network =
     \<lparr>sc_ring = (if ring = Some ''ring1'' then Ring1 else Ring2),
      sc_capabilities = (case caps of None \<Rightarrow> [] | Some c \<Rightarrow> c),
      sc_timeout_secs = (case timeout of None \<Rightarrow> 60 | Some t \<Rightarrow> t),
      sc_memory_limit_mb = 512,
      sc_fs_read = (case fs_read of None \<Rightarrow> [] | Some p \<Rightarrow> p),
      sc_fs_write = (case fs_write of None \<Rightarrow> [] | Some p \<Rightarrow> p),
      sc_network = (case network of None \<Rightarrow> False | Some n \<Rightarrow> n)\<rparr>"

definition sandbox_exec_handler ::
  "(string \<Rightarrow> string) \<Rightarrow> (json \<Rightarrow> string) \<Rightarrow> (string list \<Rightarrow> nat \<Rightarrow> process_outcome)
    \<Rightarrow> (string \<Rightarrow> string option) \<Rightarrow> (string \<Rightarrow> bool) \<Rightarrow> call_env \<Rightarrow> app \<Rightarrow> string \<Rightarrow> sandbox_config
    \<Rightarrow> app \<times> sandbox_result reply" where
  "sandbox_exec_handler H js bwrap canon ex env st command config =
     (case app_engine st of
        None \<Rightarrow> (st, Fail 503)
      | Some eng \<Rightarrow>
          (log_app H env st ''sandbox.exec'' ''agent''
             (js (JObj [(''command'', JStr command), (''ring'', JStr (ring_text (sc_ring config))),
                (''network'', JBool (sc_network config))])),
           (case spawn_sandboxed bwrap canon ex eng config command of
              Inl _ \<Rightarrow> Fail 500
            | Inr r \<Rightarrow> Reply 200 r)))"

definition capability_mint_handler ::
  "(string \<Rightarrow> string) \<Rightarrow> (json \<Rightarrow> string) \<Rightarrow> (string \<Rightarrow> string \<Rightarrow> string) \<Rightarrow> call_env \<Rightarrow> app \<Rightarrow> string
    \<Rightarrow> string list \<Rightarrow> nat option \<Rightarrow> app \<times> capability_token reply" where
  "capability_mint_handler H js mac env st granted_to permissions ttl_secs =
     (case app_engine st of
        None \<Rightarrow> (st, Fail 503)
      | Some eng \<Rightarrow>
          (let ttl = (case ttl_secs of None \<Rightarrow> 3600 | Some t \<Rightarrow> t)
           in case mint_capability mac (ce_uuid env) (ce_now env) (ce_plus_secs env) eng granted_to
                     permissions ttl of
                None \<Rightarrow> (st, Panic)
              | Some token \<Rightarrow>
                  (log_app H env st ''capability.mint'' ''agent''
                     (js (JObj [(''token_id'', JStr (ct_id token)),
                        (''granted_to'', JStr (ct_granted_to token)),
                        (''permissions'', JArr (List.map JStr (ct_permissions token))),
                        (''ttl_secs'', JNum (int ttl))])),
                   Reply 200 token)))"

definition capability_verify_handler ::
  "(string \<Rightarrow> string \<Rightarrow> string) \<Rightarrow> (timestamp \<Rightarrow> int option) \<Rightarrow> int \<Rightarrow> app \<Rightarrow> capability_token
    \<Rightarrow> bool reply" where
  "capability_verify_handler mac parse_time now st token =
     (case app_engine st of
        None \<Rightarrow> Fail 503
      | Some eng \<Rightarrow> (case verify_capability mac parse_time now eng token of
                      Inl _ \<Rightarrow> Fail 400
                    | Inr valid \<Rightarrow> Reply 200 valid))"

end
