(* ===== verification/AgentdHost.thy ===== *)
theory AgentdHost
  imports Agentd Complex_Main
begin

text \<open>
  What agentd reports of its host: \<open>api/health.rs\<close>, \<open>api/system.rs\<close> (queries), \<open>api/discovery.rs\<close> (services found
  from the listening ports and the running units), \<open>api/agent_card.rs\<close>. The output of the commands and what
  the sysinfo crate reads are arguments; CPU shares (\<open>f32\<close>) are rationals.
\<close>

section \<open>System queries\<close>

record process_info =
  pi_pid :: nat
  pi_name :: string
  pi_cpu :: rat
  pi_memory :: nat
  pi_status :: string
  pi_start :: nat

record disk =
  dk_mount :: string
  dk_fs :: string
  dk_total :: nat
  dk_available :: nat

datatype system_answer = Processes "process_info list" | JsonAnswer json

text \<open>\<open>sort_by\<close> in descending order is stable.\<close>

definition sort_desc :: "('a \<Rightarrow> 'k :: linorder) \<Rightarrow> 'a list \<Rightarrow> 'a list" where
  "sort_desc key xs = rev (sort_key key (rev xs))"

definition query_processes :: "process_info list \<Rightarrow> json option \<Rightarrow> process_info list" where
  "query_processes procs args =
     (let sort_by = (case Option.bind (Option.bind args (jget ''sort'')) as_str of None \<Rightarrow> ''cpu'' | Some s \<Rightarrow> s);
          limit = (case Option.bind (Option.bind args (jget ''limit'')) as_unsigned of None \<Rightarrow> 50 | Some n \<Rightarrow> n)
      in take limit (if sort_by = ''memory'' then sort_desc pi_memory procs else sort_desc pi_cpu procs))"

definition query_disk :: "disk list \<Rightarrow> json" where
  "query_disk ds = JArr (List.map (\<lambda>d. JObj [(''mount_point'', JStr (dk_mount d)), (''filesystem'', JStr (dk_fs d)),
     (''total'', JNum (int (dk_total d))), (''used'', JNum (int (dk_total d - dk_available d))),
     (''available'', JNum (int (dk_available d)))]) ds)"

record host_report =
  hr_processes :: "process_info list"
  hr_disks :: "disk list"
  hr_hostname :: "string option"
  hr_uptime :: nat

definition system_query :: "host_report \<Rightarrow> string \<Rightarrow> json option \<Rightarrow> system_answer" where
  "system_query h q args =
     (if q = ''processes'' then Processes (query_processes (hr_processes h) args)
      else if q = ''disk'' then JsonAnswer (query_disk (hr_disks h))
      else if q = ''hostname''
      then JsonAnswer (JObj [(''hostname'', JStr (case hr_hostname h of None \<Rightarrow> ''unknown'' | Some n \<Rightarrow> n))])
      else if q = ''uptime'' then JsonAnswer (JObj [(''uptime_seconds'', JNum (int (hr_uptime h)))])
      else JsonAnswer (JObj [(''error'', JStr (''unknown query: '' @ q))]))"

text \<open>The result is always a value: no query fails, so the branch that hides an error is not reached.\<close>

definition system_query_handler ::
  "(string \<Rightarrow> string) \<Rightarrow> (json \<Rightarrow> string) \<Rightarrow> call_env \<Rightarrow> app \<Rightarrow> host_report \<Rightarrow> string \<Rightarrow> json option \<Rightarrow>
   app \<times> system_answer reply" where
  "system_query_handler H js env st h q args =
     (log_app H env st ''system.query'' ''agentd''
        (js (JObj [(''query'', JStr q), (''args'', (case args of None \<Rightarrow> JNull | Some a \<Rightarrow> a))])),
      Reply 200 (system_query h q args))"

section \<open>Health\<close>

text \<open>What sysinfo reports after a refresh; shares and averages (\<open>f32\<close>, \<open>f64\<close>) are rationals.\<close>

record sys_report =
  sy_cpus :: "rat list"
  sy_memory :: "nat \<times> nat \<times> nat"
  sy_swap :: "nat \<times> nat"
  sy_load :: "rat \<times> rat \<times> rat"
  sy_uptime :: nat
  sy_host :: "string option"
  sy_disks :: "disk list"

record disk_info =
  di_mount :: string
  di_total :: nat
  di_used :: nat
  di_available :: nat

record health_response =
  ht_status :: string
  ht_cpu_usage :: "rat list"
  ht_memory_total :: nat
  ht_memory_used :: nat
  ht_memory_available :: nat
  ht_swap_total :: nat
  ht_swap_used :: nat
  ht_load :: "rat \<times> rat \<times> rat"
  ht_uptime :: nat
  ht_hostname :: string
  ht_disks :: "disk_info list"

definition health_disk :: "disk \<Rightarrow> disk_info" where
  "health_disk d = \<lparr>di_mount = dk_mount d, di_total = dk_total d, di_used = dk_total d - dk_available d,
     di_available = dk_available d\<rparr>"

definition health_handler :: "sys_report \<Rightarrow> health_response" where
  "health_handler r =
     \<lparr>ht_status = ''ok'', ht_cpu_usage = sy_cpus r, ht_memory_total = fst (sy_memory r),
      ht_memory_used = fst (snd (sy_memory r)), ht_memory_available = snd (snd (sy_memory r)),
      ht_swap_total = fst (sy_swap r), ht_swap_used = snd (sy_swap r), ht_load = sy_load r, ht_uptime = sy_uptime r,
      ht_hostname = (case sy_host r of None \<Rightarrow> ''unknown'' | Some h \<Rightarrow> h), ht_disks = List.map health_disk (sy_disks r)\<rparr>"

section \<open>Discovery: parsing\<close>

record listening_entry =
  li_port :: nat
  li_process :: string
  li_pid :: "nat option"

definition parse_ss_process :: "string \<Rightarrow> string \<times> nat option" where
  "parse_ss_process s =
     ((case second_piece (''(('' @ [CHR 0x22]) s of
         None \<Rightarrow> ''unknown''
       | Some n \<Rightarrow> takeWhile (\<lambda>c. c \<noteq> CHR 0x22) n),
      Option.bind (second_piece ''pid='' s) (\<lambda>p. parse_uint 32 (takeWhile ascii_digit p)))"

definition parse_ss_line :: "string \<Rightarrow> listening_entry option" where
  "parse_ss_line l =
     (let cols = split_whitespace l
      in if length cols < 6 then None
         else case parse_uint 16 (last (split_on (CHR '':'') (cols ! 3))) of
                None \<Rightarrow> None
              | Some port \<Rightarrow> (case parse_ss_process (last cols) of
                                (name, pid) \<Rightarrow> Some \<lparr>li_port = port, li_process = name, li_pid = pid\<rparr>))"

definition parse_ss_output :: "string \<Rightarrow> listening_entry list" where
  "parse_ss_output out = List.map_filter parse_ss_line (drop 1 (lines_of out))"

definition parse_systemctl_line :: "string \<Rightarrow> string option" where
  "parse_systemctl_line l =
     (case split_whitespace l of
        [] \<Rightarrow> None
      | u # _ \<Rightarrow> if ends_with u ''.service'' then Some u else None)"

definition parse_systemctl_output :: "string \<Rightarrow> string list" where
  "parse_systemctl_output out = List.map_filter parse_systemctl_line (lines_of out)"

definition known_services :: "(string list \<times> string) list" where
  "known_services =
     [([''nginx''], ''nginx''), ([''apache'', ''httpd''], ''apache''), ([''postgres'', ''postmaster''], ''postgresql''),
      ([''mysql'', ''mariadbd'', ''mysqld''], ''mysql''), ([''redis-server'', ''redis''], ''redis''),
      ([''node'', ''nodejs'', ''next-server'', ''npm''], ''node''),
      ([''python'', ''python3'', ''gunicorn'', ''uvicorn''], ''python''), ([''sshd''], ''ssh''),
      ([''docker'', ''dockerd'', ''containerd''], ''docker''), ([''agentd''], ''osmoda-agentd''),
      ([''openclaw''], ''osmoda-gateway''), ([''cloudflared''], ''cloudflare-tunnel''), ([''tailscaled''], ''tailscale'')]"

definition detect_service_type :: "string \<Rightarrow> string option" where
  "detect_service_type name =
     map_option snd (List.find (\<lambda>(ps, label). list_ex (contains (to_lowercase name)) ps) known_services)"

definition guess_health_url :: "nat \<Rightarrow> string option \<Rightarrow> string option" where
  "guess_health_url port detected =
     (if detected = Some ''nginx'' \<or> detected = Some ''apache'' then Some (''http://127.0.0.1:'' @ dec port @ ''/'')
      else if detected = Some ''osmoda-agentd'' then Some ''http://localhost/health (unix socket)''
      else if detected = Some ''redis'' then None
      else if detected = Some ''postgresql'' \<or> detected = Some ''mysql'' \<or> detected = Some ''ssh'' then None
      else if port = 80 \<or> port = 443 \<or> port = 8080 \<or> port = 3000 then Some (''http://127.0.0.1:'' @ dec port @ ''/'')
      else None)"

section \<open>Discovery: merging\<close>

record discovered_service =
  ds_name :: string
  ds_pid :: "nat option"
  ds_port :: "nat option"
  ds_protocol :: "string option"
  ds_detected :: "string option"
  ds_health_url :: "string option"
  ds_unit :: "string option"
  ds_memory :: "nat option"
  ds_cpu :: "rat option"

definition unit_of :: "string list \<Rightarrow> listening_entry \<Rightarrow> string option" where
  "unit_of units e =
     List.find (\<lambda>u. (case li_pid e of None \<Rightarrow> False | Some pid \<Rightarrow> contains u (dec pid)) \<or>
       contains (to_lowercase u) (to_lowercase (li_process e))) units"

text \<open>\<open>proc\<close>: memory and CPU share of a process.\<close>

definition listening_service :: "(nat \<Rightarrow> (nat \<times> rat) option) \<Rightarrow> string list \<Rightarrow> listening_entry \<Rightarrow> discovered_service" where
  "listening_service proc units e =
     (let detected = detect_service_type (li_process e); usage = Option.bind (li_pid e) proc
      in \<lparr>ds_name = li_process e, ds_pid = li_pid e, ds_port = Some (li_port e), ds_protocol = Some ''tcp'',
          ds_detected = detected, ds_health_url = guess_health_url (li_port e) detected, ds_unit = unit_of units e,
          ds_memory = map_option fst usage, ds_cpu = map_option snd usage\<rparr>)"

definition strip_service :: "string \<Rightarrow> string" where
  "strip_service u = (if ends_with u ''.service'' then take (length u - length ''.service'') u else u)"

definition unit_service :: "string \<Rightarrow> discovered_service" where
  "unit_service u = \<lparr>ds_name = strip_service u, ds_pid = None, ds_port = None, ds_protocol = None, ds_detected = None,
     ds_health_url = None, ds_unit = Some u, ds_memory = None, ds_cpu = None\<rparr>"

definition add_unit :: "discovered_service list \<Rightarrow> string \<Rightarrow> discovered_service list" where
  "add_unit services u =
     (if list_ex (\<lambda>s. ds_unit s = Some u) services then services else services @ [unit_service u])"

definition discover :: "(nat \<Rightarrow> (nat \<times> rat) option) \<Rightarrow> listening_entry list \<Rightarrow> string list \<Rightarrow> discovered_service list" where
  "discover proc listening units = foldl add_unit (List.map (listening_service proc units) listening) units"

text \<open>A command that cannot be run counts as empty output.\<close>

definition system_discover_handler ::
  "(string \<Rightarrow> string) \<Rightarrow> (json \<Rightarrow> string) \<Rightarrow> call_env \<Rightarrow> app \<Rightarrow> (nat \<Rightarrow> (nat \<times> rat) option) \<Rightarrow> string \<Rightarrow> string \<Rightarrow>
   app \<times> (discovered_service list \<times> nat \<times> nat) reply" where
  "system_discover_handler H js env st proc ss_out units_out =
     (let listening = parse_ss_output ss_out; units = parse_systemctl_output units_out; found = discover proc listening units
      in (log_app H env st ''system.discover'' ''agentd''
            (js (JObj [(''services_found'', JNum (int (length found))), (''listening_ports'', JNum (int (length listening))),
               (''systemd_services'', JNum (int (length units)))])),
          Reply 200 (found, length listening, length units)))"

section \<open>Agent card\<close>

record agent_service =
  as_name :: string
  as_endpoint :: string
  as_version :: "string option"

record agent_card =
  ac_type :: string
  ac_name :: string
  ac_description :: string
  ac_image :: "string option"
  ac_services :: "agent_service list"
  ac_active :: bool
  ac_trust :: "string list"

definition card_type :: string where
  "card_type = ''https://eips.ethereum.org/EIPS/eip-8004#registration-v1''"

definition default_services :: "agent_service list" where
  "default_services =
     [\<lparr>as_name = ''mcp'', as_endpoint = ''unix:///run/osmoda/agentd.sock'', as_version = Some ''1.0''\<rparr>,
      \<lparr>as_name = ''wallet.sign'', as_endpoint = ''unix:///run/osmoda/keyd.sock'', as_version = Some ''1.0''\<rparr>,
      \<lparr>as_name = ''safeswitch'', as_endpoint = ''unix:///run/osmoda/watch.sock'', as_version = Some ''1.0''\<rparr>]"

definition default_card :: agent_card where
  "default_card = \<lparr>ac_type = card_type, ac_name = ''osModa'',
     ac_description = ''AI-native OS agent '' @ [CHR 0xE2, CHR 0x80, CHR 0x94] @ '' full system access with auditable safety'',
     ac_image = None, ac_services = default_services, ac_active = True, ac_trust = [''eip-8004'', ''hash-chain-ledger'']\<rparr>"

text \<open>\<open>file\<close>: the text of the card file, if there is one that can be read; \<open>parse\<close> and \<open>print\<close> are serde_json.\<close>

definition agent_card_handler :: "(string \<Rightarrow> agent_card option) \<Rightarrow> string option \<Rightarrow> agent_card" where
  "agent_card_handler parse file =
     (case Option.bind file parse of None \<Rightarrow> default_card | Some c \<Rightarrow> c)"

definition generate_card :: "string \<Rightarrow> string \<Rightarrow> agent_service list \<Rightarrow> agent_card" where
  "generate_card name description services =
     \<lparr>ac_type = card_type, ac_name = name, ac_description = description, ac_image = None,
      ac_services = (if services = [] then default_services else services), ac_active = True,
      ac_trust = [''eip-8004'', ''hash-chain-ledger'']\<rparr>"

definition agent_card_generate_handler ::
  "(string \<Rightarrow> string) \<Rightarrow> (json \<Rightarrow> string) \<Rightarrow> (agent_card \<Rightarrow> string) \<Rightarrow> bool \<Rightarrow> call_env \<Rightarrow> app \<Rightarrow> string option \<Rightarrow>
   string \<Rightarrow> string \<Rightarrow> agent_service list \<Rightarrow> app \<times> string option \<times> agent_card reply" where
  "agent_card_generate_handler H js print io env st file name description services =
     (let card = generate_card name description services
      in if \<not> io then (st, file, Fail 500)
         else (log_app H env st ''agent.card.generate'' ''agentd''
                 (js (JObj [(''name'', JStr (ac_name card)), (''services'', JNum (int (length (ac_services card))))])),
               Some (print card), Reply 200 card))"

lemmas host_defs = system_query_handler_def system_discover_handler_def agent_card_generate_handler_def

lemma card_roundtrip:
  assumes "\<And>c. parse (print c) = Some c"
    and "agent_card_generate_handler H js print io env st file name description services = (st', file', Reply 200 crd)"
  shows "agent_card_handler parse file' = crd"
  using assms by (auto simp: agent_card_generate_handler_def Let_def agent_card_handler_def split: if_splits)

section \<open>What discovery lists\<close>

text \<open>The process column as \<open>ss\<close> prints it is read back.\<close>

definition ss_process :: "string \<Rightarrow> nat \<Rightarrow> string \<Rightarrow> string" where
  "ss_process name pid rest = ''users:(('' @ [CHR 0x22] @ name @ [CHR 0x22] @ '',pid='' @ dec pid @ '','' @ rest"

lemma add_units_facts:
  "(\<exists>xs. foldl add_unit ss us = ss @ List.map unit_service xs \<and> set xs \<subseteq> set us) \<and>
   (\<forall>u \<in> set us. \<exists>s \<in> set (foldl add_unit ss us). ds_unit s = Some u)"
proof (induction us rule: rev_induct)
  case Nil
  have "foldl add_unit ss [] = ss @ List.map unit_service []" by simp
  then show ?case by (metis empty_iff empty_set subset_refl)
next
  case (snoc u us)
  then obtain xs where xs: "foldl add_unit ss us = ss @ List.map unit_service xs" "set xs \<subseteq> set us" by blast
  show ?case
  proof (cases "list_ex (\<lambda>s. ds_unit s = Some u) (foldl add_unit ss us)")
    case True
    then have "foldl add_unit ss (us @ [u]) = foldl add_unit ss us" by (simp add: add_unit_def)
    moreover have "\<exists>s \<in> set (foldl add_unit ss us). ds_unit s = Some u" using True by (simp add: list_ex_iff)
    ultimately show ?thesis using snoc xs by (intro conjI exI [of _ xs]) auto
  next
    case False
    have e: "foldl add_unit ss (us @ [u]) = foldl add_unit ss us @ [unit_service u]"
      using False by (simp add: add_unit_def)
    have "foldl add_unit ss (us @ [u]) = ss @ List.map unit_service (xs @ [u])" using xs e by simp
    moreover have "set (xs @ [u]) \<subseteq> set (us @ [u])" using xs by auto
    moreover have "\<exists>s \<in> set (foldl add_unit ss (us @ [u])). ds_unit s = Some v" if v: "v \<in> set (us @ [u])" for v
    proof (cases "v = u")
      case True
      then show ?thesis unfolding e by (simp add: unit_service_def)
    next
      case False
      then have "\<exists>s \<in> set (foldl add_unit ss us). ds_unit s = Some v" using v snoc by simp
      then show ?thesis unfolding e by auto
    qed
    ultimately show ?thesis by blast
  qed
qed

lemma discover_split:
  obtains xs where "discover proc listening units = List.map (listening_service proc units) listening @ List.map unit_service xs"
    and "set xs \<subseteq> set units"
  using add_units_facts [of "List.map (listening_service proc units) listening" units] by (auto simp: discover_def)

lemma discover_unit: "u \<in> set units \<Longrightarrow> \<exists>s \<in> set (discover proc listening units). ds_unit s = Some u"
  using add_units_facts [of "List.map (listening_service proc units) listening" units] by (simp add: discover_def)

text \<open>The text after the first occurrence of a pattern that the text before does not contain part of.\<close>

lemma find_sub_at: "\<not> contains (a @ butlast p) p \<Longrightarrow> p \<noteq> [] \<Longrightarrow> find_sub p (a @ p @ b) = Some (a, b)"
proof (induction a)
  case Nil
  then obtain c q where p: "p = c # q" by (cases p) auto
  have "starts_with (p @ b) p" by (simp add: starts_with_iff)
  then show ?case by (simp add: p)
next
  case (Cons c a)
  have "\<not> starts_with (c # a @ p @ b) p"
  proof
    assume "starts_with (c # a @ p @ b) p"
    then have "take (length p) (c # a @ p @ b) = p" by (auto simp: starts_with_iff)
    moreover have "take (length p) (c # a @ p @ b) = take (length p) (c # a @ butlast p)"
      using Cons.prems(2) by (cases p rule: rev_cases) simp_all
    ultimately have "starts_with (c # a @ butlast p) p"
      by (metis append_take_drop_id starts_with_iff)
    then show False using Cons.prems(1) by simp
  qed
  moreover have "\<not> contains (a @ butlast p) p" using Cons.prems(1) by simp
  ultimately show ?case using Cons.IH Cons.prems(2) by simp
qed

end
