(* ===== verification/AgentdRecords.thy ===== *)
theory AgentdRecords
  imports AgentdHost
begin

text \<open>
  The record-keeping endpoints of agentd: \<open>api/receipts.rs\<close> (receipts and incident workspaces),
  \<open>api/events.rs\<close>, \<open>api/memory.rs\<close> and \<open>api/backup.rs\<close>, with the lemmas about them. Relevance
  scores are kept as a fraction (numerator and denominator) where the code divides floats.
\<close>

section \<open>Incident workspaces\<close>

definition incident_create_handler ::
  "(string \<Rightarrow> string) \<Rightarrow> (json \<Rightarrow> string) \<Rightarrow> call_env \<Rightarrow> app \<Rightarrow> string
    \<Rightarrow> app \<times> (incident_row \<times> step_row list) reply" where
  "incident_create_handler H js env st name =
     (case create_incident (ce_sql_now env) (app_ledger st) (ce_uuid env) name of
        Inl _ \<Rightarrow> (st, Fail 500)
      | Inr l \<Rightarrow>
          (let st' = log_app H env (st\<lparr>app_ledger := l\<rparr>) ''incident.create'' ''agentd''
                 (js (JObj [(''incident_id'', JStr (ce_uuid env)), (''name'', JStr name)]))
           in (st', case get_incident (app_ledger st') (ce_uuid env) of
                      None \<Rightarrow> Fail 500
                    | Some inc \<Rightarrow> Reply 200 inc)))"

definition incident_step_handler ::
  "(string \<Rightarrow> string) \<Rightarrow> (json \<Rightarrow> string) \<Rightarrow> bool \<Rightarrow> call_env \<Rightarrow> app \<Rightarrow> string \<Rightarrow> string \<Rightarrow> string
    \<Rightarrow> string option \<Rightarrow> app \<times> (incident_row \<times> step_row list) reply" where
  "incident_step_handler H js fk env st incident_id action result receipt =
     (case get_incident (app_ledger st) incident_id of
        None \<Rightarrow> (st, Fail 404)
      | Some (inc, steps0) \<Rightarrow>
          (let n = wrapping_add_w 32 (length steps0) 1
           in case add_incident_step fk (ce_sql_now env) (app_ledger st) incident_id n action result
                     receipt of
                Inl _ \<Rightarrow> (st, Fail 500)
              | Inr l \<Rightarrow>
                  (let st' = log_app H env (st\<lparr>app_ledger := l\<rparr>) ''incident.step'' ''agentd''
                         (js (JObj [(''incident_id'', JStr incident_id), (''step_number'', JNum (int n)),
                            (''action'', JStr action), (''result'', JStr result)]))
                   in (st', case get_incident (app_ledger st') incident_id of
                              None \<Rightarrow> Fail 500
                            | Some inc' \<Rightarrow> Reply 200 inc'))))"

definition incident_get_handler :: "app \<Rightarrow> string \<Rightarrow> (incident_row \<times> step_row list) reply" where
  "incident_get_handler st i =
     (case get_incident (app_ledger st) i of None \<Rightarrow> Fail 404 | Some inc \<Rightarrow> Reply 200 inc)"

definition incidents_list_handler ::
  "app \<Rightarrow> string option \<Rightarrow> (incident_row \<times> step_row list) list reply" where
  "incidents_list_handler st status = Reply 200 (list_incidents (app_ledger st) status)"

section \<open>Receipts and events\<close>

record receipt =
  rc_id :: string
  rc_event_id :: int
  rc_type :: string
  rc_actor :: string
  rc_summary :: string
  rc_timestamp :: string
  rc_reversible :: bool
  rc_undo :: "string option"

definition make_receipt :: "(string \<Rightarrow> string \<Rightarrow> string option) \<Rightarrow> event \<Rightarrow> receipt" where
  "make_receipt field e =
     \<lparr>rc_id = ''receipt-'' @ dec_int (ev_id e), rc_event_id = ev_id e, rc_type = ev_type e,
      rc_actor = ev_actor e,
      rc_summary = (case field (ev_payload e) ''summary'' of
          Some s \<Rightarrow> s
        | None \<Rightarrow> (case field (ev_payload e) ''content'' of Some s \<Rightarrow> s | None \<Rightarrow> ev_type e)),
      rc_timestamp = ev_ts e,
      rc_reversible = (contains (ev_type e) ''switch'' \<or> contains (ev_type e) ''send''),
      rc_undo = (if contains (ev_type e) ''switch.commit'' then Some ''switch.rollback'' else None)\<rparr>"

definition receipts_handler ::
  "(string \<Rightarrow> string \<Rightarrow> string option) \<Rightarrow> app \<Rightarrow> string option \<Rightarrow> string option \<Rightarrow> int option
    \<Rightarrow> receipt list reply" where
  "receipts_handler field st receipt_type since limit =
     Reply 200 (List.map (make_receipt field)
       (filter (\<lambda>e. case since of None \<Rightarrow> True | Some t \<Rightarrow> \<not> ev_ts e < t)
         (query (app_ledger st) \<lparr>fl_type = receipt_type, fl_actor = None,
            fl_limit = Some (min (case limit of None \<Rightarrow> 50 | Some n \<Rightarrow> n) 500)\<rparr>)))"

definition events_log_handler ::
  "app \<Rightarrow> string option \<Rightarrow> string option \<Rightarrow> int option \<Rightarrow> event list reply" where
  "events_log_handler st ty actor limit =
     Reply 200 (query (app_ledger st) \<lparr>fl_type = ty, fl_actor = actor,
       fl_limit = Some (case limit of None \<Rightarrow> 50 | Some n \<Rightarrow> n)\<rparr>)"

section \<open>Memory\<close>

definition memory_ingest_handler ::
  "(string \<Rightarrow> string) \<Rightarrow> (json \<Rightarrow> string) \<Rightarrow> call_env \<Rightarrow> app \<Rightarrow> string option \<Rightarrow> string \<Rightarrow> string option
    \<Rightarrow> string list option \<Rightarrow> json \<Rightarrow> app \<times> int reply" where
  "memory_ingest_handler H js env st source content category tags metadata =
     (let payload = js (JObj [(''source'', jopt source), (''content'', JStr content),
            (''category'', jopt category), (''tags'', jarr tags), (''metadata'', metadata)]);
          actor = (case source of None \<Rightarrow> ''unknown'' | Some s \<Rightarrow> s)
      in case append_event H (ce_sql_now env) (app_ledger st) ''memory.ingest'' actor payload of
           Inl _ \<Rightarrow> (st, Fail 500)
         | Inr (l, e) \<Rightarrow> (st\<lparr>app_ledger := l\<rparr>, Reply 200 (ev_id e)))"

definition memory_store_handler ::
  "(string \<Rightarrow> string) \<Rightarrow> (json \<Rightarrow> string) \<Rightarrow> call_env \<Rightarrow> app \<Rightarrow> string \<Rightarrow> string option \<Rightarrow> string option
    \<Rightarrow> string list option \<Rightarrow> app \<times> int reply" where
  "memory_store_handler H js env st summary detail category tags =
     (let payload = js (JObj [(''summary'', JStr summary), (''detail'', jopt detail),
            (''category'', jopt category), (''tags'', jarr tags)])
      in case append_event H (ce_sql_now env) (app_ledger st) ''memory.store'' ''agentd'' payload of
           Inl _ \<Rightarrow> (st, Fail 500)
         | Inr (l, e) \<Rightarrow> (st\<lparr>app_ledger := l\<rparr>, Reply 200 (ev_id e)))"

record memory_health =
  mm_status :: string
  mm_count :: nat
  mm_dir :: string

definition memory_health_handler :: "string \<Rightarrow> app \<Rightarrow> memory_health" where
  "memory_health_handler state_dir st =
     \<lparr>mm_status = ''ok'', mm_count = event_count (app_ledger st), mm_dir = state_dir\<rparr>"

record memory_chunk =
  mc_id :: int
  mc_ts :: string
  mc_content :: string
  mc_category :: "string option"
  mc_relevance :: "int \<times> int"

definition make_chunk ::
  "(string \<Rightarrow> string \<Rightarrow> string option) \<Rightarrow> int \<times> int \<Rightarrow> event \<Rightarrow> memory_chunk" where
  "make_chunk field rel e =
     \<lparr>mc_id = ev_id e, mc_ts = ev_ts e,
      mc_content = (case field (ev_payload e) ''content'' of
          Some s \<Rightarrow> s
        | None \<Rightarrow> (case field (ev_payload e) ''detail'' of
            Some s \<Rightarrow> s
          | None \<Rightarrow> (case field (ev_payload e) ''summary'' of Some s \<Rightarrow> s | None \<Rightarrow> ev_payload e))),
      mc_category = field (ev_payload e) ''category'', mc_relevance = rel\<rparr>"

definition in_timeframe :: "string option \<Rightarrow> event \<Rightarrow> bool" where
  "in_timeframe tf e = (case tf of None \<Rightarrow> True | Some p \<Rightarrow> starts_with (ev_ts e) p)"

definition matching_terms :: "string list \<Rightarrow> event \<Rightarrow> nat" where
  "matching_terms terms e = length (filter (contains (to_lowercase (ev_payload e))) terms)"

text \<open>All fractions of one scan have the same denominator, the number of terms, so ordering by
  relevance is ordering by the numerator; ties are broken by the newer id.\<close>

definition keyword_scan_fallback ::
  "(string \<Rightarrow> string \<Rightarrow> string option) \<Rightarrow> ledger \<Rightarrow> string \<Rightarrow> string option \<Rightarrow> nat \<Rightarrow> memory_chunk list" where
  "keyword_scan_fallback field l q timeframe max_results =
     (let all_events = query l \<lparr>fl_type = None, fl_actor = None, fl_limit = Some 5000\<rparr>;
          terms = split_whitespace (to_lowercase q);
          hits = filter (\<lambda>e. in_timeframe timeframe e \<and> matching_terms terms e \<noteq> 0) all_events;
          chunks = List.map (\<lambda>e. make_chunk field (int (matching_terms terms e), int (length terms)) e) hits
      in take max_results
           (sort_key (\<lambda>c. - fst (mc_relevance c)) (sort_key (\<lambda>c. - mc_id c) chunks)))"

text \<open>\<open>ranked\<close> is \<open>None\<close> when the FTS5 query fails.\<close>

definition memory_recall_handler ::
  "(string \<Rightarrow> string \<Rightarrow> string option) \<Rightarrow> (string \<Rightarrow> fts_row list \<Rightarrow> (int \<times> int) list) option \<Rightarrow> app
    \<Rightarrow> string \<Rightarrow> nat option \<Rightarrow> string option \<Rightarrow> (memory_chunk list \<times> nat) reply" where
  "memory_recall_handler field ranked st q max_res timeframe =
     (let l = app_ledger st;
          max_results = min (case max_res of None \<Rightarrow> 10 | Some n \<Rightarrow> n) 100;
          chunks = (case ranked of
             None \<Rightarrow> keyword_scan_fallback field l q timeframe max_results
           | Some rk \<Rightarrow>
               (let results = fts_search rk l q (max_results * 2);
                    max_score = foldl (\<lambda>m (_, s). max m s) 0 results
                in take max_results (List.map
                     (\<lambda>(e, s). make_chunk field (if 0 < max_score then (s, max_score) else (0, 1)) e)
                     (filter (\<lambda>(e, s). in_timeframe timeframe e) results))))
      in Reply 200 (chunks, event_count l))"

section \<open>Backups\<close>

definition max_backups :: nat where
  "max_backups = 7"

definition is_backup_name :: "string \<Rightarrow> bool" where
  "is_backup_name n = (starts_with n ''backup-'' \<and> ends_with n ''.tar.gz'')"

text \<open>The directory after pruning: the oldest backups by name are removed, other files stay.\<close>

definition prune_backups :: "string list \<Rightarrow> nat \<Rightarrow> string list" where
  "prune_backups dir keep =
     (let entries = filter is_backup_name dir
      in if length entries \<le> keep then dir
         else let to_remove = length entries - keep;
                  removed = take to_remove (sort entries)
              in filter (\<lambda>n. n \<notin> set removed) dir)"

text \<open>\<open>tar_ok\<close> says whether the archiver ran in time and succeeded, \<open>bytes\<close> is the size of its
  file, \<open>stamp\<close> the formatted time.\<close>

definition backup_create_handler ::
  "(string \<Rightarrow> string) \<Rightarrow> (json \<Rightarrow> string) \<Rightarrow> call_env \<Rightarrow> string \<Rightarrow> bool \<Rightarrow> nat \<Rightarrow> app \<Rightarrow> string
    \<Rightarrow> app \<times> (string \<times> string) reply" where
  "backup_create_handler H js env stamp tar_ok bytes st backup_dir =
     (let backup_id = ''backup-'' @ stamp;
          name = backup_id @ ''.tar.gz'';
          path = backup_dir @ ''/'' @ name
      in if \<not> tar_ok then (st, Fail 500)
         else let st1 = st\<lparr>app_backups := (if name \<in> set (app_backups st) then app_backups st
                                          else app_backups st @ [name])\<rparr>;
                  st2 = log_app H env st1 ''backup.create'' ''agentd''
                    (js (JObj [(''backup_id'', JStr backup_id), (''path'', JStr path),
                       (''size_bytes'', JNum (int bytes))]))
              in (st2\<lparr>app_backups := prune_backups (app_backups st2) max_backups\<rparr>,
                  Reply 200 (backup_id, path)))"

text \<open>\<open>trim_end_matches\<close>: every occurrence at the end goes.\<close>

function trim_end_all :: "string \<Rightarrow> string \<Rightarrow> string" where
  "trim_end_all p s = (if p \<noteq> [] \<and> ends_with s p then trim_end_all p (take (length s - length p) s) else s)"
  by auto
termination trim_end_all
  by (relation "measure (\<lambda>(p, s). length s)") (auto simp: ends_with_def starts_with_iff dest: arg_cong [where f = length])

declare trim_end_all.simps [simp del]

record backup_info =
  bi_id :: string
  bi_path :: string
  bi_size :: nat
  bi_created_at :: timestamp

text \<open>\<open>meta\<close>: size and time of change of a file of the directory, where they can be read.\<close>

definition backup_list_handler :: "(string \<Rightarrow> nat option \<times> timestamp option) \<Rightarrow> app \<Rightarrow> string \<Rightarrow> backup_info list" where
  "backup_list_handler meta st backup_dir =
     sort_desc bi_created_at
       (List.map (\<lambda>n. \<lparr>bi_id = trim_end_all ''.tar.gz'' n, bi_path = backup_dir @ ''/'' @ n,
            bi_size = (case fst (meta n) of None \<Rightarrow> 0 | Some k \<Rightarrow> k),
            bi_created_at = (case snd (meta n) of None \<Rightarrow> [] | Some t \<Rightarrow> t)\<rparr>)
          (filter is_backup_name (app_backups st)))"

definition backup_restore_handler ::
  "(string \<Rightarrow> string) \<Rightarrow> (json \<Rightarrow> string) \<Rightarrow> call_env \<Rightarrow> bool \<Rightarrow> app \<Rightarrow> string \<Rightarrow> string
    \<Rightarrow> app \<times> string reply" where
  "backup_restore_handler H js env tar_ok st backup_dir backup_id =
     (if contains backup_id ''..'' \<or> CHR ''/'' \<in> set backup_id then (st, Fail 400)
      else let name = backup_id @ ''.tar.gz''; path = backup_dir @ ''/'' @ name
           in if name \<notin> set (app_backups st) then (st, Fail 404)
              else let st' = log_app H env st ''backup.restore'' ''agentd''
                         (js (JObj [(''backup_id'', JStr backup_id), (''path'', JStr path)]))
                   in if tar_ok then (st', Reply 200 backup_id) else (st', Fail 500))"


section \<open>Every handler logs at most one row\<close>

text \<open>\<open>logs H l l'\<close>: the ledger moved from \<open>l\<close> to \<open>l'\<close> by changing incident tables only
  and then writing at most one row.\<close>

definition same_chain :: "ledger \<Rightarrow> ledger \<Rightarrow> bool" where
  "same_chain l l' = (events l' = events l \<and> fts l' = fts l \<and> last_rowid l' = last_rowid l)"

definition logs :: "(string \<Rightarrow> string) \<Rightarrow> ledger \<Rightarrow> ledger \<Rightarrow> bool" where
  "logs H l l' = (\<exists>l0 es. same_chain l l0 \<and> length es \<le> 1 \<and> l' = foldl (log_event H) l0 es)"

lemma same_chain_ok: "same_chain l l' \<Longrightarrow> ledger_ok H l' = ledger_ok H l"
  by (simp add: same_chain_def ledger_ok_def verify_def ledger_wf_def)

lemma logs_ok: "logs H l l' \<Longrightarrow> ledger_ok H l \<Longrightarrow> ledger_ok H l'"
  by (auto simp: logs_def same_chain_ok intro: agent_log.run_valid)

lemma logs_extends: "logs H l l' \<Longrightarrow> \<exists>rs. events l' = events l @ rs \<and> length rs \<le> 1"
  using agent_log.run_extends unfolding logs_def same_chain_def by (metis le_trans)

lemma logs_refl: "same_chain l l' \<Longrightarrow> logs H l l'"
  unfolding logs_def by (rule exI [of _ l'], rule exI [of _ "[]"]) simp

lemma logs_one: "same_chain l l0 \<Longrightarrow> logs H l (log_event H l0 x)"
  unfolding logs_def by (rule exI [of _ l0], rule exI [of _ "[x]"]) simp

lemma same_chain_refl [simp]: "same_chain l l"
  by (simp add: same_chain_def)

lemma same_chain_incidents [simp]:
  "create_incident now l i n = Inr l' \<Longrightarrow> same_chain l l'"
  "add_incident_step fk now l i k a r c = Inr l' \<Longrightarrow> same_chain l l'"
  by (auto simp: create_incident_def add_incident_step_def same_chain_def split: if_splits)

lemma log_app_frame [simp]:
  "app_gate (log_app H env st ty a p) = app_gate st"
  "app_engine (log_app H env st ty a p) = app_engine st"
  "app_backups (log_app H env st ty a p) = app_backups st"
  by (simp_all add: log_app_def)

lemma log_app_ledger:
  "app_ledger (log_app H env st ty a p) = log_event H (app_ledger st)
     \<lparr>le_now = ce_sql_now env, le_type = ty, le_actor = a, le_payload = p\<rparr>"
  by (simp add: log_app_def)

lemma append_is_log:
  "append_event H now l ty a p = Inr (l', e) \<Longrightarrow>
   l' = log_event H l \<lparr>le_now = now, le_type = ty, le_actor = a, le_payload = p\<rparr>"
  by (simp add: log_event_def)

text \<open>The calls of the daemon, one constructor per state-changing endpoint and background task.\<close>

datatype agent_call =
    CheckCommand call_env string "string option"
  | RequestApproval call_env string "string option" string "int option"
  | ApproveCall call_env string "string option"
  | DenyCall call_env string "string option"
  | ExpiryTick call_env
  | SandboxExec call_env string sandbox_config
  | MintCapability call_env string "string list" "nat option"
  | IncidentCreate call_env string
  | IncidentStep call_env string string string "string option"
  | MemoryIngest call_env "string option" string "string option" "string list option" json
  | MemoryStore call_env string "string option" "string option" "string list option"
  | BackupCreate call_env string bool nat string
  | BackupRestore call_env bool string string
  | SystemQuery call_env host_report string "json option"
  | Discover call_env "nat \<Rightarrow> (nat \<times> rat) option" string string
  | GenerateCard call_env bool string string "agent_service list"

text \<open>The outside world of a run, fixed for all calls.\<close>

record world =
  w_hash :: "string \<Rightarrow> string"
  w_json :: "json \<Rightarrow> string"
  w_why :: "gate_error \<Rightarrow> string"
  w_mac :: "string \<Rightarrow> string \<Rightarrow> string"
  w_bwrap :: "string list \<Rightarrow> nat \<Rightarrow> process_outcome"
  w_canon :: "string \<Rightarrow> string option"
  w_exists :: "string \<Rightarrow> bool"
  w_fk :: bool

fun agent_step :: "world \<Rightarrow> app \<Rightarrow> agent_call \<Rightarrow> app" where
  "agent_step w st (CheckCommand env c i) =
     fst (approval_check_command_handler (w_hash w) (w_json w) (w_why w) env st c i)"
| "agent_step w st (RequestApproval env c a r t) =
     fst (approval_request_handler (w_hash w) (w_json w) env st c a r t)"
| "agent_step w st (ApproveCall env i who) =
     fst (approval_approve_handler (w_hash w) (w_json w) env st i who)"
| "agent_step w st (DenyCall env i who) =
     fst (approval_deny_handler (w_hash w) (w_json w) env st i who)"
| "agent_step w st (ExpiryTick env) = expiry_tick env st"
| "agent_step w st (SandboxExec env c cfg) =
     fst (sandbox_exec_handler (w_hash w) (w_json w) (w_bwrap w) (w_canon w) (w_exists w) env st c cfg)"
| "agent_step w st (MintCapability env g ps t) =
     fst (capability_mint_handler (w_hash w) (w_json w) (w_mac w) env st g ps t)"
| "agent_step w st (IncidentCreate env n) =
     fst (incident_create_handler (w_hash w) (w_json w) env st n)"
| "agent_step w st (IncidentStep env i a r c) =
     fst (incident_step_handler (w_hash w) (w_json w) (w_fk w) env st i a r c)"
| "agent_step w st (MemoryIngest env s c k t m) =
     fst (memory_ingest_handler (w_hash w) (w_json w) env st s c k t m)"
| "agent_step w st (MemoryStore env s d k t) =
     fst (memory_store_handler (w_hash w) (w_json w) env st s d k t)"
| "agent_step w st (BackupCreate env stamp tar_ok bytes dir) =
     fst (backup_create_handler (w_hash w) (w_json w) env stamp tar_ok bytes st dir)"
| "agent_step w st (BackupRestore env tar_ok dir i) =
     fst (backup_restore_handler (w_hash w) (w_json w) env tar_ok st dir i)"
| "agent_step w st (SystemQuery env h q args) = fst (system_query_handler (w_hash w) (w_json w) env st h q args)"
| "agent_step w st (Discover env proc ss units) = fst (system_discover_handler (w_hash w) (w_json w) env st proc ss units)"
| "agent_step w st (GenerateCard env io name desc services) =
     fst (agent_card_generate_handler (w_hash w) (w_json w) (\<lambda>_. []) io env st None name desc services)"

lemmas logs_intros = logs_refl logs_one

lemma decision_handler_logs:
  "logs H (app_ledger st) (app_ledger (fst (decision_handler H js env st v ev i decided_by)))"
proof (cases "app_gate st")
  case None
  then show ?thesis by (simp add: decision_handler_def logs_intros)
next
  case (Some g)
  obtain g' r where d: "decide v (ce_now env) g i
      (case decided_by of None \<Rightarrow> ''user'' | Some w \<Rightarrow> w) = (g', r)"
    by (meson surj_pair)
  show ?thesis
  proof (cases r)
    case (Inl e)
    then show ?thesis
      using Some d by (cases e) (simp_all add: decision_handler_def Let_def logs_intros)
  next
    case (Inr p)
    then show ?thesis
      using Some d by (simp add: decision_handler_def Let_def log_app_ledger logs_intros)
  qed
qed

lemma request_handler_logs:
  "logs H (app_ledger st) (app_ledger (fst (approval_request_handler H js env st c actor why ttl)))"
proof (cases "app_gate st")
  case None
  then show ?thesis by (simp add: approval_request_handler_def logs_intros)
next
  case (Some g)
  obtain g' r where d: "request_approval (ce_uuid env) (ce_now env) (ce_plus_secs env) g c
      (case actor of None \<Rightarrow> ''agent'' | Some a \<Rightarrow> a) why ttl = (g', r)"
    by (meson surj_pair)
  show ?thesis
  proof (cases r)
    case (Inl e)
    then show ?thesis
      using Some d by (cases e) (simp_all add: approval_request_handler_def Let_def logs_intros)
  next
    case (Inr p)
    then show ?thesis
      using Some d by (simp add: approval_request_handler_def Let_def log_app_ledger logs_intros)
  qed
qed

lemma agent_step_logs: "logs (w_hash w) (app_ledger st) (app_ledger (agent_step w st c))"
proof (cases c)
  case (CheckCommand env cmd i)
  then show ?thesis
    by (simp add: approval_check_command_handler_def Let_def log_app_ledger logs_intros
        split: option.split)
next
  case (RequestApproval env cmd a r t)
  then show ?thesis by (simp add: request_handler_logs)
next
  case (ApproveCall env i who)
  then show ?thesis by (simp add: approval_approve_handler_def decision_handler_logs)
next
  case (DenyCall env i who)
  then show ?thesis by (simp add: approval_deny_handler_def decision_handler_logs)
next
  case (ExpiryTick env)
  then show ?thesis by (simp add: expiry_tick_def logs_intros)
next
  case (SandboxExec env cmd cfg)
  then show ?thesis
    by (simp add: sandbox_exec_handler_def log_app_ledger logs_intros split: option.split)
next
  case (MintCapability env g ps t)
  then show ?thesis
    by (simp add: capability_mint_handler_def Let_def log_app_ledger logs_intros
        split: option.split)
next
  case (IncidentCreate env n)
  then show ?thesis
    by (simp add: incident_create_handler_def Let_def log_app_ledger logs_intros split: sum.split)
next
  case (IncidentStep env i a r k)
  then show ?thesis
    by (simp add: incident_step_handler_def Let_def log_app_ledger logs_intros
        split: option.split sum.split prod.split)
next
  case (MemoryIngest env s cnt k t m)
  then show ?thesis
    by (auto simp: memory_ingest_handler_def Let_def logs_intros dest!: append_is_log
        split: sum.split)
next
  case (MemoryStore env s d k t)
  then show ?thesis
    by (auto simp: memory_store_handler_def Let_def logs_intros dest!: append_is_log
        split: sum.split)
next
  case (BackupCreate env stamp tar_ok bytes dir)
  then show ?thesis
    by (simp add: backup_create_handler_def Let_def log_app_ledger logs_intros)
next
  case (BackupRestore env tar_ok dir i)
  then show ?thesis
    by (simp add: backup_restore_handler_def Let_def log_app_ledger logs_intros)
qed (simp_all add: host_defs Let_def log_app_ledger logs_intros)

interpretation agentd: audit_log "agent_step w" "\<lambda>st. events (app_ledger st)"
  "\<lambda>st. ledger_ok (w_hash w) (app_ledger st)" for w
  using logs_extends [OF agent_step_logs] logs_ok [OF agent_step_logs]
  by unfold_locales blast+


section \<open>The daemon drives its gate\<close>

text \<open>What a call does to the gate is one step of the gate's own machine, or nothing.\<close>

definition gate_events :: "gate \<Rightarrow> agent_call \<Rightarrow> gate_event list" where
  "gate_events g c =
     (case c of
        RequestApproval env cmd actor reason ttl \<Rightarrow>
          (if is_destructive g cmd
           then [Request (ce_uuid env) (ce_now env)
                   (ce_plus_secs env (case ttl of None \<Rightarrow> default_ttl_secs | Some t \<Rightarrow> t))
                   cmd (case actor of None \<Rightarrow> ''agent'' | Some a \<Rightarrow> a) reason]
           else [])
      | ApproveCall env i who \<Rightarrow> [Approve (ce_now env) i (case who of None \<Rightarrow> ''user'' | Some u \<Rightarrow> u)]
      | DenyCall env i who \<Rightarrow> [Deny (ce_now env) i (case who of None \<Rightarrow> ''user'' | Some u \<Rightarrow> u)]
      | ExpiryTick env \<Rightarrow> [Expire (ce_now env)]
      | _ \<Rightarrow> [])"

lemma request_approval_ttl:
  "fst (request_approval uuid now ps g cmd actor reason ttl) =
   fst (request_approval uuid now (\<lambda>_. ps (case ttl of None \<Rightarrow> default_ttl_secs | Some t \<Rightarrow> t))
     g cmd actor reason None)"
  by (simp add: request_approval_def Let_def split: option.split)

lemma handler_gates:
  "app_gate st = Some g \<Longrightarrow> is_destructive g cmd \<Longrightarrow>
   app_gate (fst (approval_request_handler H js env st cmd actor reason ttl)) =
     Some (fst (request_approval (ce_uuid env) (ce_now env) (ce_plus_secs env) g cmd
       (case actor of None \<Rightarrow> ''agent'' | Some a \<Rightarrow> a) reason ttl))"
  "app_gate st = Some g \<Longrightarrow>
   app_gate (fst (decision_handler H js env st verdict event i who)) =
     Some (fst (decide verdict (ce_now env) g i (case who of None \<Rightarrow> ''user'' | Some u \<Rightarrow> u)))"
  by (auto simp: approval_request_handler_def decision_handler_def Let_def
      split: prod.split sum.split gate_error.split)

lemma agent_step_gate:
  assumes "app_gate st = Some g"
  shows "app_gate (agent_step w st c) = Some (foldl gate_step g (gate_events g c))"
proof (cases c)
  case (CheckCommand env cmd i)
  with assms show ?thesis
    by (simp add: approval_check_command_handler_def Let_def gate_events_def)
next
  case (RequestApproval env cmd a r t)
  show ?thesis
  proof (cases "is_destructive g cmd")
    case True
    with RequestApproval show ?thesis
      using handler_gates(1) [OF assms True]
        request_approval_ttl [of "ce_uuid env" "ce_now env" "ce_plus_secs env" g cmd _ r t]
      by (simp add: gate_events_def)
  next
    case False
    with RequestApproval assms show ?thesis
      by (simp add: gate_events_def approval_request_handler_def Let_def)
  qed
next
  case (ApproveCall env i who)
  with assms show ?thesis
    by (simp add: gate_events_def approval_approve_handler_def handler_gates approve_def)
next
  case (DenyCall env i who)
  with assms show ?thesis
    by (simp add: gate_events_def approval_deny_handler_def handler_gates deny_def)
next
  case (ExpiryTick env)
  with assms show ?thesis by (simp add: gate_events_def expiry_tick_def)
qed (use assms in \<open>auto simp: gate_events_def sandbox_exec_handler_def capability_mint_handler_def
    incident_create_handler_def incident_step_handler_def memory_ingest_handler_def
    memory_store_handler_def backup_create_handler_def backup_restore_handler_def host_defs Let_def
    split: option.split sum.split prod.split\<close>)

fun agent_trace :: "world \<Rightarrow> app \<Rightarrow> gate \<Rightarrow> agent_call list \<Rightarrow> gate_event list" where
  "agent_trace w st g [] = []"
| "agent_trace w st g (c # cs) =
     gate_events g c @ agent_trace w (agent_step w st c) (foldl gate_step g (gate_events g c)) cs"

lemma agent_run_gate:
  "app_gate st = Some g \<Longrightarrow>
   app_gate (foldl (agent_step w) st cs) = Some (foldl gate_step g (agent_trace w st g cs))"
  by (induction cs arbitrary: st g) (simp_all add: agent_step_gate)

section \<open>Incidents\<close>

definition incident_numbers :: "ledger \<Rightarrow> string \<Rightarrow> nat list" where
  "incident_numbers l i = List.map st_number (filter (\<lambda>s. st_incident s = i) (steps l))"

definition numbered :: "nat list \<Rightarrow> bool" where
  "numbered ns = (ns = [1..<Suc (length ns)])"

text \<open>The steps of every incident are numbered 1, 2, .. in the order they were added.\<close>

definition steps_numbered :: "ledger \<Rightarrow> bool" where
  "steps_numbered l = (\<forall>i. numbered (incident_numbers l i))"

lemma numbered_snoc: "numbered ns \<Longrightarrow> numbered (ns @ [Suc (length ns)])"
  using upt_Suc_append [of 1 "Suc (length ns)"] by (simp add: numbered_def)

lemma numbered_sorted: "numbered ns \<Longrightarrow> sorted ns"
  unfolding numbered_def using sorted_upt by metis

lemma get_incident_steps_numbered:
  assumes "steps_numbered l"
  shows "get_incident_steps l i = filter (\<lambda>s. st_incident s = i) (steps l)"
proof -
  have "sorted (incident_numbers l i)"
    using assms by (simp add: steps_numbered_def numbered_sorted)
  then show ?thesis
    by (simp add: get_incident_steps_def incident_numbers_def sort_key_id_if_sorted)
qed

lemma steps_numbered_cong: "steps l' = steps l \<Longrightarrow> steps_numbered l' = steps_numbered l"
  by (simp only: steps_numbered_def incident_numbers_def)

lemma steps_numbered_add:
  assumes "steps_numbered l" and s: "steps l' = steps l @ [x]"
    and n: "st_number x = Suc (length (incident_numbers l (st_incident x)))"
  shows "steps_numbered l'"
  unfolding steps_numbered_def
proof
  fix j
  have j: "numbered (incident_numbers l j)"
    using assms(1) unfolding steps_numbered_def by blast
  show "numbered (incident_numbers l' j)"
  proof (cases "j = st_incident x")
    case True
    then have "incident_numbers l' j = incident_numbers l j @ [Suc (length (incident_numbers l j))]"
      using s n by (simp add: incident_numbers_def)
    then show ?thesis using numbered_snoc [OF j] by simp
  next
    case False
    then show ?thesis using s j by (simp add: incident_numbers_def)
  qed
qed

lemma incident_step_numbered:
  assumes "steps_numbered (app_ledger st)" and "length (steps (app_ledger st)) < 2 ^ 32 - 1"
  shows "steps_numbered (app_ledger (fst (incident_step_handler H js fk env st i a r c)))"
proof (cases "get_incident (app_ledger st) i")
  case None
  then show ?thesis using assms by (simp add: incident_step_handler_def)
next
  case (Some p)
  let ?l = "app_ledger st"
  obtain inc ss where p: "p = (inc, ss)" by (cases p)
  have ss: "ss = filter (\<lambda>s. st_incident s = i) (steps ?l)"
    using Some p assms(1)
    by (auto simp: get_incident_def get_incident_steps_numbered dest: find_by_Some
        split: option.splits)
  then have "length ss \<le> length (steps ?l)" by simp
  then have "Suc (length ss) < 2 ^ 32" using assms(2) by simp
  then have n: "wrapping_add_w 32 (length ss) 1 = Suc (length (incident_numbers ?l i))"
    using ss by (simp add: wrapping_add_w_def incident_numbers_def)
  show ?thesis
  proof (cases "add_incident_step fk (ce_sql_now env) ?l i (wrapping_add_w 32 (length ss) 1) a r c")
    case (Inl e)
    then show ?thesis using Some p assms by (simp add: incident_step_handler_def Let_def)
  next
    case (Inr l)
    then have "steps_numbered l"
      using n steps_numbered_add [OF assms(1)] by (auto simp: add_incident_step_def split: if_splits)
    then show ?thesis using Some p Inr
      by (simp add: incident_step_handler_def Let_def log_app_ledger log_event_frame
          steps_numbered_cong [of "log_event _ _ _"])
  qed
qed

text \<open>No other call of the daemon touches the step table.\<close>

fun adds_step :: "agent_call \<Rightarrow> bool" where
  "adds_step (IncidentStep env i a r k) = True"
| "adds_step _ = False"

lemma decision_handler_steps [simp]:
  "steps (app_ledger (fst (decision_handler H js env st v ev i who))) = steps (app_ledger st)"
  by (auto simp: decision_handler_def Let_def log_app_ledger log_event_frame
      split: option.split prod.split sum.split gate_error.split)

lemma request_handler_steps [simp]:
  "steps (app_ledger (fst (approval_request_handler H js env st c actor why ttl))) = steps (app_ledger st)"
  by (auto simp: approval_request_handler_def Let_def log_app_ledger log_event_frame
      split: option.split prod.split sum.split gate_error.split)

lemma append_event_steps: "append_event H now l ty a p = Inr (l', e) \<Longrightarrow> steps l' = steps l"
  using append_is_log [of H now l ty a p l' e] by (simp add: log_event_frame)

lemma agent_step_steps:
  "\<not> adds_step c \<Longrightarrow> steps (app_ledger (agent_step w st c)) = steps (app_ledger st)"
  by (cases c)
    (auto simp: approval_check_command_handler_def approval_approve_handler_def approval_deny_handler_def
      expiry_tick_def sandbox_exec_handler_def capability_mint_handler_def incident_create_handler_def
      memory_ingest_handler_def memory_store_handler_def backup_create_handler_def
      backup_restore_handler_def host_defs create_incident_def Let_def log_app_ledger log_event_frame append_event_steps
      split: option.split sum.split prod.split if_splits)

lemma incident_step_length:
  "length (steps (app_ledger (fst (incident_step_handler H js fk env st i a r k)))) \<le> Suc (length (steps (app_ledger st)))"
  by (auto simp: incident_step_handler_def add_incident_step_def Let_def log_app_ledger log_event_frame
      split: option.split sum.split prod.split)

lemma agent_step_numbered:
  assumes "steps_numbered (app_ledger st)" and "length (steps (app_ledger st)) < 2 ^ 32 - 1"
  shows "steps_numbered (app_ledger (agent_step w st c)) \<and>
    length (steps (app_ledger (agent_step w st c))) \<le> Suc (length (steps (app_ledger st)))"
proof (cases "adds_step c")
  case True
  then show ?thesis
    using incident_step_numbered [OF assms] incident_step_length by (cases c) auto
next
  case False
  then show ?thesis
    using agent_step_steps [of c w st] assms(1) by (simp add: steps_numbered_cong [OF agent_step_steps])
qed

lemma agent_run_numbered:
  assumes "steps (app_ledger st) = []"
  shows "length cs < 2 ^ 32 \<Longrightarrow> steps_numbered (app_ledger (foldl (agent_step w) st cs)) \<and>
    length (steps (app_ledger (foldl (agent_step w) st cs))) \<le> length cs"
proof (induction cs rule: rev_induct)
  case Nil
  show ?case using assms by (simp add: steps_numbered_def incident_numbers_def numbered_def)
next
  case (snoc c cs)
  let ?st = "foldl (agent_step w) st cs"
  have "steps_numbered (app_ledger ?st)" "length (steps (app_ledger ?st)) \<le> length cs"
    using snoc by simp_all
  moreover from this snoc.prems have "length (steps (app_ledger ?st)) < 2 ^ 32 - 1" by simp
  ultimately show ?case using agent_step_numbered [of ?st w c] by simp
qed

section \<open>Backups and recall\<close>

lemma prune_keeps_others: "n \<in> set dir \<Longrightarrow> \<not> is_backup_name n \<Longrightarrow> n \<in> set (prune_backups dir keep)"
  by (auto simp: prune_backups_def Let_def dest: in_set_takeD)

lemma prune_others:
  "filter (\<lambda>n. \<not> is_backup_name n) (prune_backups dir keep) = filter (\<lambda>n. \<not> is_backup_name n) dir"
  by (auto simp: prune_backups_def Let_def dest: in_set_takeD intro!: filter_cong)

lemma prune_distinct: "distinct dir \<Longrightarrow> distinct (prune_backups dir keep)"
  by (simp add: prune_backups_def Let_def)

lemma prune_count:
  assumes "distinct dir"
  shows "length (filter is_backup_name (prune_backups dir keep)) =
     min keep (length (filter is_backup_name dir))"
proof (cases "length (filter is_backup_name dir) \<le> keep")
  case True
  then show ?thesis by (simp add: prune_backups_def Let_def)
next
  case False
  let ?b = "filter is_backup_name dir"
  let ?r = "take (length ?b - keep) (sort ?b)"
  let ?f = "filter is_backup_name (prune_backups dir keep)"
  have d: "distinct ?b" "distinct ?r" using assms by simp_all
  have "distinct ?f" and f: "set ?f = set ?b - set ?r"
    using False assms by (auto simp: prune_backups_def Let_def)
  then have "length ?f = card (set ?b - set ?r)" by (metis distinct_card)
  also have "\<dots> = card (set ?b) - card (set ?r)"
    by (rule card_Diff_subset) (auto dest: in_set_takeD)
  also have "\<dots> = length ?b - (length ?b - keep)"
    using d by (simp only: distinct_card length_take length_sort min_def) simp
  finally show ?thesis using False by simp
qed

lemma prune_keeps_newest:
  assumes "distinct dir" and "x \<in> set dir" and "is_backup_name x" and "x \<notin> set (prune_backups dir keep)"
    and "y \<in> set (prune_backups dir keep)" and "is_backup_name y"
  shows "x < y"
proof -
  let ?b = "sort (filter is_backup_name dir)"
  let ?k = "length (filter is_backup_name dir) - keep"
  have long: "\<not> length (filter is_backup_name dir) \<le> keep"
    using assms(2,4) by (auto simp: prune_backups_def Let_def split: if_splits)
  have x: "x \<in> set (take ?k ?b)" and ny: "y \<notin> set (take ?k ?b)" and yd: "y \<in> set dir"
    using assms(2,4,5) long by (auto simp: prune_backups_def Let_def split: if_splits)
  then have "y \<in> set (drop ?k ?b)"
    using assms(6) by (metis (no_types, lifting) Un_iff append_take_drop_id mem_Collect_eq set_append
        set_filter set_sort)
  moreover have "sorted (take ?k ?b @ drop ?k ?b)" by simp
  ultimately have "x \<le> y" using x by (metis sorted_append)
  with x ny show ?thesis by (metis order_le_less)
qed

text \<open>A backup that is listed is found by its listed identifier.\<close>

lemma trim_end_once:
  assumes "\<not> ends_with a p" and "p \<noteq> []"
  shows "trim_end_all p (a @ p) = a"
proof -
  have "ends_with (a @ p) p" by (simp add: ends_with_def starts_with_iff)
  then have "trim_end_all p (a @ p) = trim_end_all p a"
    using assms(2) by (subst trim_end_all.simps) simp
  then show ?thesis using assms(1) by (simp add: trim_end_all.simps)
qed

lemma listed_backup_found:
  assumes "n \<in> set (app_backups st)" and "n = ''backup-'' @ stamp @ ''.tar.gz''"
    and "\<not> ends_with (''backup-'' @ stamp) ''.tar.gz''" and "\<not> contains (''backup-'' @ stamp) ''..''" and "CHR ''/'' \<notin> set stamp"
  shows "\<exists>b \<in> set (backup_list_handler meta st dir). bi_path b = dir @ ''/'' @ n \<and>
    snd (backup_restore_handler H js env True st dir (bi_id b)) = Reply 200 (bi_id b)"
proof -
  have n: "is_backup_name n" unfolding assms(2) by (simp add: is_backup_name_def ends_with_def starts_with_iff)
  have "trim_end_all ''.tar.gz'' n = ''backup-'' @ stamp"
    using trim_end_once [OF assms(3)] by (simp add: assms(2))
  note id = this
  let ?b = "\<lparr>bi_id = ''backup-'' @ stamp, bi_path = dir @ ''/'' @ n,
      bi_size = (case fst (meta n) of None \<Rightarrow> 0 | Some k \<Rightarrow> k),
      bi_created_at = (case snd (meta n) of None \<Rightarrow> [] | Some t \<Rightarrow> t)\<rparr>"
  have "?b \<in> set (backup_list_handler meta st dir)"
    unfolding backup_list_handler_def sort_desc_def id [symmetric]
    using n assms(1) by (auto simp: image_iff)
  moreover have "snd (backup_restore_handler H js env True st dir (bi_id ?b)) = Reply 200 (bi_id ?b)"
    using assms(1,4,5) by (simp add: backup_restore_handler_def Let_def assms(2))
  ultimately show ?thesis by (intro bexI [of _ ?b]) simp_all
qed

lemma keyword_scan_bound: "length (keyword_scan_fallback field l q tf n) \<le> n"
  by (simp add: keyword_scan_fallback_def Let_def)

lemma sort_key_sorted_by: "sorted_wrt (\<lambda>a b. f a \<le> f b) (sort_key f xs)"
  using sorted_sort_key [of f xs] by (simp add: sorted_wrt_map)

end
