(* ===== verification/Printing.thy ===== *)
theory Printing
  imports Decimal Complex_Main
begin

text \<open>Printing of numbers that are not integers, with a fixed count of decimals: \<open>{:.d}\<close> of Rust.\<close>

text \<open>The nearest integer; halfway between two, the even one.\<close>

definition round_even :: "rat \<Rightarrow> int" where
  "round_even x =
     (let f = \<lfloor>x\<rfloor>; r = x - of_int f
      in if r < 1 / 2 then f else if 1 / 2 < r then f + 1 else if even f then f else f + 1)"

text \<open>Of a number that is not negative.\<close>

definition fixed :: "nat \<Rightarrow> rat \<Rightarrow> string" where
  "fixed d x =
     (let n = nat (round_even (x * 10 ^ d))
      in if d = 0 then dec n else dec (n div 10 ^ d) @ ''.'' @ pad0 d (dec (n mod 10 ^ d)))"

lemma round_even_near: "\<bar>of_int (round_even x) - x\<bar> \<le> 1 / 2"
proof -
  define f where "f = \<lfloor>x\<rfloor>"
  have "of_int f \<le> x" "x < of_int f + 1" by (simp_all add: f_def) linarith
  moreover have "round_even x = f \<and> x - of_int f \<le> 1 / 2 \<or> round_even x = f + 1 \<and> 1 / 2 \<le> x - of_int f"
    by (auto simp: round_even_def Let_def f_def [symmetric] not_less)
  ultimately show ?thesis by (auto simp: abs_le_iff)
qed

lemma round_even_int [simp]: "round_even (of_int n) = n"
  by (simp add: round_even_def)

end
