(* ===== verification/Agentctl.thy ===== *)
theory Agentctl
  imports Ledger Printing "HOL-Library.Multiset"
begin

text \<open>
  \<open>crates/agentctl/src/main.rs\<close>: the command-line client, which reads agentd's database file itself. Its
  verification of the hash chain is a second implementation of \<open>Ledger::verify\<close> and its listing a second
  one of \<open>Ledger::query\<close>; both are shown to agree with agentd's. Standard output and standard
  error are lists of lines; \<open>pretty\<close> is \<open>serde_json\<close>'s re-printing of a text that is JSON.
\<close>

section \<open>Listing events\<close>

definition ctl_select :: "ledger \<Rightarrow> nat \<Rightarrow> string option \<Rightarrow> string option \<Rightarrow> event list" where
  "ctl_select l n type_filter actor_filter =
     rev (sql_limit (int n)
       (rev (filter (\<lambda>e. (case actor_filter of None \<Rightarrow> True | Some a \<Rightarrow> ev_actor e = a))
         (filter (\<lambda>e. (case type_filter of None \<Rightarrow> True | Some t \<Rightarrow> ev_type e = t)) (events l)))))"

definition ctl_event_text :: "(string \<Rightarrow> string option) \<Rightarrow> event \<Rightarrow> string" where
  "ctl_event_text pretty e =
     ''#'' @ dec_int (ev_id e) @ '' ['' @ ev_ts e @ ''] '' @ ev_type e @ '' by '' @ ev_actor e @ nl @
     (case pretty (ev_payload e) of
        Some p \<Rightarrow> ''  '' @ replace_all nl (nl @ ''  '') p
      | None \<Rightarrow> ''  '' @ ev_payload e) @ nl @
     ''  hash: '' @ ev_hash e @ nl @ nl"

definition cmd_events :: "(string \<Rightarrow> string option) \<Rightarrow> ledger \<Rightarrow> nat \<Rightarrow> string option \<Rightarrow> string option \<Rightarrow> string" where
  "cmd_events pretty l n type_filter actor_filter =
     (let es = ctl_select l n type_filter actor_filter
      in concat (List.map (ctl_event_text pretty) es) @ ''Showed '' @ dec (length es) @ '' event(s)'' @ nl)"

section \<open>Verifying the chain\<close>

record ctl_check =
  cc_expected :: string
  cc_count :: nat
  cc_errors :: nat
  cc_lines :: "string list"

text \<open>The texts of the two complaints about a row.\<close>

definition break_line :: "event \<Rightarrow> string \<Rightarrow> string" where
  "break_line e expected = ''CHAIN BREAK at event #'' @ dec_int (ev_id e) @ '': expected prev_hash='' @ expected @
     '', got '' @ ev_prev_hash e"

definition mismatch_line :: "(string \<Rightarrow> string) \<Rightarrow> event \<Rightarrow> string" where
  "mismatch_line H e = ''HASH MISMATCH at event #'' @ dec_int (ev_id e) @ '': computed='' @ H (event_input e) @
     '', stored='' @ ev_hash e"

definition ctl_check_row :: "(string \<Rightarrow> string) \<Rightarrow> ctl_check \<Rightarrow> event \<Rightarrow> ctl_check" where
  "ctl_check_row H c e =
     (let c1 = c\<lparr>cc_count := cc_count c + 1\<rparr>;
          c2 = (if ev_prev_hash e \<noteq> cc_expected c1
                then c1\<lparr>cc_lines := cc_lines c1 @ [break_line e (cc_expected c1)], cc_errors := cc_errors c1 + 1\<rparr> else c1);
          c3 = (if H (event_input e) \<noteq> ev_hash e
                then c2\<lparr>cc_lines := cc_lines c2 @ [mismatch_line H e], cc_errors := cc_errors c2 + 1\<rparr> else c2)
      in c3\<lparr>cc_expected := ev_hash e\<rparr>)"

definition ctl_check_start :: ctl_check where
  "ctl_check_start = \<lparr>cc_expected = replicate 64 (CHR ''0''), cc_count = 0, cc_errors = 0, cc_lines = []\<rparr>"

text \<open>The exit status and the lines printed.\<close>

definition cmd_verify_ledger :: "(string \<Rightarrow> string) \<Rightarrow> ledger \<Rightarrow> nat \<times> string list" where
  "cmd_verify_ledger H l =
     (let c = foldl (ctl_check_row H) ctl_check_start (events l)
      in if cc_errors c = 0
         then (0, cc_lines c @ [''Ledger verified: '' @ dec (cc_count c) @ '' events, all hashes valid, chain intact.''])
         else (1, cc_lines c @ [''LEDGER CORRUPTION: '' @ dec (cc_errors c) @ '' error(s) found in '' @ dec (cc_count c) @ '' events!'']))"

section \<open>Statistics and health\<close>

text \<open>\<open>GROUP BY type ORDER BY cnt DESC\<close>: \<open>ord\<close> is the order in which the groups of one count come.\<close>

definition ctl_type_counts :: "(string list \<Rightarrow> string list) \<Rightarrow> ledger \<Rightarrow> (string \<times> nat) list" where
  "ctl_type_counts ord l =
     sort_key (\<lambda>p. - int (snd p))
       (List.map (\<lambda>t. (t, length (filter (\<lambda>e. ev_type e = t) (events l)))) (ord (remdups (List.map ev_type (events l)))))"

definition cmd_stats :: "(string list \<Rightarrow> string list) \<Rightarrow> nat option \<Rightarrow> ledger \<Rightarrow> string list" where
  "cmd_stats ord bytes l =
     [''Ledger statistics:'', ''  Total events: '' @ dec (length (events l))] @
     (if events l = [] then [] else [''  First event:  '' @ ev_ts (hd (events l))]) @
     (if events l = [] then [] else [''  Last event:   '' @ ev_ts (last (events l))]) @
     [''  By type:''] @ List.map (\<lambda>(t, n). ''    '' @ t @ '': '' @ dec n) (ctl_type_counts ord l) @
     (case bytes of None \<Rightarrow> [] | Some n \<Rightarrow> [''  DB size: '' @ fixed 2 (of_nat n / 1048576) @ '' MB''])"

definition health_request :: string where
  "health_request = ''GET /health HTTP/1.0'' @ [CHR 0x0D, CHR 0x0A] @ ''Host: localhost'' @
     [CHR 0x0D, CHR 0x0A, CHR 0x0D, CHR 0x0A]"

definition response_body :: "string \<Rightarrow> string" where
  "response_body response =
     (case find_sub [CHR 0x0D, CHR 0x0A, CHR 0x0D, CHR 0x0A] response of None \<Rightarrow> response | Some (_, b) \<Rightarrow> b)"

datatype ctl_error = SocketMissing | ConnectionFailed | BadAnswer string

text \<open>\<open>answer\<close>: what the daemon sends for a request, if the connection works.\<close>

definition cmd_health :: "bool \<Rightarrow> (string \<Rightarrow> string option) \<Rightarrow> (string \<Rightarrow> string option) \<Rightarrow> ctl_error + string" where
  "cmd_health socket_there answer pretty =
     (if \<not> socket_there then Inl SocketMissing
      else case answer health_request of
             None \<Rightarrow> Inl ConnectionFailed
           | Some response \<Rightarrow>
               (case pretty (response_body response) of
                  None \<Rightarrow> Inl (BadAnswer (response_body response))
                | Some text \<Rightarrow> Inr (text @ nl)))"

section \<open>Agreement with agentd\<close>

lemma ctl_select_query:
  "ctl_select l n t a = rev (query l \<lparr>fl_type = t, fl_actor = a, fl_limit = Some (int n)\<rparr>)"
  by (simp add: ctl_select_def query_def conj_commute)

text \<open>The check of a whole list: it counts the rows and never takes a complaint back.\<close>

lemma check_row_fields:
  "cc_count (ctl_check_row H c e) = cc_count c + 1" "cc_expected (ctl_check_row H c e) = ev_hash e"
  "\<exists>ls. cc_lines (ctl_check_row H c e) = cc_lines c @ ls \<and> cc_errors (ctl_check_row H c e) = cc_errors c + length ls"
  by (simp_all add: ctl_check_row_def Let_def)

lemma check_rows_fields:
  "cc_count (foldl (ctl_check_row H) c es) = cc_count c + length es"
  "\<exists>ls. cc_lines (foldl (ctl_check_row H) c es) = cc_lines c @ ls \<and>
     cc_errors (foldl (ctl_check_row H) c es) = cc_errors c + length ls"
proof (induction es arbitrary: c)
  case (Cons e es)
  { case 1 show ?case using Cons.IH(1) [of "ctl_check_row H c e"] check_row_fields(1) [of H c e] by simp }
  { case 2
    obtain ls where a: "cc_lines (ctl_check_row H c e) = cc_lines c @ ls" "cc_errors (ctl_check_row H c e) = cc_errors c + length ls"
      using check_row_fields(3) [of H c e] by blast
    obtain ms where "cc_lines (foldl (ctl_check_row H) (ctl_check_row H c e) es) = (cc_lines c @ ls) @ ms"
      "cc_errors (foldl (ctl_check_row H) (ctl_check_row H c e) es) = cc_errors c + length ls + length ms"
      using Cons.IH(2) [of "ctl_check_row H c e"] unfolding a by blast
    then show ?case by (intro exI [of _ "ls @ ms"]) simp }
qed simp_all

definition row_fits :: "(string \<Rightarrow> string) \<Rightarrow> string \<Rightarrow> event \<Rightarrow> bool" where
  "row_fits H expected e = (ev_prev_hash e = expected \<and> H (event_input e) = ev_hash e)"

lemma verify_from_Cons: "verify_from H x (e # es) \<longleftrightarrow> row_fits H x e \<and> verify_from H (ev_hash e) es"
  by (auto simp: row_fits_def event_input_def compute_hash_def)

lemma check_row_fits: "row_fits H (cc_expected c) e \<Longrightarrow> cc_lines (ctl_check_row H c e) = cc_lines c"
  by (simp add: row_fits_def ctl_check_row_def Let_def)

lemma check_row_complains:
  "\<not> row_fits H (cc_expected c) e \<Longrightarrow>
   \<exists>ls. cc_lines (ctl_check_row H c e) = cc_lines c @ (if ev_prev_hash e = cc_expected c then mismatch_line H e
     else break_line e (cc_expected c)) # ls"
  by (auto simp: row_fits_def ctl_check_row_def Let_def)

text \<open>A chain that verifies gets no complaint; the first complaint names the first row at which agentd's own
  verification stops.\<close>

lemma check_verified: "verify_from H (cc_expected c) es \<Longrightarrow> cc_lines (foldl (ctl_check_row H) c es) = cc_lines c"
proof (induction es arbitrary: c)
  case (Cons e es)
  then have "row_fits H (cc_expected c) e" "verify_from H (cc_expected (ctl_check_row H c e)) es"
    unfolding verify_from_Cons check_row_fields by blast+
  then show ?case using Cons.IH check_row_fits by simp
qed simp

lemma first_bad_row:
  "\<not> verify_from H x es \<Longrightarrow> \<exists>pre e post. es = pre @ e # post \<and> verify_from H x pre \<and> \<not> verify_from H x (pre @ [e])"
proof (induction es rule: rev_induct)
  case (snoc e es)
  then show ?case by (cases "verify_from H x es") (metis append_Cons append_assoc)+
qed simp

definition expected_after :: "string \<Rightarrow> event list \<Rightarrow> string" where
  "expected_after x es = (if es = [] then x else ev_hash (last es))"

lemma check_expected: "cc_expected (foldl (ctl_check_row H) c es) = expected_after (cc_expected c) es"
  by (induction es rule: rev_induct) (simp_all add: expected_after_def check_row_fields)

lemma verify_from_snoc: "verify_from H x (es @ [e]) \<longleftrightarrow> verify_from H x es \<and> row_fits H (expected_after x es) e"
  by (induction es arbitrary: x) (auto simp: expected_after_def verify_from_Cons simp del: verify_from.simps(2))

lemma check_first_complaint:
  assumes "es = pre @ e # post" and "verify_from H (cc_expected c) pre" and "\<not> verify_from H (cc_expected c) (pre @ [e])"
  shows "\<exists>ls. cc_lines (foldl (ctl_check_row H) c es) = cc_lines c @
    (if ev_prev_hash e = expected_after (cc_expected c) pre then mismatch_line H e
     else break_line e (expected_after (cc_expected c) pre)) # ls"
proof -
  let ?c = "foldl (ctl_check_row H) c pre"
  have x: "cc_expected ?c = expected_after (cc_expected c) pre" by (rule check_expected)
  have "\<not> row_fits H (cc_expected ?c) e" using assms(2,3) unfolding x verify_from_snoc by blast
  from check_row_complains [OF this] obtain ls where "cc_lines (ctl_check_row H ?c e) = cc_lines ?c @
      (if ev_prev_hash e = cc_expected ?c then mismatch_line H e else break_line e (cc_expected ?c)) # ls" by blast
  moreover obtain ms where "cc_lines (foldl (ctl_check_row H) (ctl_check_row H ?c e) post) = cc_lines (ctl_check_row H ?c e) @ ms"
    using check_rows_fields(2) [of H "ctl_check_row H ?c e" post] by blast
  ultimately show ?thesis
    using check_verified [OF assms(2)] by (intro exI [of _ "ls @ ms"]) (simp add: assms(1) x)
qed

lemma ctl_start: "cc_expected ctl_check_start = genesis_prev_hash" "cc_lines ctl_check_start = []" "cc_errors ctl_check_start = 0"
  "cc_count ctl_check_start = 0"
  by (simp_all add: ctl_check_start_def genesis_prev_hash_def)

lemma errors_lines: "cc_errors (foldl (ctl_check_row H) ctl_check_start es) = length (cc_lines (foldl (ctl_check_row H) ctl_check_start es))"
  using check_rows_fields(2) [of H ctl_check_start es] by (auto simp: ctl_start)

lemma cmd_verify_agrees: "fst (cmd_verify_ledger H l) = 0 \<longleftrightarrow> verify H l"
proof (cases "verify H l")
  case True
  then have "cc_lines (foldl (ctl_check_row H) ctl_check_start (events l)) = []"
    using check_verified [of H ctl_check_start "events l"] by (simp add: ctl_start verify_def)
  then show ?thesis using True by (simp add: cmd_verify_ledger_def Let_def errors_lines)
next
  case False
  then obtain pre e post where "events l = pre @ e # post" "verify_from H genesis_prev_hash pre"
    "\<not> verify_from H genesis_prev_hash (pre @ [e])"
    using first_bad_row unfolding verify_def by blast
  from check_first_complaint [of "events l", where c = ctl_check_start, unfolded ctl_start, OF this] show ?thesis
    using False by (auto simp: cmd_verify_ledger_def Let_def errors_lines)
qed

lemma cmd_verify_first:
  assumes "events l = pre @ e # post" and "verify_from H genesis_prev_hash pre"
    and "\<not> verify_from H genesis_prev_hash (pre @ [e])"
  shows "\<exists>ls. cmd_verify_ledger H l = (1, (if ev_prev_hash e = expected_after genesis_prev_hash pre then mismatch_line H e
    else break_line e (expected_after genesis_prev_hash pre)) # ls)"
  using check_first_complaint [of "events l", where c = ctl_check_start, unfolded ctl_start, OF assms]
  by (auto simp: cmd_verify_ledger_def Let_def errors_lines)

text \<open>The counts by type add up to the total.\<close>

lemma sum_counts: "distinct ts \<Longrightarrow> set (List.map f es) \<subseteq> set ts \<Longrightarrow> sum_list (List.map (\<lambda>t. length (filter (\<lambda>e. f e = t) es)) ts) = length es"
proof (induction es)
  case (Cons e es)
  have "sum_list (List.map (\<lambda>t. length (filter (\<lambda>x. f x = t) (e # es))) ts) =
      sum_list (List.map (\<lambda>t. (if f e = t then 1 else 0) + length (filter (\<lambda>x. f x = t) es)) ts)"
    by (rule arg_cong [where f = sum_list]) simp
  also have "\<dots> = sum_list (List.map (\<lambda>t. if f e = t then 1 else 0) ts) + length es"
    using Cons by (simp add: sum_list_addf)
  also have "sum_list (List.map (\<lambda>t. if f e = t then 1 else 0) ts) = (1 :: nat)"
    using Cons.prems by (simp add: sum_list_distinct_conv_sum_set)
  finally show ?case by simp
qed simp

lemma type_counts_total:
  assumes "\<And>xs. distinct (ord xs) = distinct xs" and "\<And>xs. set (ord xs) = set xs"
  shows "sum_list (List.map snd (ctl_type_counts ord l)) = length (events l)"
proof -
  let ?ts = "ord (remdups (List.map ev_type (events l)))"
  let ?n = "\<lambda>t. length (filter (\<lambda>e. ev_type e = t) (events l))"
  have "mset (List.map snd (ctl_type_counts ord l)) = mset (List.map ?n ?ts)"
    by (simp add: ctl_type_counts_def image_mset.compositionality comp_def)
  then have "sum_list (List.map snd (ctl_type_counts ord l)) = sum_list (List.map ?n ?ts)"
    by (metis sum_mset_sum_list)
  then show ?thesis using sum_counts [of ?ts ev_type "events l"] assms by simp
qed

end
