(* ===== verification/Policy.thy ===== *)
theory Policy
  imports Decimal
begin

text \<open>
  \<open>crates/osmoda-keyd/src/policy.rs\<close>: fixed-point amounts and the daily spending policy of the
  key daemon. A \<open>u128\<close> amount is a \<open>nat\<close> below \<open>2 ^ 128\<close>; the counters of type \<open>u32\<close>
  wrap. The current date is a parameter. The counters file is part of the state; whether a write
  to it succeeds is a parameter.
\<close>

section \<open>Fixed-point amounts\<close>

definition decimals :: nat where
  "decimals = 18"

definition trim_end_zeros :: "string \<Rightarrow> string" where
  "trim_end_zeros s = rev (dropWhile (\<lambda>c. c = CHR ''0'') (rev s))"

definition amount_from_str :: "string \<Rightarrow> nat option" where
  "amount_from_str s0 =
     (let s = trim s0
      in if s = [] then None
         else let (integer_part, decimal_part) =
                (case split_first (CHR ''.'') s of None \<Rightarrow> (s, []) | Some p \<Rightarrow> p)
              in case parse_uint 128 integer_part of
                   None \<Rightarrow> None
                 | Some integer \<Rightarrow>
                     if decimals < length decimal_part then None
                     else case (if decimal_part = [] then Some 0 else parse_uint 128 decimal_part) of
                            None \<Rightarrow> None
                          | Some decimal \<Rightarrow>
                              (case checked_mul_w 128 integer (10 ^ decimals) of
                                 None \<Rightarrow> None
                               | Some a \<Rightarrow>
                                   (case checked_mul_w 128 decimal
                                           (10 ^ (decimals - length decimal_part)) of
                                      None \<Rightarrow> None
                                    | Some b \<Rightarrow> checked_add_w 128 a b)))"

definition amount_display :: "nat \<Rightarrow> string" where
  "amount_display a =
     (let scale = 10 ^ decimals; integer = a div scale; decimal = a mod scale
      in if decimal = 0 then dec integer @ ''.0''
         else dec integer @ ''.'' @ trim_end_zeros (pad0 18 (dec decimal)))"

section \<open>Policy and counters\<close>

record policy_rule =
  rl_action :: string
  rl_max_amount :: "string option"
  rl_period :: "string option"
  rl_allowed_destinations :: "string list option"
  rl_chain :: "string option"
  rl_max_per_day :: "nat option"

definition default_policy :: "policy_rule list" where
  "default_policy =
    [\<lparr>rl_action = ''send'', rl_max_amount = Some ''1.0'', rl_period = Some ''daily'',
      rl_allowed_destinations = None, rl_chain = Some ''ethereum'', rl_max_per_day = Some 10\<rparr>,
     \<lparr>rl_action = ''send'', rl_max_amount = Some ''10.0'', rl_period = Some ''daily'',
      rl_allowed_destinations = None, rl_chain = Some ''solana'', rl_max_per_day = Some 20\<rparr>,
     \<lparr>rl_action = ''sign'', rl_max_amount = None, rl_period = Some ''daily'',
      rl_allowed_destinations = None, rl_chain = None, rl_max_per_day = Some 100\<rparr>]"

datatype deny_reason = InvalidAmount | NotInAllowlist | SendLimit nat | AmountLimit | AmountOverflow
  | SignLimit nat

datatype policy_decision = Allowed | Denied_by deny_reason

record counters =
  cn_date :: string
  cn_send_counts :: "string \<Rightarrow> nat option"
  cn_send_amounts :: "string \<Rightarrow> nat option"
  cn_sign_count :: nat

record policy_engine =
  pe_rules :: "policy_rule list"
  pe_counters :: counters
  pe_disk :: "counters option"

definition new_counters :: "string \<Rightarrow> counters" where
  "new_counters today = \<lparr>cn_date = today, cn_send_counts = Map.empty, cn_send_amounts = Map.empty,
     cn_sign_count = 0\<rparr>"

definition reset_if_new_day :: "string \<Rightarrow> counters \<Rightarrow> counters" where
  "reset_if_new_day now c =
     (if now \<noteq> cn_date c
      then c\<lparr>cn_date := now, cn_send_counts := Map.empty, cn_send_amounts := Map.empty,
             cn_sign_count := 0\<rparr>
      else c)"

definition load_counters :: "string \<Rightarrow> counters option \<Rightarrow> counters option" where
  "load_counters today disk =
     (case disk of None \<Rightarrow> None | Some c \<Rightarrow> if cn_date c = today then Some c else None)"

text \<open>\<open>file\<close> is the parsed policy file, if there is one.\<close>

definition new_engine ::
  "string \<Rightarrow> policy_rule list option \<Rightarrow> counters option \<Rightarrow> policy_engine" where
  "new_engine today file disk =
     \<lparr>pe_rules = (case file of None \<Rightarrow> default_policy | Some r \<Rightarrow> r),
      pe_counters = (case load_counters today disk of None \<Rightarrow> new_counters today | Some c \<Rightarrow> c),
      pe_disk = disk\<rparr>"

definition persist_counters :: "bool \<Rightarrow> policy_engine \<Rightarrow> policy_engine" where
  "persist_counters io_ok e = (if io_ok then e\<lparr>pe_disk := Some (pe_counters e)\<rparr> else e)"

definition get_or_zero :: "(string \<Rightarrow> nat option) \<Rightarrow> string \<Rightarrow> nat" where
  "get_or_zero m k = (case m k of None \<Rightarrow> 0 | Some n \<Rightarrow> n)"

section \<open>Checks\<close>

text \<open>The body of the loop of \<open>check_send\<close> for one rule: a refusal, or go on.\<close>

definition send_rule_check ::
  "counters \<Rightarrow> string \<Rightarrow> nat \<Rightarrow> string \<Rightarrow> policy_rule \<Rightarrow> deny_reason option" where
  "send_rule_check c chain amount destination r =
     (if rl_action r \<noteq> ''send'' then None
      else if (case rl_chain r of None \<Rightarrow> False | Some rc \<Rightarrow> rc \<noteq> chain) then None
      else if (case rl_allowed_destinations r of None \<Rightarrow> False | Some ds \<Rightarrow> destination \<notin> set ds)
      then Some NotInAllowlist
      else if (case rl_max_per_day r of None \<Rightarrow> False
               | Some m \<Rightarrow> m \<le> get_or_zero (cn_send_counts c) chain)
      then Some (SendLimit (the (rl_max_per_day r)))
      else case rl_max_amount r of
             None \<Rightarrow> None
           | Some max_str \<Rightarrow>
               (case amount_from_str max_str of
                  None \<Rightarrow> None
                | Some max_amount \<Rightarrow>
                    (case checked_add_w 128 (get_or_zero (cn_send_amounts c) chain) amount of
                       None \<Rightarrow> Some AmountOverflow
                     | Some t \<Rightarrow> if max_amount < t then Some AmountLimit else None)))"

fun send_rules_check ::
  "counters \<Rightarrow> string \<Rightarrow> nat \<Rightarrow> string \<Rightarrow> policy_rule list \<Rightarrow> deny_reason option" where
  "send_rules_check c chain amount destination [] = None"
| "send_rules_check c chain amount destination (r # rs) =
     (case send_rule_check c chain amount destination r of
        Some d \<Rightarrow> Some d
      | None \<Rightarrow> send_rules_check c chain amount destination rs)"

definition record_send :: "counters \<Rightarrow> string \<Rightarrow> nat \<Rightarrow> counters" where
  "record_send c chain amount =
     (let current = get_or_zero (cn_send_amounts c) chain;
          new_total = (case checked_add_w 128 current amount of None \<Rightarrow> current | Some t \<Rightarrow> t)
      in c\<lparr>cn_send_counts := (cn_send_counts c)(chain \<mapsto>
             wrapping_add_w 32 (get_or_zero (cn_send_counts c) chain) 1),
           cn_send_amounts := (cn_send_amounts c)(chain \<mapsto> new_total)\<rparr>)"

definition check_send ::
  "string \<Rightarrow> bool \<Rightarrow> policy_engine \<Rightarrow> string \<Rightarrow> string \<Rightarrow> string \<Rightarrow> policy_engine \<times> policy_decision" where
  "check_send today io_ok e0 chain amount_str destination =
     (let e = e0\<lparr>pe_counters := reset_if_new_day today (pe_counters e0)\<rparr>
      in case amount_from_str amount_str of
           None \<Rightarrow> (e, Denied_by InvalidAmount)
         | Some amount \<Rightarrow>
             (case send_rules_check (pe_counters e) chain amount destination (pe_rules e) of
                Some d \<Rightarrow> (e, Denied_by d)
              | None \<Rightarrow>
                  (persist_counters io_ok
                     (e\<lparr>pe_counters := record_send (pe_counters e) chain amount\<rparr>), Allowed)))"

fun sign_rules_check :: "nat \<Rightarrow> policy_rule list \<Rightarrow> deny_reason option" where
  "sign_rules_check count [] = None"
| "sign_rules_check count (r # rs) =
     (if rl_action r \<noteq> ''sign'' then sign_rules_check count rs
      else case rl_max_per_day r of
             None \<Rightarrow> sign_rules_check count rs
           | Some m \<Rightarrow> if m \<le> count then Some (SignLimit m) else sign_rules_check count rs)"

definition check_sign :: "string \<Rightarrow> bool \<Rightarrow> policy_engine \<Rightarrow> policy_engine \<times> policy_decision" where
  "check_sign today io_ok e0 =
     (let e = e0\<lparr>pe_counters := reset_if_new_day today (pe_counters e0)\<rparr>
      in case sign_rules_check (cn_sign_count (pe_counters e)) (pe_rules e) of
           Some d \<Rightarrow> (e, Denied_by d)
         | None \<Rightarrow>
             (persist_counters io_ok (e\<lparr>pe_counters :=
                (pe_counters e)\<lparr>cn_sign_count := wrapping_add_w 32 (cn_sign_count (pe_counters e)) 1\<rparr>\<rparr>),
              Allowed))"

definition is_loaded :: "policy_engine \<Rightarrow> bool" where
  "is_loaded e = (pe_rules e \<noteq> [])"

section \<open>Printing and parsing amounts\<close>

lemma trim_end_zeros_split: "\<exists>k. s = trim_end_zeros s @ replicate k (CHR ''0'')"
proof (induction s rule: rev_induct)
  case Nil
  show ?case by (simp add: trim_end_zeros_def)
next
  case (snoc c s)
  then obtain k where k: "s = trim_end_zeros s @ replicate k (CHR ''0'')" by blast
  show ?case
  proof (cases "c = CHR ''0''")
    case True
    then have "trim_end_zeros (s @ [c]) = trim_end_zeros s" by (simp add: trim_end_zeros_def)
    moreover have "s @ [c] = trim_end_zeros s @ replicate (Suc k) (CHR ''0'')"
      using True by (subst k) (simp add: replicate_append_same)
    ultimately show ?thesis by metis
  next
    case False
    then have "trim_end_zeros (s @ [c]) = s @ [c]" by (simp add: trim_end_zeros_def)
    then show ?thesis by (intro exI [of _ 0]) simp
  qed
qed

lemma digit_not_dot [simp]: "ascii_digit c \<Longrightarrow> c \<noteq> CHR ''.''"
  by (auto simp: ascii_digit_def)

lemma digit_not_space: "ascii_digit c \<Longrightarrow> \<not> is_whitespace c"
  by (auto simp: ascii_digit_def is_whitespace_def)

lemma amount_parts:
  assumes i: "list_all ascii_digit i" "i \<noteq> []" "digits_val i < 2 ^ 128"
    and d: "list_all ascii_digit d" "d \<noteq> []" "length d \<le> decimals"
    and total: "digits_val i * 10 ^ decimals + digits_val d * 10 ^ (decimals - length d) < 2 ^ 128"
  shows "amount_from_str (i @ ''.'' @ d) =
     Some (digits_val i * 10 ^ decimals + digits_val d * 10 ^ (decimals - length d))"
proof -
  have "\<forall>c \<in> set (i @ ''.'' @ d). \<not> is_whitespace c"
    using i(1) d(1) digit_not_space by (auto simp: list_all_iff) (simp add: is_whitespace_def)
  then have t: "trim (i @ ''.'' @ d) = i @ ''.'' @ d" by (rule trim_id)
  have "CHR ''.'' \<notin> set i" using i(1) digit_not_dot by (fastforce simp: list_all_iff)
  then have s: "split_first (CHR ''.'') (i @ CHR ''.'' # d) = Some (i, d)" by simp
  have "digits_val d < 10 ^ length d" using d(1) by (rule digits_val_bound)
  also have "\<dots> \<le> 10 ^ 18"
    using d(3) power_increasing [of "length d" 18 "10 :: nat"] by (simp add: decimals_def)
  finally have dv: "digits_val d < 2 ^ 128" by simp
  show ?thesis
    using t s i d total parse_uint_digits [OF i] parse_uint_digits [OF d(1,2) dv]
    by (simp add: amount_from_str_def checked_mul_w_def checked_add_w_def)
qed

lemma amount_roundtrip:
  assumes "a < 2 ^ 128"
  shows "amount_from_str (amount_display a) = Some a"
proof -
  let ?S = "10 ^ decimals :: nat"
  have i: "list_all ascii_digit (dec (a div ?S))" "dec (a div ?S) \<noteq> []"
      "digits_val (dec (a div ?S)) < 2 ^ 128"
    using assms by (simp_all add: le_less_trans [OF div_le_dividend])
  have sum: "a div ?S * ?S + a mod ?S = a" by (rule div_mult_mod_eq)
  show ?thesis
  proof (cases "a mod ?S = 0")
    case True
    have "digits_val ''0'' = 0" "list_all ascii_digit ''0''"
      by (simp_all add: digits_val_def digit_val_def ascii_digit_def)
    then have "amount_from_str (dec (a div ?S) @ ''.'' @ ''0'') = Some (a div ?S * ?S)"
      using amount_parts [OF i, of "''0''"] True sum assms by (simp add: decimals_def)
    then show ?thesis using True sum by (simp add: amount_display_def Let_def)
  next
    case False
    let ?p = "pad0 18 (dec (a mod ?S))"
    let ?t = "trim_end_zeros ?p"
    obtain k where k: "?p = ?t @ replicate k (CHR ''0'')" using trim_end_zeros_split by blast
    have "a mod ?S < 10 ^ 18" by (simp add: decimals_def)
    then have len: "length ?p = 18" by (intro pad0_length length_dec_le) auto
    have val: "digits_val ?p = a mod ?S" by simp
    have tk: "length ?t + k = 18" using len k by (metis length_append length_replicate)
    have "digits_val ?p = digits_val ?t * 10 ^ k"
      by (subst k) (simp add: digits_val_append)
    with val have v: "digits_val ?t * 10 ^ k = a mod ?S" by simp
    have ne: "?t \<noteq> []" using v False by auto
    have td: "list_all ascii_digit ?t"
      using dec_digits [of "a mod ?S"] pad0_digits [of "dec (a mod ?S)" 18] k
      by (metis list_all_append)
    have "decimals - length ?t = k" using tk by (simp add: decimals_def)
    then have "amount_from_str (dec (a div ?S) @ ''.'' @ ?t) = Some (a div ?S * ?S + a mod ?S)"
      using amount_parts [OF i td ne] v sum tk assms by (simp add: decimals_def)
    then show ?thesis using False sum by (simp add: amount_display_def Let_def)
  qed
qed


section \<open>Quotas as an interface\<close>

text \<open>
  A metered service: a request is refused, leaving the metered quantity alone, or allowed,
  adding its cost, and never beyond the limit. Three meters of the policy engine satisfy this
  contract: the amount sent per chain, the number of sends per chain, the number of signatures.
\<close>

fun charged :: "('s \<Rightarrow> 'r \<Rightarrow> 's \<times> bool) \<Rightarrow> ('r \<Rightarrow> nat) \<Rightarrow> 's \<Rightarrow> 'r list \<Rightarrow> nat" where
  "charged serve cost s [] = 0"
| "charged serve cost s (r # rs) =
     (case serve s r of (s', allowed) \<Rightarrow>
        (if allowed then cost r else 0) + charged serve cost s' rs)"

fun serve_all :: "('s \<Rightarrow> 'r \<Rightarrow> 's \<times> bool) \<Rightarrow> 's \<Rightarrow> 'r list \<Rightarrow> 's" where
  "serve_all serve s [] = s"
| "serve_all serve s (r # rs) = serve_all serve (fst (serve s r)) rs"

locale quota =
  fixes serve :: "'s \<Rightarrow> 'r \<Rightarrow> 's \<times> bool"
    and cost :: "'r \<Rightarrow> nat"
    and used :: "'s \<Rightarrow> nat"
    and limit :: nat
    and metered :: "'s \<Rightarrow> bool"
  assumes allowed_cost: "metered s \<Longrightarrow> serve s r = (s', True) \<Longrightarrow> used s' = used s + cost r"
    and allowed_limit: "metered s \<Longrightarrow> serve s r = (s', True) \<Longrightarrow> 0 < cost r \<Longrightarrow>
      used s + cost r \<le> limit"
    and refused_cost: "metered s \<Longrightarrow> serve s r = (s', False) \<Longrightarrow> used s' = used s"
    and metered_serve: "metered s \<Longrightarrow> serve s r = (s', b) \<Longrightarrow> metered s'"
begin

lemma used_charged: "metered s \<Longrightarrow> used (serve_all serve s rs) = used s + charged serve cost s rs"
proof (induction rs arbitrary: s)
  case Nil
  show ?case by simp
next
  case (Cons r rs)
  obtain s' b where s': "serve s r = (s', b)" by (cases "serve s r")
  with Cons.prems have "metered s'" by (rule metered_serve)
  with Cons show ?case using s' allowed_cost refused_cost by (cases b) auto
qed

lemma used_limit: "metered s \<Longrightarrow> used s \<le> limit \<Longrightarrow> used (serve_all serve s rs) \<le> limit"
proof (induction rs arbitrary: s)
  case Nil
  then show ?case by simp
next
  case (Cons r rs)
  obtain s' b where s': "serve s r = (s', b)" by (cases "serve s r")
  have "used s' \<le> limit"
    using Cons.prems s' allowed_cost [of s r s'] allowed_limit [of s r s'] refused_cost [of s r s']
    by (cases b; cases "cost r = 0") auto
  with Cons metered_serve [OF Cons.prems(1) s'] s' show ?case by simp
qed

text \<open>What one run charges stays below the limit.\<close>

lemma charged_limit: "metered s \<Longrightarrow> used s \<le> limit \<Longrightarrow> used s + charged serve cost s rs \<le> limit"
  using used_charged used_limit by metis

end

text \<open>
  A client of a metered service: each of its operations either leaves the meter alone and spends
  nothing, or makes one request and spends at most what an allowed request is charged.
\<close>

fun total :: "('t \<Rightarrow> 'c \<Rightarrow> 't) \<Rightarrow> ('t \<Rightarrow> 'c \<Rightarrow> nat) \<Rightarrow> 't \<Rightarrow> 'c list \<Rightarrow> nat" where
  "total act spent t [] = 0"
| "total act spent t (c # cs) = spent t c + total act spent (act t c) cs"

locale spender = quota serve cost used limit metered
  for serve :: "'s \<Rightarrow> 'r \<Rightarrow> 's \<times> bool" and cost :: "'r \<Rightarrow> nat" and used :: "'s \<Rightarrow> nat"
    and limit :: nat and metered :: "'s \<Rightarrow> bool" +
  fixes act :: "'t \<Rightarrow> 'c \<Rightarrow> 't"
    and spent :: "'t \<Rightarrow> 'c \<Rightarrow> nat"
    and meter :: "'t \<Rightarrow> 's"
  assumes act_cases: "metered (meter t) \<Longrightarrow>
    used (meter (act t c)) = used (meter t) \<and> metered (meter (act t c)) \<and> spent t c = 0 \<or>
    (\<exists>r b. serve (meter t) r = (meter (act t c), b) \<and> spent t c \<le> (if b then cost r else 0))"
begin

lemma act_metered: "metered (meter t) \<Longrightarrow> metered (meter (act t c))"
  using act_cases metered_serve by blast

lemma act_used: "metered (meter t) \<Longrightarrow> used (meter t) + spent t c \<le> used (meter (act t c))"
  using act_cases [of t c] allowed_cost refused_cost by (fastforce split: if_splits)

lemma act_limit:
  assumes "metered (meter t)" and "used (meter t) \<le> limit"
  shows "used (meter (act t c)) \<le> limit"
proof -
  consider "used (meter (act t c)) = used (meter t)"
    | r b where "serve (meter t) r = (meter (act t c), b)" using act_cases [OF assms(1)] by blast
  then show ?thesis
  proof cases
    case 1
    with assms(2) show ?thesis by simp
  next
    case 2
    with used_limit [OF assms, of "[r]"] show ?thesis by simp
  qed
qed

text \<open>Whatever the client does, it spends no more than the limit leaves.\<close>

lemma spent_limit:
  "metered (meter t) \<Longrightarrow> used (meter t) \<le> limit \<Longrightarrow>
   used (meter t) + total act spent t cs \<le> limit"
proof (induction cs arbitrary: t)
  case Nil
  then show ?case by simp
next
  case (Cons c cs)
  then have "used (meter (act t c)) + total act spent (act t c) cs \<le> limit"
    using act_metered act_limit by blast
  with act_used [OF Cons.prems(1), of c] show ?case by simp
qed

end

section \<open>The meters of the engine\<close>

type_synonym send_request = "bool \<times> string \<times> string \<times> string"

text \<open>One day's service: a request is whether the counters file can be written, the chain, the
  amount and the destination.\<close>

definition serve_send :: "string \<Rightarrow> policy_engine \<Rightarrow> send_request \<Rightarrow> policy_engine \<times> bool" where
  "serve_send today e r =
     (case r of (io_ok, chain, amount, destination) \<Rightarrow>
        (case check_send today io_ok e chain amount destination of (e', d) \<Rightarrow> (e', d = Allowed)))"

definition serve_sign :: "string \<Rightarrow> policy_engine \<Rightarrow> bool \<Rightarrow> policy_engine \<times> bool" where
  "serve_sign today e io_ok =
     (case check_sign today io_ok e of (e', d) \<Rightarrow> (e', d = Allowed))"

definition today_counters :: "string \<Rightarrow> policy_engine \<Rightarrow> counters" where
  "today_counters today e = reset_if_new_day today (pe_counters e)"

definition amount_used :: "string \<Rightarrow> string \<Rightarrow> policy_engine \<Rightarrow> nat" where
  "amount_used today chain e = get_or_zero (cn_send_amounts (today_counters today e)) chain"

definition sends_used :: "string \<Rightarrow> string \<Rightarrow> policy_engine \<Rightarrow> nat" where
  "sends_used today chain e = get_or_zero (cn_send_counts (today_counters today e)) chain"

definition signs_used :: "string \<Rightarrow> policy_engine \<Rightarrow> nat" where
  "signs_used today e = cn_sign_count (today_counters today e)"

definition amount_cost :: "string \<Rightarrow> send_request \<Rightarrow> nat" where
  "amount_cost chain r = (case r of (_, c, amount, _) \<Rightarrow>
     if c = chain then (case amount_from_str amount of None \<Rightarrow> 0 | Some a \<Rightarrow> a) else 0)"

definition send_cost :: "string \<Rightarrow> send_request \<Rightarrow> nat" where
  "send_cost chain r = (if fst (snd r) = chain then 1 else 0)"

text \<open>A rule of the policy that meters sends on the chain.\<close>

definition send_rule_for :: "string \<Rightarrow> policy_rule \<Rightarrow> bool" where
  "send_rule_for chain r = (rl_action r = ''send'' \<and>
     (case rl_chain r of None \<Rightarrow> True | Some c \<Rightarrow> c = chain))"

definition amount_metered :: "string \<Rightarrow> nat \<Rightarrow> policy_engine \<Rightarrow> bool" where
  "amount_metered chain m e = (\<exists>r \<in> set (pe_rules e). send_rule_for chain r \<and>
     (case rl_max_amount r of None \<Rightarrow> False | Some s \<Rightarrow> amount_from_str s = Some m))"

definition sends_metered :: "string \<Rightarrow> nat \<Rightarrow> policy_engine \<Rightarrow> bool" where
  "sends_metered chain n e = (n < 2 ^ 32 \<and>
     (\<exists>r \<in> set (pe_rules e). send_rule_for chain r \<and> rl_max_per_day r = Some n))"

definition signs_metered :: "nat \<Rightarrow> policy_engine \<Rightarrow> bool" where
  "signs_metered n e = (n < 2 ^ 32 \<and>
     (\<exists>r \<in> set (pe_rules e). rl_action r = ''sign'' \<and> rl_max_per_day r = Some n))"

lemma send_rules_check_None:
  "send_rules_check c chain a d rs = None \<longleftrightarrow> (\<forall>r \<in> set rs. send_rule_check c chain a d r = None)"
  by (induction rs) (auto split: option.split)

lemma sign_rules_check_None:
  "sign_rules_check n rs = None \<longleftrightarrow>
   (\<forall>r \<in> set rs. \<forall>m. rl_action r = ''sign'' \<longrightarrow> rl_max_per_day r = Some m \<longrightarrow> n < m)"
  by (induction rs) (auto split: option.split)

lemma send_rule_amount:
  assumes "send_rule_check c chain a d r = None" and "send_rule_for chain r"
    and "rl_max_amount r = Some s" and "amount_from_str s = Some m"
  shows "get_or_zero (cn_send_amounts c) chain + a \<le> m"
  using assms
  by (auto simp: send_rule_check_def send_rule_for_def checked_add_w_def
      split: if_splits option.splits)

lemma send_rule_count:
  assumes "send_rule_check c chain a d r = None" and "send_rule_for chain r"
    and "rl_max_per_day r = Some n"
  shows "get_or_zero (cn_send_counts c) chain < n"
  using assms
  by (auto simp: send_rule_check_def send_rule_for_def split: if_splits option.splits)

lemma check_send_cases:
  assumes "check_send today io_ok e chain amount dst = (e', d)"
  shows "(d \<noteq> Allowed \<and> today_counters today e' = today_counters today e \<or>
          d = Allowed \<and> (\<exists>a. amount_from_str amount = Some a \<and>
            send_rules_check (today_counters today e) chain a dst (pe_rules e) = None \<and>
            today_counters today e' = record_send (today_counters today e) chain a)) \<and>
         pe_rules e' = pe_rules e"
proof -
  have i: "reset_if_new_day today (reset_if_new_day today c) = reset_if_new_day today c" for c
    by (simp add: reset_if_new_day_def)
  have r: "reset_if_new_day today (record_send (reset_if_new_day today c) chain a) =
      record_send (reset_if_new_day today c) chain a" for c a
    by (simp add: reset_if_new_day_def record_send_def Let_def)
  show ?thesis using assms
    by (auto simp: check_send_def Let_def today_counters_def persist_counters_def i r
        split: option.splits if_splits)
qed

lemma from_str_bound: "amount_from_str s = Some a \<Longrightarrow> a < 2 ^ 128"
  by (auto simp: amount_from_str_def checked_add_w_def Let_def split: option.splits if_splits prod.splits)

lemma serve_send_True:
  assumes "serve_send today e (io_ok, c, amount, dst) = (e', True)"
  obtains a where "amount_from_str amount = Some a"
    "\<forall>r \<in> set (pe_rules e). send_rule_check (today_counters today e) c a dst r = None"
    "today_counters today e' = record_send (today_counters today e) c a"
  using assms check_send_cases [of today io_ok e c amount dst]
  by (auto simp: serve_send_def send_rules_check_None split: prod.splits)

lemma serve_send_False:
  "serve_send today e (io_ok, c, amount, dst) = (e', False) \<Longrightarrow>
   today_counters today e' = today_counters today e"
  using check_send_cases [of today io_ok e c amount dst]
  by (auto simp: serve_send_def split: prod.splits)

lemma serve_send_rules: "serve_send today e (io_ok, c, amount, dst) = (e', b) \<Longrightarrow> pe_rules e' = pe_rules e"
  using check_send_cases [of today io_ok e c amount dst]
  by (auto simp: serve_send_def split: prod.splits)

lemma amount_room:
  assumes "amount_metered chain m e"
    and "\<forall>r \<in> set (pe_rules e). send_rule_check k chain a dst r = None"
  shows "get_or_zero (cn_send_amounts k) chain + a \<le> m"
  using assms send_rule_amount by (auto simp: amount_metered_def split: option.splits)

lemma count_room:
  assumes "sends_metered chain n e"
    and "\<forall>r \<in> set (pe_rules e). send_rule_check k chain a dst r = None"
  shows "get_or_zero (cn_send_counts k) chain < n"
  using assms send_rule_count by (auto simp: sends_metered_def)

lemma record_send_amount:
  "get_or_zero (cn_send_amounts (record_send k c a)) chain =
     (if c = chain \<and> get_or_zero (cn_send_amounts k) chain + a < 2 ^ 128
      then get_or_zero (cn_send_amounts k) chain + a else get_or_zero (cn_send_amounts k) chain)"
  by (auto simp: record_send_def get_or_zero_def checked_add_w_def Let_def)

lemma record_send_count:
  "get_or_zero (cn_send_counts (record_send k c a)) chain =
     (if c = chain then wrapping_add_w 32 (get_or_zero (cn_send_counts k) chain) 1
      else get_or_zero (cn_send_counts k) chain)"
  by (auto simp: record_send_def get_or_zero_def Let_def)

interpretation amount_quota:
  quota "serve_send today" "amount_cost chain" "amount_used today chain" m
    "\<lambda>e. m < 2 ^ 128 \<and> amount_metered chain m e"
  for today chain m
proof
  fix e :: policy_engine and r :: send_request and e' :: policy_engine
  obtain io_ok c amount dst where r: "r = (io_ok, c, amount, dst)" by (cases r)
  assume m: "m < 2 ^ 128 \<and> amount_metered chain m e"
  {
    assume "serve_send today e r = (e', True)"
    then obtain a where a: "amount_from_str amount = Some a"
      and none: "\<forall>r \<in> set (pe_rules e). send_rule_check (today_counters today e) c a dst r = None"
      and e': "today_counters today e' = record_send (today_counters today e) c a"
      using r serve_send_True by blast
    have le: "c = chain \<Longrightarrow> get_or_zero (cn_send_amounts (today_counters today e)) chain + a \<le> m"
      using none m amount_room by blast
    with m show "amount_used today chain e' = amount_used today chain e + amount_cost chain r"
      by (auto simp: amount_used_def amount_cost_def e' record_send_amount a r)
    show "0 < amount_cost chain r \<Longrightarrow> amount_used today chain e + amount_cost chain r \<le> m"
      using le a r by (simp add: amount_cost_def amount_used_def split: if_splits)
  next
    assume "serve_send today e r = (e', False)"
    then show "amount_used today chain e' = amount_used today chain e"
      using r serve_send_False by (simp add: amount_used_def)
  next
    fix b
    assume "serve_send today e r = (e', b)"
    then show "m < 2 ^ 128 \<and> amount_metered chain m e'"
      using r m serve_send_rules by (simp add: amount_metered_def)
  }
qed

interpretation send_quota:
  quota "serve_send today" "send_cost chain" "sends_used today chain" n
    "sends_metered chain n"
  for today chain n
proof
  fix e :: policy_engine and r :: send_request and e' :: policy_engine
  obtain io_ok c amount dst where r: "r = (io_ok, c, amount, dst)" by (cases r)
  assume m: "sends_metered chain n e"
  {
    assume "serve_send today e r = (e', True)"
    then obtain a
      where none: "\<forall>r \<in> set (pe_rules e). send_rule_check (today_counters today e) c a dst r = None"
      and e': "today_counters today e' = record_send (today_counters today e) c a"
      using r serve_send_True by blast
    have le: "c = chain \<Longrightarrow> get_or_zero (cn_send_counts (today_counters today e)) chain < n"
      using none m count_room by blast
    moreover have "n < 2 ^ 32" using m by (simp add: sends_metered_def)
    ultimately show "sends_used today chain e' = sends_used today chain e + send_cost chain r"
      by (auto simp: sends_used_def send_cost_def e' record_send_count r wrapping_add_w_def)
    show "0 < send_cost chain r \<Longrightarrow> sends_used today chain e + send_cost chain r \<le> n"
      using le r by (simp add: send_cost_def sends_used_def split: if_splits)
  next
    assume "serve_send today e r = (e', False)"
    then show "sends_used today chain e' = sends_used today chain e"
      using r serve_send_False by (simp add: sends_used_def)
  next
    fix b
    assume "serve_send today e r = (e', b)"
    then show "sends_metered chain n e'"
      using r m serve_send_rules by (simp add: sends_metered_def)
  }
qed

lemma check_sign_cases:
  assumes "check_sign today io_ok e = (e', d)"
  shows "(d \<noteq> Allowed \<and> today_counters today e' = today_counters today e \<or>
          d = Allowed \<and> sign_rules_check (cn_sign_count (today_counters today e)) (pe_rules e) = None \<and>
            today_counters today e' = (today_counters today e)\<lparr>cn_sign_count :=
              wrapping_add_w 32 (cn_sign_count (today_counters today e)) 1\<rparr>) \<and>
         pe_rules e' = pe_rules e"
proof -
  have i: "reset_if_new_day today (reset_if_new_day today c) = reset_if_new_day today c" for c
    by (simp add: reset_if_new_day_def)
  have r: "reset_if_new_day today ((reset_if_new_day today c)\<lparr>cn_sign_count := n\<rparr>) =
      (reset_if_new_day today c)\<lparr>cn_sign_count := n\<rparr>" for c n
    by (simp add: reset_if_new_day_def)
  show ?thesis using assms
    by (auto simp: check_sign_def Let_def today_counters_def persist_counters_def i r
        split: option.splits if_splits)
qed

interpretation sign_quota:
  quota "serve_sign today" "\<lambda>_. 1" "signs_used today" n "signs_metered n"
  for today n
proof
  fix e :: policy_engine and r :: bool and e' :: policy_engine
  assume m: "signs_metered n e"
  note cases = check_sign_cases [of today r e e']
  {
    assume "serve_sign today e r = (e', True)"
    then have c: "check_sign today r e = (e', Allowed)"
      by (auto simp: serve_sign_def split: prod.splits)
    with cases have lt: "cn_sign_count (today_counters today e) < n"
      using m by (auto simp: signs_metered_def sign_rules_check_None)
    moreover have "n < 2 ^ 32" using m by (simp add: signs_metered_def)
    ultimately show "signs_used today e' = signs_used today e + 1"
      using c cases by (simp add: signs_used_def wrapping_add_w_def)
    show "0 < (1 :: nat) \<Longrightarrow> signs_used today e + 1 \<le> n" using lt by (simp add: signs_used_def)
  next
    assume "serve_sign today e r = (e', False)"
    then show "signs_used today e' = signs_used today e"
      using cases by (auto simp: serve_sign_def signs_used_def split: prod.splits)
  next
    fix b
    assume "serve_sign today e r = (e', b)"
    then show "signs_metered n e'"
      using m check_sign_cases [of today r e e']
      by (auto simp: serve_sign_def signs_metered_def split: prod.splits)
  }
qed

text \<open>A request of one kind leaves the meters of the other alone.\<close>

lemma serve_sign_keeps:
  assumes "serve_sign today e r = (e', b)"
  shows "pe_rules e' = pe_rules e \<and> amount_used today chain e' = amount_used today chain e \<and>
    sends_used today chain e' = sends_used today chain e"
proof -
  obtain d where "check_sign today r e = (e', d)"
    using assms by (auto simp: serve_sign_def split: prod.splits)
  from check_sign_cases [OF this] show ?thesis by (auto simp: amount_used_def sends_used_def)
qed

lemma serve_send_keeps:
  assumes "serve_send today e r = (e', b)"
  shows "pe_rules e' = pe_rules e \<and> signs_used today e' = signs_used today e"
proof -
  obtain io_ok c amount dst where r: "r = (io_ok, c, amount, dst)" by (cases r)
  then obtain d where "check_send today io_ok e c amount dst = (e', d)"
    using assms by (auto simp: serve_send_def split: prod.splits)
  from check_send_cases [OF this] show ?thesis
    by (auto simp: signs_used_def record_send_def Let_def)
qed

section \<open>Restarts\<close>

text \<open>The counters file carries the day's use across a restart.\<close>

lemma restart_keeps_counters:
  assumes "check_send today True e chain amount dst = (e', Allowed)"
  shows "pe_counters (new_engine today file (pe_disk e')) = pe_counters e'"
proof -
  have "cn_date (record_send (reset_if_new_day today c) chain a) = today" for c a
    by (simp add: record_send_def reset_if_new_day_def Let_def)
  then show ?thesis using assms
    by (auto simp: check_send_def persist_counters_def new_engine_def load_counters_def Let_def
        split: option.splits)
qed

lemma counters_of_another_day:
  "cn_date c \<noteq> today \<Longrightarrow> pe_counters (new_engine today file (Some c)) = new_counters today"
  by (simp add: new_engine_def load_counters_def)

end
