(* ===== verification/Wallet.thy ===== *)
theory Wallet
  imports Policy Transactions
begin

text \<open>
  \<open>crates/osmoda-keyd/src/signer.rs\<close> and \<open>api.rs\<close>: the local key backend (wallet index,
  encrypted key files, cache of decrypted keys) and the wallet endpoints, which put the spending
  policy in front of every signature. Parameters are AES-256-GCM, key generation, the chain
  signers, and what clock, UUID and random generator give one call. \<open>Instant\<close>s are nanoseconds;
  \<open>duration_since\<close> saturates at zero, as subtraction on \<open>nat\<close> does.
\<close>

datatype chain = Ethereum | Solana

fun chain_text :: "chain \<Rightarrow> string" where
  "chain_text Ethereum = ''ethereum''"
| "chain_text Solana = ''solana''"

record wallet_info =
  wi_id :: string
  wi_label :: string
  wi_chain :: chain
  wi_address :: string
  wi_created_at :: timestamp

record key_backend =
  kb_master_key :: bytes
  kb_wallets :: "wallet_info list"
  kb_saved :: "wallet_info list"
  kb_files :: "string \<Rightarrow> bytes option"
  kb_cache :: "string \<Rightarrow> (bytes \<times> nat) option"

record crypto =
  cy_encrypt :: "bytes \<Rightarrow> bytes \<Rightarrow> bytes \<Rightarrow> bytes"
  cy_decrypt :: "bytes \<Rightarrow> bytes \<Rightarrow> bytes \<Rightarrow> bytes option"
  cy_sign_eth :: "bytes \<Rightarrow> (bytes \<Rightarrow> bytes) option"
  cy_sign_sol :: "bytes \<Rightarrow> bytes \<Rightarrow> bytes"

datatype key_error = LabelTooLong | WalletNotFound | KeyFileMissing | TooShort | DecryptFailed
  | BadKey

definition key_cache_ttl :: nat where
  "key_cache_ttl = 300 * 1000000000"

section \<open>The key backend\<close>

definition encrypt_key :: "crypto \<Rightarrow> key_backend \<Rightarrow> bytes \<Rightarrow> bytes \<Rightarrow> bytes" where
  "encrypt_key cy b nonce plaintext = nonce @ cy_encrypt cy (kb_master_key b) nonce plaintext"

definition decrypt_key :: "crypto \<Rightarrow> key_backend \<Rightarrow> bytes \<Rightarrow> key_error + bytes" where
  "decrypt_key cy b data =
     (if length data < 12 then Inl TooShort
      else case cy_decrypt cy (kb_master_key b) (take 12 data) (drop 12 data) of
             None \<Rightarrow> Inl DecryptFailed
           | Some p \<Rightarrow> Inr p)"

definition save_index :: "key_backend \<Rightarrow> key_backend" where
  "save_index b = b\<lparr>kb_saved := kb_wallets b\<rparr>"

text \<open>\<open>generated\<close> is the fresh key pair: its address and secret bytes.\<close>

definition create_wallet ::
  "crypto \<Rightarrow> string \<Rightarrow> timestamp \<Rightarrow> bytes \<Rightarrow> (chain \<Rightarrow> string \<times> bytes) \<Rightarrow> key_backend \<Rightarrow> chain \<Rightarrow> string
    \<Rightarrow> key_backend \<times> (key_error + wallet_info)" where
  "create_wallet cy uuid now nonce generated b ch label =
     (if 128 < length label then (b, Inl LabelTooLong)
      else let (address, key_bytes) = generated ch;
               info = \<lparr>wi_id = uuid, wi_label = label, wi_chain = ch, wi_address = address,
                       wi_created_at = now\<rparr>;
               b1 = b\<lparr>kb_files := (kb_files b)(uuid \<mapsto> encrypt_key cy b nonce key_bytes)\<rparr>
           in (save_index (b1\<lparr>kb_wallets := kb_wallets b1 @ [info]\<rparr>), Inr info))"

definition evict_stale_keys :: "nat \<Rightarrow> key_backend \<Rightarrow> key_backend" where
  "evict_stale_keys now b =
     b\<lparr>kb_cache := (\<lambda>i. case kb_cache b i of
         None \<Rightarrow> None
       | Some (k, t) \<Rightarrow> if key_cache_ttl < now - t then None else Some (k, t))\<rparr>"

definition load_key_bytes ::
  "crypto \<Rightarrow> nat \<Rightarrow> key_backend \<Rightarrow> string \<Rightarrow> key_backend \<times> (key_error + bytes)" where
  "load_key_bytes cy now b0 i =
     (let b = evict_stale_keys now b0
      in case kb_cache b i of
           Some (k, t) \<Rightarrow> (b\<lparr>kb_cache := (kb_cache b)(i \<mapsto> (k, now))\<rparr>, Inr k)
         | None \<Rightarrow>
             (case kb_files b i of
                None \<Rightarrow> (b, Inl KeyFileMissing)
              | Some encrypted \<Rightarrow>
                  (case decrypt_key cy b encrypted of
                     Inl e \<Rightarrow> (b, Inl e)
                   | Inr k \<Rightarrow> (b\<lparr>kb_cache := (kb_cache b)(i \<mapsto> (k, now))\<rparr>, Inr k))))"

definition sign_message ::
  "crypto \<Rightarrow> nat \<Rightarrow> key_backend \<Rightarrow> string \<Rightarrow> bytes \<Rightarrow> key_backend \<times> (key_error + bytes)" where
  "sign_message cy now b i message =
     (case find_by wi_id i (kb_wallets b) of
        None \<Rightarrow> (b, Inl WalletNotFound)
      | Some w \<Rightarrow>
          (case load_key_bytes cy now b i of
             (b', Inl e) \<Rightarrow> (b', Inl e)
           | (b', Inr k) \<Rightarrow>
               (case wi_chain w of
                  Ethereum \<Rightarrow> (case cy_sign_eth cy k of
                                 None \<Rightarrow> (b', Inl BadKey)
                               | Some sign \<Rightarrow> (b', Inr (sign message)))
                | Solana \<Rightarrow> (if length k < 32 then (b', Inl BadKey)
                             else (b', Inr (cy_sign_sol cy (take 32 k) message))))))"

definition delete_wallet :: "key_backend \<Rightarrow> string \<Rightarrow> key_backend \<times> (key_error + unit)" where
  "delete_wallet b i =
     (case find_by wi_id i (kb_wallets b) of
        None \<Rightarrow> (b, Inl WalletNotFound)
      | Some w \<Rightarrow>
          (save_index (b\<lparr>kb_files := (kb_files b)(i := None), kb_cache := (kb_cache b)(i := None),
                         kb_wallets := filter (\<lambda>w. wi_id w \<noteq> i) (kb_wallets b)\<rparr>), Inr ()))"

definition wallet_count :: "key_backend \<Rightarrow> nat" where
  "wallet_count b = length (kb_wallets b)"

section \<open>The wallet endpoints\<close>

record wallet_receipt =
  wr_wallet :: string
  wr_action :: string
  wr_chain :: string
  wr_to :: "string option"
  wr_amount :: "string option"
  wr_decision :: policy_decision

record keyd =
  kd_signer :: key_backend
  kd_policy :: policy_engine
  kd_receipts :: "wallet_receipt list"

record keyd_env =
  ke_today :: string
  ke_now :: timestamp
  ke_instant :: nat
  ke_uuid :: string
  ke_nonce :: bytes
  ke_generated :: "chain \<Rightarrow> string \<times> bytes"
  ke_io_ok :: bool

datatype 'a wreply = WFail nat | WOk 'a

definition log_receipt ::
  "keyd \<Rightarrow> string \<Rightarrow> string \<Rightarrow> string \<Rightarrow> string option \<Rightarrow> string option \<Rightarrow> policy_decision \<Rightarrow> keyd" where
  "log_receipt st i action ch to amount d =
     st\<lparr>kd_receipts := kd_receipts st @ [\<lparr>wr_wallet = i, wr_action = action, wr_chain = ch,
        wr_to = to, wr_amount = amount, wr_decision = d\<rparr>]\<rparr>"

definition wallet_create_handler ::
  "crypto \<Rightarrow> keyd_env \<Rightarrow> keyd \<Rightarrow> chain \<Rightarrow> string \<Rightarrow> keyd \<times> wallet_info wreply" where
  "wallet_create_handler cy env st ch label =
     (case create_wallet cy (ke_uuid env) (ke_now env) (ke_nonce env) (ke_generated env)
             (kd_signer st) ch label of
        (b, Inl _) \<Rightarrow> (st\<lparr>kd_signer := b\<rparr>, WFail 500)
      | (b, Inr w) \<Rightarrow>
          (log_receipt (st\<lparr>kd_signer := b\<rparr>) (wi_id w) ''create'' (chain_text (wi_chain w)) None None
             Allowed, WOk w))"

definition wallet_list_handler :: "keyd \<Rightarrow> wallet_info list" where
  "wallet_list_handler st = kb_wallets (kd_signer st)"

definition wallet_sign_handler ::
  "crypto \<Rightarrow> (string \<Rightarrow> bytes option) \<Rightarrow> (bytes \<Rightarrow> string) \<Rightarrow> keyd_env \<Rightarrow> keyd \<Rightarrow> string \<Rightarrow> string
    \<Rightarrow> keyd \<times> string wreply" where
  "wallet_sign_handler cy hex_decode hex_encode env st i payload =
     (case find_by wi_id i (kb_wallets (kd_signer st)) of
        None \<Rightarrow> (st, WFail 404)
      | Some w \<Rightarrow>
          (let ch = chain_text (wi_chain w);
               (p, d) = check_sign (ke_today env) (ke_io_ok env) (kd_policy st);
               st1 = st\<lparr>kd_policy := p\<rparr>
           in case d of
                Denied_by r \<Rightarrow> (log_receipt st1 i ''sign'' ch None None d, WFail 403)
              | Allowed \<Rightarrow>
                  (case hex_decode payload of
                     None \<Rightarrow> (st1, WFail 400)
                   | Some message \<Rightarrow>
                       (case sign_message cy (ke_instant env) (kd_signer st1) i message of
                          (b, Inl _) \<Rightarrow> (st1\<lparr>kd_signer := b\<rparr>, WFail 500)
                        | (b, Inr sig) \<Rightarrow>
                            (log_receipt (st1\<lparr>kd_signer := b\<rparr>) i ''sign'' ch None None Allowed,
                             WOk (hex_encode sig))))))"

definition wallet_send_handler ::
  "crypto \<Rightarrow> (bytes \<Rightarrow> string) \<Rightarrow> keyd_env \<Rightarrow> keyd \<Rightarrow> string \<Rightarrow> string \<Rightarrow> string
    \<Rightarrow> keyd \<times> string wreply" where
  "wallet_send_handler cy hex_encode env st i to amount =
     (case find_by wi_id i (kb_wallets (kd_signer st)) of
        None \<Rightarrow> (st, WFail 404)
      | Some w \<Rightarrow>
          (let ch = chain_text (wi_chain w);
               (p, d) = check_send (ke_today env) (ke_io_ok env) (kd_policy st) ch amount to;
               st1 = st\<lparr>kd_policy := p\<rparr>
           in case d of
                Denied_by r \<Rightarrow> (log_receipt st1 i ''send'' ch (Some to) (Some amount) d, WFail 403)
              | Allowed \<Rightarrow>
                  (let intent = ''send:'' @ ch @ '':'' @ to @ '':'' @ amount
                   in case sign_message cy (ke_instant env) (kd_signer st1) i (bytes_of intent) of
                        (b, Inl _) \<Rightarrow> (st1\<lparr>kd_signer := b\<rparr>, WFail 500)
                      | (b, Inr sig) \<Rightarrow>
                          (log_receipt (st1\<lparr>kd_signer := b\<rparr>) i ''send'' ch (Some to) (Some amount)
                             Allowed, WOk (hex_encode sig)))))"

text \<open>\<open>chain_params\<close> of a build request, as the handler reads them from the JSON object.\<close>

record build_params =
  bp_chain_id :: "64 word option"
  bp_nonce :: "64 word option"
  bp_max_fee :: "64 word option"
  bp_max_priority_fee :: "64 word option"
  bp_gas_limit :: "64 word option"
  bp_data :: "string option"
  bp_recent_blockhash :: "string option"

datatype built_tx = EthTx eth_tx_result | SolTx sol_tx_result

record chain_crypto =
  cc_eth_key :: "bytes \<Rightarrow> eth_key option"
  cc_sol_key :: "bytes \<Rightarrow> sol_key"
  cc_keccak :: "bytes \<Rightarrow> bytes"
  cc_hex_decode :: "string \<Rightarrow> bytes option"
  cc_hex_encode :: "bytes \<Rightarrow> string"
  cc_b58_decode :: "string \<Rightarrow> bytes option"
  cc_b58_encode :: "bytes \<Rightarrow> string"

definition eth_params :: "build_params \<Rightarrow> string \<Rightarrow> string \<Rightarrow> eth_tx_params" where
  "eth_params bp to amount =
     \<lparr>etx_chain_id = (case bp_chain_id bp of None \<Rightarrow> 1 | Some n \<Rightarrow> n),
      etx_nonce = (case bp_nonce bp of None \<Rightarrow> 0 | Some n \<Rightarrow> n),
      etx_to = to, etx_value = amount,
      etx_max_fee = (case bp_max_fee bp of None \<Rightarrow> 30000000000 | Some n \<Rightarrow> n),
      etx_max_priority_fee = (case bp_max_priority_fee bp of None \<Rightarrow> 1000000000 | Some n \<Rightarrow> n),
      etx_gas_limit = (case bp_gas_limit bp of None \<Rightarrow> 21000 | Some n \<Rightarrow> n),
      etx_data = bp_data bp\<rparr>"

definition build_for_chain ::
  "chain_crypto \<Rightarrow> build_params \<Rightarrow> chain \<Rightarrow> bytes \<Rightarrow> string \<Rightarrow> string \<Rightarrow> built_tx option" where
  "build_for_chain cc bp ch key_bytes to amount =
     (case ch of
        Ethereum \<Rightarrow>
          (case build_and_sign_eip1559 (cc_eth_key cc) (cc_keccak cc) (cc_hex_decode cc)
                  (cc_hex_encode cc) key_bytes (eth_params bp to amount) of
             Inl _ \<Rightarrow> None
           | Inr r \<Rightarrow> Some (EthTx r))
      | Solana \<Rightarrow>
          (case bp_recent_blockhash bp of
             None \<Rightarrow> None
           | Some recent \<Rightarrow>
               (case parse_uint 64 amount of
                  None \<Rightarrow> None
                | Some lamports \<Rightarrow>
                    (case build_and_sign_transfer (cc_sol_key cc) (cc_b58_decode cc)
                            (cc_b58_encode cc) key_bytes to (word_of_nat lamports) recent of
                       Inl _ \<Rightarrow> None
                     | Inr r \<Rightarrow> Some (SolTx r)))))"

definition wallet_build_tx_handler ::
  "crypto \<Rightarrow> chain_crypto \<Rightarrow> keyd_env \<Rightarrow> keyd \<Rightarrow> string \<Rightarrow> string \<Rightarrow> string \<Rightarrow> build_params
    \<Rightarrow> keyd \<times> built_tx wreply" where
  "wallet_build_tx_handler cy cc env st i to amount bp =
     (case find_by wi_id i (kb_wallets (kd_signer st)) of
        None \<Rightarrow> (st, WFail 404)
      | Some w \<Rightarrow>
          (let ch = chain_text (wi_chain w);
               (p, d) = check_send (ke_today env) (ke_io_ok env) (kd_policy st) ch amount to;
               st1 = st\<lparr>kd_policy := p\<rparr>
           in case d of
                Denied_by r \<Rightarrow> (log_receipt st1 i ''build_tx'' ch (Some to) (Some amount) d, WFail 403)
              | Allowed \<Rightarrow>
                  (case load_key_bytes cy (ke_instant env) (kd_signer st1) i of
                     (b, Inl _) \<Rightarrow> (st1\<lparr>kd_signer := b\<rparr>, WFail 500)
                   | (b, Inr key_bytes) \<Rightarrow>
                       (let st2 = st1\<lparr>kd_signer := b\<rparr>
                        in case build_for_chain cc bp (wi_chain w) key_bytes to amount of
                             None \<Rightarrow> (st2, WFail 400)
                           | Some tx \<Rightarrow>
                               (log_receipt st2 i ''build_tx'' ch (Some to) (Some amount) Allowed,
                                WOk tx)))))"

definition wallet_delete_handler :: "keyd \<Rightarrow> string \<Rightarrow> keyd \<times> string wreply" where
  "wallet_delete_handler st i =
     (case delete_wallet (kd_signer st) i of
        (b, Inl _) \<Rightarrow> (st\<lparr>kd_signer := b\<rparr>, WFail 404)
      | (b, Inr _) \<Rightarrow>
          (log_receipt (st\<lparr>kd_signer := b\<rparr>) i ''delete'' ''n/a'' None None Allowed, WOk i))"

record keyd_health =
  kh_status :: string
  kh_wallets :: nat
  kh_policy :: bool

definition keyd_health_handler :: "keyd \<Rightarrow> keyd_health" where
  "keyd_health_handler st =
     \<lparr>kh_status = ''ok'', kh_wallets = wallet_count (kd_signer st), kh_policy = is_loaded (kd_policy st)\<rparr>"

section \<open>The key store\<close>

text \<open>\<open>holds cy b i k\<close>: the key file of wallet \<open>i\<close> decrypts to \<open>k\<close> under the master key.\<close>

definition holds :: "crypto \<Rightarrow> key_backend \<Rightarrow> string \<Rightarrow> bytes \<Rightarrow> bool" where
  "holds cy b i k = (case kb_files b i of None \<Rightarrow> False | Some data \<Rightarrow> decrypt_key cy b data = Inr k)"

text \<open>The well-formed backend: the index on disk is the one in memory, ids are unique, exactly the
  indexed wallets have a key file, and a cached key is what the file decrypts to.\<close>

definition backend_ok :: "crypto \<Rightarrow> key_backend \<Rightarrow> bool" where
  "backend_ok cy b = (kb_saved b = kb_wallets b \<and> distinct (List.map wi_id (kb_wallets b)) \<and>
     dom (kb_files b) = wi_id ` set (kb_wallets b) \<and>
     (\<forall>i k t. kb_cache b i = Some (k, t) \<longrightarrow> holds cy b i k))"

datatype key_op =
    Create string timestamp bytes "chain \<Rightarrow> string \<times> bytes" chain string
  | Load nat string
  | Sign nat string bytes
  | Delete string

fun key_step :: "crypto \<Rightarrow> key_backend \<Rightarrow> key_op \<Rightarrow> key_backend" where
  "key_step cy b (Create uuid now nonce gen ch label) = fst (create_wallet cy uuid now nonce gen b ch label)"
| "key_step cy b (Load now i) = fst (load_key_bytes cy now b i)"
| "key_step cy b (Sign now i m) = fst (sign_message cy now b i m)"
| "key_step cy b (Delete i) = fst (delete_wallet b i)"

text \<open>UUIDs are fresh.\<close>

fun fresh_op :: "key_backend \<Rightarrow> key_op \<Rightarrow> bool" where
  "fresh_op b (Create uuid now nonce gen ch label) = (uuid \<notin> wi_id ` set (kb_wallets b))"
| "fresh_op b _ = True"

lemma holds_cong:
  "kb_files b' i = kb_files b i \<Longrightarrow> kb_master_key b' = kb_master_key b \<Longrightarrow>
   holds cy b' i k = holds cy b i k"
  by (simp add: holds_def decrypt_key_def split: option.split)

lemma evict_frame [simp]:
  "kb_files (evict_stale_keys now b) = kb_files b"
  "kb_wallets (evict_stale_keys now b) = kb_wallets b"
  "kb_saved (evict_stale_keys now b) = kb_saved b"
  "kb_master_key (evict_stale_keys now b) = kb_master_key b"
  by (simp_all add: evict_stale_keys_def)

lemma evict_cache:
  "kb_cache (evict_stale_keys now b) i = Some (k, t) \<longleftrightarrow>
   kb_cache b i = Some (k, t) \<and> now - t \<le> key_cache_ttl"
  by (auto simp: evict_stale_keys_def split: option.splits if_splits prod.splits)

lemma decrypt_evict [simp]: "decrypt_key cy (evict_stale_keys now b) = decrypt_key cy b"
  by (simp add: decrypt_key_def fun_eq_iff)

lemma holds_iff: "holds cy b i k \<longleftrightarrow> (\<exists>data. kb_files b i = Some data \<and> decrypt_key cy b data = Inr k)"
  by (simp add: holds_def split: option.split)

text \<open>The three outcomes of a load.\<close>

lemma load_cases:
  obtains (hit) k t where "kb_cache (evict_stale_keys now b) i = Some (k, t)"
      "load_key_bytes cy now b i =
        ((evict_stale_keys now b)\<lparr>kb_cache := (kb_cache (evict_stale_keys now b))(i \<mapsto> (k, now))\<rparr>, Inr k)"
    | (read) k where "kb_cache (evict_stale_keys now b) i = None" "holds cy b i k"
      "load_key_bytes cy now b i =
        ((evict_stale_keys now b)\<lparr>kb_cache := (kb_cache (evict_stale_keys now b))(i \<mapsto> (k, now))\<rparr>, Inr k)"
    | (fail) e where "kb_cache (evict_stale_keys now b) i = None" "\<forall>k. \<not> holds cy b i k"
      "load_key_bytes cy now b i = (evict_stale_keys now b, Inl e)"
proof (cases "kb_cache (evict_stale_keys now b) i")
  case (Some e)
  then show thesis using hit by (cases e) (simp add: load_key_bytes_def Let_def)
next
  case None
  note miss = None
  show thesis
  proof (cases "kb_files b i")
    case None
    then show thesis using miss fail by (simp add: load_key_bytes_def Let_def holds_iff)
  next
    case (Some data)
    then show thesis using miss read fail
      by (cases "decrypt_key cy b data") (simp_all add: load_key_bytes_def Let_def holds_iff)
  qed
qed

lemma load_frame [simp]:
  "kb_files (fst (load_key_bytes cy now b i)) = kb_files b"
  "kb_wallets (fst (load_key_bytes cy now b i)) = kb_wallets b"
  "kb_saved (fst (load_key_bytes cy now b i)) = kb_saved b"
  "kb_master_key (fst (load_key_bytes cy now b i)) = kb_master_key b"
  by (cases rule: load_cases [of now b i cy]; simp)+

lemma holds_unique: "holds cy b i k \<Longrightarrow> holds cy b i k' \<Longrightarrow> k' = k"
  by (auto simp: holds_iff)

lemma cached_holds: "backend_ok cy b \<Longrightarrow> kb_cache b i = Some (k, t) \<Longrightarrow> holds cy b i k"
  unfolding backend_ok_def by blast

lemma load_Inr:
  assumes "backend_ok cy b" and "snd (load_key_bytes cy now b i) = Inr k"
  shows "holds cy b i k"
proof (cases rule: load_cases [of now b i cy])
  case (hit k' t)
  then have "holds cy b i k'" using cached_holds [OF assms(1)] by (simp add: evict_cache)
  then show ?thesis using hit(2) assms(2) by simp
qed (use assms(2) in auto)

lemma load_holds:
  assumes "backend_ok cy b" and "holds cy b i k"
  shows "snd (load_key_bytes cy now b i) = Inr k"
proof (cases rule: load_cases [of now b i cy])
  case (hit k' t)
  then have "holds cy b i k'" using cached_holds [OF assms(1)] by (simp add: evict_cache)
  then show ?thesis using hit(2) holds_unique [OF assms(2)] by simp
next
  case (read k')
  then show ?thesis using holds_unique [OF assms(2)] by simp
next
  case (fail e)
  then show ?thesis using assms(2) by blast
qed

text \<open>What a load leaves in the cache: entries no older than the life time, and the key loaded.\<close>

lemma load_cache:
  assumes "kb_cache (fst (load_key_bytes cy now b i)) j = Some (k, t)"
  shows "kb_cache b j = Some (k, t) \<and> now - t \<le> key_cache_ttl \<or>
    j = i \<and> t = now \<and> snd (load_key_bytes cy now b i) = Inr k"
  using assms
  by (cases rule: load_cases [of now b i cy]) (auto simp: evict_cache split: if_splits)

lemma load_ok:
  assumes "backend_ok cy b"
  shows "backend_ok cy (fst (load_key_bytes cy now b i))"
proof -
  have "holds cy b j k" if "kb_cache (fst (load_key_bytes cy now b i)) j = Some (k, t)" for j k t
    using load_cache [OF that] assms load_Inr [OF assms] unfolding backend_ok_def by blast
  then show ?thesis using assms
    by (simp add: backend_ok_def holds_cong [of "fst (load_key_bytes cy now b i)" _ b])
qed

lemma sign_is_load:
  "fst (sign_message cy now b i m) =
     (if i \<in> wi_id ` set (kb_wallets b) then fst (load_key_bytes cy now b i) else b)"
  using find_by_None [of wi_id i "kb_wallets b"]
  by (auto simp: sign_message_def split: option.split sum.split prod.split chain.split)

lemma create_ok:
  assumes "backend_ok cy b" and "uuid \<notin> wi_id ` set (kb_wallets b)"
  shows "backend_ok cy (fst (create_wallet cy uuid now nonce gen b ch label))"
proof (cases "128 < length label")
  case True
  then show ?thesis using assms(1) by (simp add: create_wallet_def)
next
  case False
  let ?b = "fst (create_wallet cy uuid now nonce gen b ch label)"
  have none: "kb_cache b uuid = None"
  proof (cases "kb_cache b uuid")
    case (Some e)
    then have "holds cy b uuid (fst e)"
      using assms(1) unfolding backend_ok_def by (metis prod.collapse)
    then have "uuid \<in> dom (kb_files b)" by (auto simp: holds_def split: option.splits)
    then show ?thesis using assms unfolding backend_ok_def by simp
  qed
  have f: "kb_files ?b j = kb_files b j" "kb_master_key ?b = kb_master_key b" if "j \<noteq> uuid" for j
    using that False by (auto simp: create_wallet_def Let_def save_index_def split: prod.split)
  have c: "kb_cache ?b = kb_cache b"
    using False by (simp add: create_wallet_def Let_def save_index_def split: prod.split)
  have "holds cy ?b j k" if "kb_cache ?b j = Some (k, t)" for j k t
  proof -
    have j: "j \<noteq> uuid" using that none c by auto
    then have "holds cy ?b j k = holds cy b j k" using f [OF j] holds_cong by blast
    then show ?thesis using that c cached_holds [OF assms(1)] by simp
  qed
  then show ?thesis using assms False
    by (auto simp: backend_ok_def create_wallet_def Let_def save_index_def split: prod.splits)
qed

lemma delete_ok:
  assumes "backend_ok cy b"
  shows "backend_ok cy (fst (delete_wallet b i))"
proof (cases "find_by wi_id i (kb_wallets b)")
  case None
  then show ?thesis using assms by (simp add: delete_wallet_def)
next
  case (Some w)
  let ?b = "fst (delete_wallet b i)"
  have b: "kb_files ?b = (kb_files b)(i := None)" "kb_cache ?b = (kb_cache b)(i := None)"
    "kb_wallets ?b = filter (\<lambda>w. wi_id w \<noteq> i) (kb_wallets b)" "kb_saved ?b = kb_wallets ?b"
    "kb_master_key ?b = kb_master_key b"
    using Some by (simp_all add: delete_wallet_def save_index_def)
  have "holds cy ?b j k" if "kb_cache ?b j = Some (k, t)" for j k t
    using that assms b holds_cong [of ?b j b] unfolding backend_ok_def by (auto split: if_splits)
  moreover have "distinct (List.map wi_id (kb_wallets ?b))"
    using assms unfolding backend_ok_def b by (simp add: distinct_map_filter)
  moreover have "dom (kb_files ?b) = wi_id ` set (kb_wallets ?b)"
    using assms unfolding backend_ok_def b by auto
  ultimately show ?thesis using b(4) unfolding backend_ok_def by blast
qed

lemma key_step_ok: "backend_ok cy b \<Longrightarrow> fresh_op b x \<Longrightarrow> backend_ok cy (key_step cy b x)"
  by (cases x) (simp_all add: create_ok load_ok delete_ok sign_is_load)

lemmas key_run_ok = run_invariant [where I = "backend_ok cy" and enabled = fresh_op and
  step = "key_step cy" for cy, OF key_step_ok]

text \<open>The key of a wallet stays the same until the wallet is deleted.\<close>

lemma key_step_frame:
  "x \<noteq> Delete i \<Longrightarrow> fresh_op b x \<Longrightarrow> i \<in> wi_id ` set (kb_wallets b) \<Longrightarrow>
   kb_files (key_step cy b x) i = kb_files b i \<and> kb_master_key (key_step cy b x) = kb_master_key b \<and>
   find_by wi_id i (kb_wallets (key_step cy b x)) = find_by wi_id i (kb_wallets b)"
proof (cases x)
  case (Create uuid now nonce gen ch label)
  moreover assume "fresh_op b x" "i \<in> wi_id ` set (kb_wallets b)"
  moreover obtain w where "find_by wi_id i (kb_wallets b) = Some w"
    using \<open>i \<in> _\<close> find_by_None [of wi_id i "kb_wallets b"] by auto
  ultimately show ?thesis
    by (auto simp: create_wallet_def Let_def save_index_def find_by_append split: prod.split)
next
  case (Delete j)
  moreover assume "x \<noteq> Delete i"
  ultimately show ?thesis by (auto simp: delete_wallet_def save_index_def find_by_filter split: option.split)
qed (simp_all add: sign_is_load)

lemma key_run_frame:
  "Delete i \<notin> set xs \<Longrightarrow> enabled_run fresh_op (key_step cy) b xs \<Longrightarrow> find_by wi_id i (kb_wallets b) = Some w \<Longrightarrow>
   kb_files (foldl (key_step cy) b xs) i = kb_files b i \<and>
   kb_master_key (foldl (key_step cy) b xs) = kb_master_key b \<and>
   find_by wi_id i (kb_wallets (foldl (key_step cy) b xs)) = Some w"
proof (induction xs arbitrary: b)
  case Nil
  then show ?case by simp
next
  case (Cons x xs)
  have "i \<in> wi_id ` set (kb_wallets b)" using Cons.prems(3) find_by_Some by fastforce
  moreover have "x \<noteq> Delete i" using Cons.prems(1) by auto
  ultimately show ?case using Cons key_step_frame [of x i b cy] by simp
qed

text \<open>The signature a wallet's key makes.\<close>

definition signature :: "crypto \<Rightarrow> chain \<Rightarrow> bytes \<Rightarrow> bytes \<Rightarrow> key_error + bytes" where
  "signature cy ch k m =
     (case ch of
        Ethereum \<Rightarrow> (case cy_sign_eth cy k of None \<Rightarrow> Inl BadKey | Some sign \<Rightarrow> Inr (sign m))
      | Solana \<Rightarrow> (if length k < 32 then Inl BadKey else Inr (cy_sign_sol cy (take 32 k) m)))"

lemma sign_with_key:
  assumes "backend_ok cy b" and "holds cy b i k" and "find_by wi_id i (kb_wallets b) = Some w"
  shows "snd (sign_message cy now b i m) = signature cy (wi_chain w) k m"
proof -
  obtain b' where "load_key_bytes cy now b i = (b', Inr k)"
    using load_holds [OF assms(1,2), of now] by (metis prod.collapse)
  then show ?thesis using assms(3)
    by (simp add: sign_message_def signature_def split: chain.split option.split)
qed

lemma created_holds:
  assumes "length label \<le> 128" and "length nonce = 12"
    and "cy_decrypt cy (kb_master_key b) nonce (cy_encrypt cy (kb_master_key b) nonce (snd (gen ch))) =
      Some (snd (gen ch))"
  shows "holds cy (fst (create_wallet cy uuid now nonce gen b ch label)) uuid (snd (gen ch))"
  using assms
  by (auto simp: create_wallet_def Let_def save_index_def holds_def encrypt_key_def decrypt_key_def
      split: prod.split)

lemma created_found:
  assumes "length label \<le> 128" and "uuid \<notin> wi_id ` set (kb_wallets b)"
  shows "find_by wi_id uuid (kb_wallets (fst (create_wallet cy uuid now nonce gen b ch label))) =
     Some \<lparr>wi_id = uuid, wi_label = label, wi_chain = ch, wi_address = fst (gen ch), wi_created_at = now\<rparr>"
proof -
  have "find_by wi_id uuid (kb_wallets b) = None" using assms(2) by (simp add: find_by_None)
  then show ?thesis using assms
    by (auto simp: create_wallet_def Let_def save_index_def find_by_append split: prod.split)
qed

text \<open>A deleted wallet is gone from the index, the key files and the cache, and stays gone.\<close>

definition gone :: "key_backend \<Rightarrow> string \<Rightarrow> bool" where
  "gone b i = (i \<notin> wi_id ` set (kb_wallets b) \<and> i \<notin> wi_id ` set (kb_saved b) \<and>
     kb_files b i = None \<and> kb_cache b i = None)"

lemma deleted_gone:
  "backend_ok cy b \<Longrightarrow> i \<in> wi_id ` set (kb_wallets b) \<Longrightarrow> gone (fst (delete_wallet b i)) i"
  using find_by_None [of wi_id i "kb_wallets b"]
  by (auto simp: gone_def delete_wallet_def save_index_def split: option.split)

fun creates :: "string \<Rightarrow> key_op \<Rightarrow> bool" where
  "creates i (Create uuid now nonce gen ch label) = (uuid = i)"
| "creates i _ = False"

lemma gone_load: "gone b i \<Longrightarrow> gone (fst (load_key_bytes cy now b j)) i"
  by (cases rule: load_cases [of now b j cy])
    (auto simp: gone_def holds_iff evict_stale_keys_def)

lemma gone_step: "gone b i \<Longrightarrow> \<not> creates i x \<Longrightarrow> gone (key_step cy b x) i"
proof (cases x)
  case (Create uuid now nonce gen ch label)
  moreover assume "gone b i" "\<not> creates i x"
  ultimately show ?thesis
    by (auto simp: create_wallet_def Let_def save_index_def gone_def split: prod.split)
next
  case (Delete j)
  moreover assume "gone b i"
  ultimately show ?thesis
    by (auto simp: delete_wallet_def save_index_def gone_def split: option.split)
qed (simp_all add: gone_load sign_is_load)

lemma gone_run: "gone b i \<Longrightarrow> \<forall>x \<in> set xs. \<not> creates i x \<Longrightarrow> gone (foldl (key_step cy) b xs) i"
  by (induction xs arbitrary: b) (simp_all add: gone_step)

lemma gone_sign: "gone b i \<Longrightarrow> sign_message cy now b i m = (b, Inl WalletNotFound)"
  by (simp add: gone_def sign_message_def find_by_None [THEN iffD2])

section \<open>The key daemon\<close>

text \<open>The outside world of a run, fixed for all calls; a run lies within one day.\<close>

record keyd_world =
  kw_crypto :: crypto
  kw_chains :: chain_crypto
  kw_hex_decode :: "string \<Rightarrow> bytes option"
  kw_hex_encode :: "bytes \<Rightarrow> string"
  kw_today :: string

datatype keyd_call =
    CreateCall keyd_env chain string
  | SignCall keyd_env string string
  | SendCall keyd_env string string string
  | BuildCall keyd_env string string string build_params
  | DeleteCall keyd_env string

definition on_day :: "keyd_world \<Rightarrow> keyd_env \<Rightarrow> keyd_env" where
  "on_day w env = env\<lparr>ke_today := kw_today w\<rparr>"

lemma on_day_simps [simp]:
  "ke_today (on_day w env) = kw_today w" "ke_io_ok (on_day w env) = ke_io_ok env"
  by (simp_all add: on_day_def)

fun answers :: "'a wreply \<Rightarrow> bool" where
  "answers (WFail n) = False"
| "answers (WOk a) = True"

text \<open>One call: the new state, and whether it was answered with a result.\<close>

fun keyd_call_result :: "keyd_world \<Rightarrow> keyd \<Rightarrow> keyd_call \<Rightarrow> keyd \<times> bool" where
  "keyd_call_result w st (CreateCall env ch label) =
     map_prod id answers (wallet_create_handler (kw_crypto w) (on_day w env) st ch label)"
| "keyd_call_result w st (SignCall env i payload) =
     map_prod id answers (wallet_sign_handler (kw_crypto w) (kw_hex_decode w) (kw_hex_encode w)
       (on_day w env) st i payload)"
| "keyd_call_result w st (SendCall env i to amount) =
     map_prod id answers (wallet_send_handler (kw_crypto w) (kw_hex_encode w) (on_day w env) st i to amount)"
| "keyd_call_result w st (BuildCall env i to amount bp) =
     map_prod id answers (wallet_build_tx_handler (kw_crypto w) (kw_chains w) (on_day w env) st i to
       amount bp)"
| "keyd_call_result w st (DeleteCall env i) = map_prod id answers (wallet_delete_handler st i)"

definition keyd_step :: "keyd_world \<Rightarrow> keyd \<Rightarrow> keyd_call \<Rightarrow> keyd" where
  "keyd_step w st c = fst (keyd_call_result w st c)"

text \<open>The request a call makes of the policy: the wallet's chain and the amount.\<close>

definition spends_on :: "keyd \<Rightarrow> string \<Rightarrow> string \<Rightarrow> bool" where
  "spends_on st i chain = (case find_by wi_id i (kb_wallets (kd_signer st)) of
     None \<Rightarrow> False | Some w \<Rightarrow> chain_text (wi_chain w) = chain)"

fun paid :: "string \<Rightarrow> keyd \<Rightarrow> keyd_call \<Rightarrow> nat" where
  "paid chain st (SendCall env i to amount) =
     (if spends_on st i chain then amount_cost chain (True, chain, amount, to) else 0)"
| "paid chain st (BuildCall env i to amount bp) =
     (if spends_on st i chain then amount_cost chain (True, chain, amount, to) else 0)"
| "paid chain st _ = 0"

fun sent :: "string \<Rightarrow> keyd \<Rightarrow> keyd_call \<Rightarrow> nat" where
  "sent chain st (SendCall env i to amount) = (if spends_on st i chain then 1 else 0)"
| "sent chain st (BuildCall env i to amount bp) = (if spends_on st i chain then 1 else 0)"
| "sent chain st _ = 0"

fun signed :: "keyd_call \<Rightarrow> nat" where
  "signed (SignCall env i payload) = 1"
| "signed _ = 0"

definition answered_amount :: "keyd_world \<Rightarrow> string \<Rightarrow> keyd \<Rightarrow> keyd_call \<Rightarrow> nat" where
  "answered_amount w chain st c = (if snd (keyd_call_result w st c) then paid chain st c else 0)"

definition answered_sends :: "keyd_world \<Rightarrow> string \<Rightarrow> keyd \<Rightarrow> keyd_call \<Rightarrow> nat" where
  "answered_sends w chain st c = (if snd (keyd_call_result w st c) then sent chain st c else 0)"

definition answered_signs :: "keyd_world \<Rightarrow> keyd \<Rightarrow> keyd_call \<Rightarrow> nat" where
  "answered_signs w st c = (if snd (keyd_call_result w st c) then signed c else 0)"

lemma log_receipt_frame [simp]:
  "kd_signer (log_receipt st i a ch to am d) = kd_signer st"
  "kd_policy (log_receipt st i a ch to am d) = kd_policy st"
  by (simp_all add: log_receipt_def)

text \<open>What each endpoint does to the policy engine.\<close>

lemma sign_handler_cases:
  assumes "wallet_sign_handler cy hdec he env st i payload = (st', r)"
  shows "st' = st \<and> r = WFail 404 \<or>
    (\<exists>d. check_sign (ke_today env) (ke_io_ok env) (kd_policy st) = (kd_policy st', d) \<and>
      (answers r \<longrightarrow> d = Allowed) \<and> (d \<noteq> Allowed \<longrightarrow> kd_signer st' = kd_signer st \<and> r = WFail 403))"
  using assms
  by (auto simp: wallet_sign_handler_def Let_def
      split: option.splits prod.splits policy_decision.splits sum.splits)

lemma send_handler_cases:
  assumes "wallet_send_handler cy he env st i to amount = (st', r)"
  shows "st' = st \<and> r = WFail 404 \<or>
    (\<exists>w d. find_by wi_id i (kb_wallets (kd_signer st)) = Some w \<and>
      check_send (ke_today env) (ke_io_ok env) (kd_policy st) (chain_text (wi_chain w)) amount to =
        (kd_policy st', d) \<and>
      (answers r \<longrightarrow> d = Allowed) \<and> (d \<noteq> Allowed \<longrightarrow> kd_signer st' = kd_signer st \<and> r = WFail 403))"
  using assms
  by (auto simp: wallet_send_handler_def Let_def
      split: option.splits prod.splits policy_decision.splits sum.splits)

lemma build_handler_cases:
  assumes "wallet_build_tx_handler cy cc env st i to amount bp = (st', r)"
  shows "st' = st \<and> r = WFail 404 \<or>
    (\<exists>w d. find_by wi_id i (kb_wallets (kd_signer st)) = Some w \<and>
      check_send (ke_today env) (ke_io_ok env) (kd_policy st) (chain_text (wi_chain w)) amount to =
        (kd_policy st', d) \<and>
      (answers r \<longrightarrow> d = Allowed) \<and> (d \<noteq> Allowed \<longrightarrow> kd_signer st' = kd_signer st \<and> r = WFail 403))"
  using assms
  by (auto simp: wallet_build_tx_handler_def Let_def
      split: option.splits prod.splits policy_decision.splits sum.splits)

text \<open>Every call of the daemon is idle for the meters, one send request or one sign request.\<close>

lemma keyd_call_cases:
  obtains (idle) "kd_policy (keyd_step w st c) = kd_policy st" "answered_signs w st c = 0"
      "\<And>chain. answered_amount w chain st c = 0" "\<And>chain. answered_sends w chain st c = 0"
    | (send) r b where "serve_send (kw_today w) (kd_policy st) r = (kd_policy (keyd_step w st c), b)"
      "\<And>chain. answered_amount w chain st c \<le> (if b then amount_cost chain r else 0)"
      "\<And>chain. answered_sends w chain st c \<le> (if b then send_cost chain r else 0)"
      "answered_signs w st c = 0"
    | (sign) r b where "serve_sign (kw_today w) (kd_policy st) r = (kd_policy (keyd_step w st c), b)"
      "answered_signs w st c \<le> (if b then 1 else 0)"
      "\<And>chain. answered_amount w chain st c = 0" "\<And>chain. answered_sends w chain st c = 0"
proof (cases c)
  case (CreateCall env ch label)
  have "kd_policy (fst (wallet_create_handler cy env' st ch label)) = kd_policy st" for cy env'
    by (auto simp: wallet_create_handler_def split: prod.split sum.split)
  with CreateCall show thesis
    by (intro idle) (auto simp: keyd_step_def answered_signs_def answered_amount_def answered_sends_def)
next
  case (DeleteCall env i)
  have "kd_policy (fst (wallet_delete_handler st i)) = kd_policy st"
    by (auto simp: wallet_delete_handler_def split: prod.split sum.split)
  with DeleteCall show thesis
    by (intro idle) (auto simp: keyd_step_def answered_signs_def answered_amount_def answered_sends_def)
next
  case (SignCall env i payload)
  obtain st' r where res: "wallet_sign_handler (kw_crypto w) (kw_hex_decode w) (kw_hex_encode w)
      (on_day w env) st i payload = (st', r)" by (meson surj_pair)
  note defs = keyd_step_def answered_signs_def answered_amount_def answered_sends_def SignCall res
  from sign_handler_cases [OF res] show thesis
  proof (elim disjE exE conjE)
    assume "st' = st" "r = WFail 404"
    then show thesis by (intro idle) (auto simp: defs)
  next
    fix d
    assume "check_sign (ke_today (on_day w env)) (ke_io_ok (on_day w env)) (kd_policy st) = (kd_policy st', d)"
      "answers r \<longrightarrow> d = Allowed"
    then show thesis
      by (intro sign [of "ke_io_ok env" "d = Allowed"]) (auto simp: defs serve_sign_def)
  qed
next
  case (SendCall env i to amount)
  obtain st' r where res: "wallet_send_handler (kw_crypto w) (kw_hex_encode w) (on_day w env) st i to
      amount = (st', r)" by (meson surj_pair)
  note defs = keyd_step_def answered_signs_def answered_amount_def answered_sends_def SendCall res
  from send_handler_cases [OF res] show thesis
  proof (elim disjE exE conjE)
    assume "st' = st" "r = WFail 404"
    then show thesis by (intro idle) (auto simp: defs)
  next
    fix wl d
    assume wl: "find_by wi_id i (kb_wallets (kd_signer st)) = Some wl"
      and "check_send (ke_today (on_day w env)) (ke_io_ok (on_day w env)) (kd_policy st)
        (chain_text (wi_chain wl)) amount to = (kd_policy st', d)"
      "answers r \<longrightarrow> d = Allowed"
    then show thesis
      by (intro send [of "(ke_io_ok env, chain_text (wi_chain wl), amount, to)" "d = Allowed"])
        (auto simp: defs serve_send_def spends_on_def amount_cost_def send_cost_def)
  qed
next
  case (BuildCall env i to amount bp)
  obtain st' r where res: "wallet_build_tx_handler (kw_crypto w) (kw_chains w) (on_day w env) st i to
      amount bp = (st', r)" by (meson surj_pair)
  note defs = keyd_step_def answered_signs_def answered_amount_def answered_sends_def BuildCall res
  from build_handler_cases [OF res] show thesis
  proof (elim disjE exE conjE)
    assume "st' = st" "r = WFail 404"
    then show thesis by (intro idle) (auto simp: defs)
  next
    fix wl d
    assume wl: "find_by wi_id i (kb_wallets (kd_signer st)) = Some wl"
      and "check_send (ke_today (on_day w env)) (ke_io_ok (on_day w env)) (kd_policy st)
        (chain_text (wi_chain wl)) amount to = (kd_policy st', d)"
      "answers r \<longrightarrow> d = Allowed"
    then show thesis
      by (intro send [of "(ke_io_ok env, chain_text (wi_chain wl), amount, to)" "d = Allowed"])
        (auto simp: defs serve_send_def spends_on_def amount_cost_def send_cost_def)
  qed
qed

text \<open>The daemon is a client of the three meters of its policy engine.\<close>

interpretation keyd_amounts: spender "serve_send (kw_today w)" "amount_cost chain"
  "amount_used (kw_today w) chain" m "\<lambda>e. m < 2 ^ 128 \<and> amount_metered chain m e" "keyd_step w"
  "answered_amount w chain" kd_policy for w chain m
proof
  fix st :: keyd and c
  assume m: "m < 2 ^ 128 \<and> amount_metered chain m (kd_policy st)"
  show "amount_used (kw_today w) chain (kd_policy (keyd_step w st c)) =
        amount_used (kw_today w) chain (kd_policy st) \<and>
      (m < 2 ^ 128 \<and> amount_metered chain m (kd_policy (keyd_step w st c))) \<and>
      answered_amount w chain st c = 0 \<or>
    (\<exists>r b. serve_send (kw_today w) (kd_policy st) r = (kd_policy (keyd_step w st c), b) \<and>
      answered_amount w chain st c \<le> (if b then amount_cost chain r else 0))"
  proof (cases rule: keyd_call_cases [of w st c])
    case idle
    then show ?thesis using m by simp
  next
    case (send r b)
    then show ?thesis by blast
  next
    case (sign r b)
    then show ?thesis using m serve_sign_keeps [OF sign(1)] by (simp add: amount_metered_def)
  qed
qed

interpretation keyd_sends: spender "serve_send (kw_today w)" "send_cost chain"
  "sends_used (kw_today w) chain" n "sends_metered chain n" "keyd_step w" "answered_sends w chain"
  kd_policy for w chain n
proof
  fix st :: keyd and c
  assume m: "sends_metered chain n (kd_policy st)"
  show "sends_used (kw_today w) chain (kd_policy (keyd_step w st c)) =
        sends_used (kw_today w) chain (kd_policy st) \<and>
      sends_metered chain n (kd_policy (keyd_step w st c)) \<and> answered_sends w chain st c = 0 \<or>
    (\<exists>r b. serve_send (kw_today w) (kd_policy st) r = (kd_policy (keyd_step w st c), b) \<and>
      answered_sends w chain st c \<le> (if b then send_cost chain r else 0))"
  proof (cases rule: keyd_call_cases [of w st c])
    case idle
    then show ?thesis using m by simp
  next
    case (send r b)
    then show ?thesis by blast
  next
    case (sign r b)
    then show ?thesis using m serve_sign_keeps [OF sign(1)] by (simp add: sends_metered_def)
  qed
qed

interpretation keyd_signs: spender "serve_sign (kw_today w)" "\<lambda>_. 1" "signs_used (kw_today w)" n
  "signs_metered n" "keyd_step w" "answered_signs w" kd_policy for w n
proof
  fix st :: keyd and c
  assume m: "signs_metered n (kd_policy st)"
  show "signs_used (kw_today w) (kd_policy (keyd_step w st c)) = signs_used (kw_today w) (kd_policy st) \<and>
      signs_metered n (kd_policy (keyd_step w st c)) \<and> answered_signs w st c = 0 \<or>
    (\<exists>r b. serve_sign (kw_today w) (kd_policy st) r = (kd_policy (keyd_step w st c), b) \<and>
      answered_signs w st c \<le> (if b then 1 else 0))"
  proof (cases rule: keyd_call_cases [of w st c])
    case idle
    then show ?thesis using m by simp
  next
    case (send r b)
    then show ?thesis using m serve_send_keeps [OF send(1)] by (simp add: signs_metered_def)
  next
    case (sign r b)
    then show ?thesis by blast
  qed
qed

end
