(* ===== verification/KeyStart.thy ===== *)
theory KeyStart
  imports Wallet
begin

text \<open>
  Start and restart of the key daemon (\<open>signer.rs\<close>: \<open>LocalKeyBackend::new\<close>; \<open>main.rs\<close>:
  \<open>harden_permissions\<close>): what the data directory holds, how the master key is derived from it, and
  that a restart gives back the backend that was running, with an empty cache. Argon2id is the
  parameter \<open>derive\<close>.
\<close>

section \<open>The data directory\<close>

text \<open>\<open>dk_index\<close> is \<open>wallets.json\<close>: \<open>None\<close> if it is absent, \<open>Some None\<close> if it does not parse.\<close>

record key_disk =
  dk_raw :: "bytes option"
  dk_salt :: "bytes option"
  dk_index :: "wallet_info list option option"
  dk_keys :: "string \<Rightarrow> bytes option"

datatype start_error = BadKeyLength | BadSaltLength | DeriveFailed | BadIndex

definition derive_key :: "(bytes \<Rightarrow> bytes \<Rightarrow> bytes option) \<Rightarrow> bytes \<Rightarrow> bytes \<Rightarrow> start_error + bytes" where
  "derive_key derive raw salt = (case derive raw salt of None \<Rightarrow> Inl DeriveFailed | Some k \<Rightarrow> Inr k)"

text \<open>\<open>fresh_raw\<close> and \<open>fresh_salt\<close> are the random bytes for a first start.\<close>

definition load_or_create_master_key ::
  "(bytes \<Rightarrow> bytes \<Rightarrow> bytes option) \<Rightarrow> bytes \<Rightarrow> bytes \<Rightarrow> key_disk \<Rightarrow> key_disk \<times> (start_error + bytes)" where
  "load_or_create_master_key derive fresh_raw fresh_salt d =
     (case (dk_raw d, dk_salt d) of
        (Some raw, Some salt) \<Rightarrow>
          (if length raw \<noteq> 32 then (d, Inl BadKeyLength)
           else if length salt \<noteq> 16 then (d, Inl BadSaltLength)
           else (d, derive_key derive raw salt))
      | _ \<Rightarrow> (d\<lparr>dk_raw := Some fresh_raw, dk_salt := Some fresh_salt\<rparr>, derive_key derive fresh_raw fresh_salt))"

definition load_index :: "key_disk \<Rightarrow> start_error + wallet_info list" where
  "load_index d = (case dk_index d of None \<Rightarrow> Inr [] | Some None \<Rightarrow> Inl BadIndex | Some (Some ws) \<Rightarrow> Inr ws)"

definition new_backend ::
  "(bytes \<Rightarrow> bytes \<Rightarrow> bytes option) \<Rightarrow> bytes \<Rightarrow> bytes \<Rightarrow> key_disk \<Rightarrow> key_disk \<times> (start_error + key_backend)" where
  "new_backend derive fresh_raw fresh_salt d =
     (case load_or_create_master_key derive fresh_raw fresh_salt d of
        (d', Inl e) \<Rightarrow> (d', Inl e)
      | (d', Inr k) \<Rightarrow>
          (d', and_then (load_index d') (\<lambda>ws.
             Inr \<lparr>kb_master_key = k, kb_wallets = ws, kb_saved = ws, kb_files = dk_keys d', kb_cache = (\<lambda>_. None)\<rparr>)))"

text \<open>What an operation that turns \<open>b\<close> into \<open>b'\<close> leaves on disk.\<close>

definition persist :: "key_disk \<Rightarrow> key_backend \<Rightarrow> key_backend \<Rightarrow> key_disk" where
  "persist d b b' = d\<lparr>dk_keys := kb_files b',
     dk_index := (if kb_saved b' = kb_saved b then dk_index d else Some (Some (kb_saved b')))\<rparr>"

section \<open>A life with restarts\<close>

text \<open>The daemon is up (\<open>Some\<close>) or its start failed.\<close>

datatype key_event = KeyOp key_op | KeydRestart bytes bytes

fun key_life :: "(bytes \<Rightarrow> bytes \<Rightarrow> bytes option) \<Rightarrow> crypto \<Rightarrow> key_disk \<times> key_backend option \<Rightarrow> key_event \<Rightarrow>
    key_disk \<times> key_backend option" where
  "key_life derive cy (d, None) (KeyOp x) = (d, None)"
| "key_life derive cy (d, Some b) (KeyOp x) = (persist d b (key_step cy b x), Some (key_step cy b x))"
| "key_life derive cy (d, up) (KeydRestart raw salt) =
     (case new_backend derive raw salt d of (d', Inl e) \<Rightarrow> (d', None) | (d', Inr b) \<Rightarrow> (d', Some b))"

fun life_enabled :: "key_disk \<times> key_backend option \<Rightarrow> key_event \<Rightarrow> bool" where
  "life_enabled (d, Some b) (KeyOp x) = fresh_op b x"
| "life_enabled s e = True"

lemma life_enabled_other [simp]:
  "life_enabled s (KeyOp (Load now i))" "life_enabled s (KeyOp (Sign now i m))" "life_enabled s (KeyOp (Delete i))"
  "life_enabled s (KeydRestart raw salt)"
  by (cases s; cases "snd s"; simp)+

text \<open>The disk holds everything the backend needs to come back.\<close>

definition on_disk :: "(bytes \<Rightarrow> bytes \<Rightarrow> bytes option) \<Rightarrow> key_disk \<Rightarrow> key_backend \<Rightarrow> bool" where
  "on_disk derive d b =
     (dk_keys d = kb_files b \<and> load_index d = Inr (kb_saved b) \<and>
      (\<exists>raw salt. dk_raw d = Some raw \<and> dk_salt d = Some salt \<and> length raw = 32 \<and> length salt = 16 \<and>
         derive raw salt = Some (kb_master_key b)))"

definition life_ok :: "(bytes \<Rightarrow> bytes \<Rightarrow> bytes option) \<Rightarrow> crypto \<Rightarrow> key_disk \<times> key_backend option \<Rightarrow> bool" where
  "life_ok derive cy s = (case s of (d, None) \<Rightarrow> False | (d, Some b) \<Rightarrow> on_disk derive d b \<and> backend_ok cy b)"

lemma on_disk_persist:
  "on_disk derive d b \<Longrightarrow> kb_master_key b' = kb_master_key b \<Longrightarrow> on_disk derive (persist d b b') b'"
  by (auto simp: on_disk_def persist_def load_index_def)

text \<open>A restart forgets the cache and nothing else.\<close>

lemma restart_backend:
  assumes "on_disk derive d b" and "kb_saved b = kb_wallets b"
  shows "new_backend derive raw salt d = (d, Inr (b\<lparr>kb_cache := (\<lambda>_. None)\<rparr>))"
  using assms by (auto simp: on_disk_def new_backend_def load_or_create_master_key_def derive_key_def)

lemma forget_ok: "backend_ok cy b \<Longrightarrow> backend_ok cy (b\<lparr>kb_cache := (\<lambda>_. None)\<rparr>)"
  by (simp add: backend_ok_def)

lemma key_step_master: "kb_master_key (key_step cy b x) = kb_master_key b"
  by (cases x)
    (auto simp: create_wallet_def delete_wallet_def Let_def save_index_def sign_is_load split: prod.split option.split)

lemma life_step_ok: "life_ok derive cy s \<Longrightarrow> life_enabled s e \<Longrightarrow> life_ok derive cy (key_life derive cy s e)"
proof (induction derive cy s e rule: key_life.induct)
  case (2 derive cy d b x)
  then show ?case by (simp add: life_ok_def key_step_ok on_disk_persist key_step_master)
next
  case (3 derive cy d up raw salt)
  then obtain b where b: "up = Some b" "on_disk derive d b" "backend_ok cy b"
    by (auto simp: life_ok_def split: option.splits)
  then have "kb_saved b = kb_wallets b" by (simp add: backend_ok_def)
  then show ?case using b restart_backend [OF b(2)] forget_ok [of cy b]
    by (simp add: life_ok_def on_disk_def)
qed (simp add: life_ok_def)

lemma first_start_ok:
  assumes "length raw = 32" and "length salt = 16" and "derive raw salt = Some k"
  shows "life_ok derive cy (key_life derive cy
    (\<lparr>dk_raw = None, dk_salt = None, dk_index = None, dk_keys = (\<lambda>_. None)\<rparr>, None) (KeydRestart raw salt))"
  using assms
  by (simp add: new_backend_def load_or_create_master_key_def derive_key_def load_index_def life_ok_def on_disk_def
      backend_ok_def)

text \<open>A wallet that is not deleted keeps its key file, its entry and the master key.\<close>

lemma life_frame:
  assumes "life_ok derive cy (d, Some b)" and "life_enabled (d, Some b) e" and "e \<noteq> KeyOp (Delete i)"
    and "find_by wi_id i (kb_wallets b) = Some w"
  obtains d' b' where "key_life derive cy (d, Some b) e = (d', Some b')" and "kb_files b' i = kb_files b i"
    and "kb_master_key b' = kb_master_key b" and "find_by wi_id i (kb_wallets b') = Some w"
proof (cases e)
  case (KeyOp x)
  have "i \<in> wi_id ` set (kb_wallets b)" using assms(4) find_by_Some by fastforce
  then show thesis using that KeyOp assms key_step_frame [of x i b cy] by simp
next
  case (KeydRestart raw salt)
  have "on_disk derive d b" "kb_saved b = kb_wallets b" using assms(1) by (simp_all add: life_ok_def backend_ok_def)
  from restart_backend [OF this] show thesis using that KeydRestart assms(4) by simp
qed

lemma life_run_frame:
  "life_ok derive cy (d, Some b) \<Longrightarrow> enabled_run life_enabled (key_life derive cy) (d, Some b) es \<Longrightarrow>
   KeyOp (Delete i) \<notin> set es \<Longrightarrow> find_by wi_id i (kb_wallets b) = Some w \<Longrightarrow>
   \<exists>d' b'. foldl (key_life derive cy) (d, Some b) es = (d', Some b') \<and> life_ok derive cy (d', Some b') \<and>
     kb_files b' i = kb_files b i \<and> kb_master_key b' = kb_master_key b \<and> find_by wi_id i (kb_wallets b') = Some w"
proof (induction es arbitrary: d b)
  case (Cons e es)
  then have e: "life_enabled (d, Some b) e" "e \<noteq> KeyOp (Delete i)" by auto
  obtain d' b' where s: "key_life derive cy (d, Some b) e = (d', Some b')" "kb_files b' i = kb_files b i"
    "kb_master_key b' = kb_master_key b" "find_by wi_id i (kb_wallets b') = Some w"
    by (rule life_frame [OF Cons.prems(1) e Cons.prems(4)])
  have ok: "life_ok derive cy (d', Some b')" using life_step_ok [OF Cons.prems(1) e(1)] s(1) by simp
  have "enabled_run life_enabled (key_life derive cy) (d', Some b') es" using Cons.prems(2) s(1) by simp
  from Cons.IH [OF ok this _ s(4)] Cons.prems(3) s show ?case by auto
qed simp

text \<open>When one of the two files is missing, both are written anew: the old raw key is lost.\<close>

lemma lost_salt_replaces_key:
  "dk_salt d = None \<Longrightarrow> dk_raw (fst (new_backend derive raw salt d)) = Some raw"
  by (cases "dk_raw d") (simp_all add: new_backend_def load_or_create_master_key_def derive_key_def split: option.split)

section \<open>Permissions\<close>

text \<open>The mode of every existing path; \<open>io\<close> says whose mode can be changed, \<open>entries\<close> lists \<open>keys/\<close>.\<close>

type_synonym modes = "string \<Rightarrow> nat option"

definition set_mode :: "(string \<Rightarrow> bool) \<Rightarrow> nat \<Rightarrow> modes \<Rightarrow> string \<Rightarrow> modes" where
  "set_mode io mode m p = (if m p \<noteq> None \<and> io p then m(p \<mapsto> mode) else m)"

definition has_enc_extension :: "string \<Rightarrow> bool" where
  "has_enc_extension name = (ends_with name ''.enc'' \<and> 4 < length name)"

definition private_dirs :: "string \<Rightarrow> string list" where
  "private_dirs dir = [dir, path_join dir ''keys'']"

definition private_files :: "string \<Rightarrow> string list \<Rightarrow> string list" where
  "private_files dir entries =
     List.map (path_join dir) [''master.key'', ''master.salt'', ''wallets.json'', ''policy.json''] @
     List.map (path_join (path_join dir ''keys'')) (filter has_enc_extension entries)"

definition harden_permissions :: "(string \<Rightarrow> bool) \<Rightarrow> string \<Rightarrow> string list \<Rightarrow> modes \<Rightarrow> modes" where
  "harden_permissions io dir entries m =
     foldl (set_mode io 0x180) (foldl (set_mode io 0x1C0) m (private_dirs dir)) (private_files dir entries)"

lemma set_modes:
  "foldl (set_mode io mode) m ps p = (if p \<in> set ps \<and> m p \<noteq> None \<and> io p then Some mode else m p)"
  by (induction ps arbitrary: m) (auto simp: set_mode_def)

text \<open>Afterwards nobody but the owner can read a key, and no other file changed its mode.\<close>

lemma hardened:
  "p \<in> set (private_files dir entries) \<Longrightarrow> m p \<noteq> None \<Longrightarrow> io p \<Longrightarrow> harden_permissions io dir entries m p = Some 0x180"
  "p \<notin> set (private_files dir entries) \<Longrightarrow> p \<notin> set (private_dirs dir) \<Longrightarrow> harden_permissions io dir entries m p = m p"
  by (simp_all add: harden_permissions_def set_modes)

end
