(* ===== verification/Switch.thy ===== *)
theory Switch
  imports Decimal
begin

text \<open>
  \<open>crates/osmoda-watch\<close>: SafeSwitch sessions and autopilot watchers (\<open>switch.rs\<close>,
  \<open>validate.rs\<close>, \<open>watcher.rs\<close>, \<open>api.rs\<close> and the two background loops of \<open>main.rs\<close>).
  Every process the daemon runs is recorded in a trace; the result of the n-th one is given by
  the record \<open>host\<close>. Events posted to agentd (best effort) are recorded too.
\<close>

section \<open>Data\<close>

datatype health_check =
    SystemdUnit string
  | TcpPort string nat
  | HttpGet string nat
  | Command string "string list"

datatype switch_status =
    Probation
  | Committed timestamp
  | RolledBack string timestamp

record switch_session =
  sw_id :: string
  sw_plan :: string
  sw_ttl_secs :: nat
  sw_checks :: "health_check list"
  sw_started_at :: timestamp
  sw_previous :: string
  sw_status :: switch_status

datatype watch_action =
    RestartService string
  | RollbackGeneration
  | Notify string

datatype watcher_state = Healthy | Degraded timestamp nat

record watcher =
  wt_id :: string
  wt_name :: string
  wt_check :: health_check
  wt_interval_secs :: nat
  wt_actions :: "watch_action list"
  wt_state :: watcher_state

definition is_active :: "switch_session \<Rightarrow> bool" where
  "is_active s = (sw_status s = Probation)"

text \<open>\<open>parse_time\<close> reads an RFC 3339 time as nanoseconds; \<open>now\<close> is the clock in nanoseconds.\<close>

definition is_expired :: "(timestamp \<Rightarrow> int option) \<Rightarrow> int \<Rightarrow> switch_session \<Rightarrow> bool" where
  "is_expired parse_time now s =
     (case parse_time (sw_started_at s) of
        None \<Rightarrow> False
      | Some started \<Rightarrow> sw_ttl_secs s \<le> as_u64 (num_seconds (now - started)))"

fun is_degraded :: "watcher_state \<Rightarrow> bool" where
  "is_degraded Healthy = False"
| "is_degraded (Degraded since retries) = True"

section \<open>Validation\<close>

definition unit_char :: "char \<Rightarrow> bool" where
  "unit_char c = (ascii_alnum c \<or> c \<in> set ''@._-'')"

definition validate_unit_name :: "string \<Rightarrow> string + unit" where
  "validate_unit_name u =
     (if u = [] \<or> 256 < length u then Inl ''unit name must be 1-256 characters''
      else if \<not> list_all unit_char u then Inl (''invalid characters in unit name: '' @ u)
      else Inr ())"

definition blocked_basenames :: "string list" where
  "blocked_basenames = [''sh'', ''bash'', ''zsh'', ''dash'', ''fish'', ''csh'', ''tcsh'', ''env'', ''python'',
     ''python3'', ''perl'', ''ruby'', ''node'', ''lua'']"

definition basename :: "string \<Rightarrow> string" where
  "basename cmd = last (split_on (CHR ''/'') cmd)"

definition validate_command :: "string \<Rightarrow> string + unit" where
  "validate_command cmd =
     (if \<not> starts_with cmd ''/'' then Inl (''command must be an absolute path, got: '' @ cmd)
      else if basename cmd \<in> set blocked_basenames
      then Inl (''shell interpreters are blocked for security: '' @ cmd)
      else if contains cmd ''..'' then Inl (''command path must not contain '' @ [CHR 0x27] @ ''..'' @ [CHR 0x27])
      else Inr ())"

text \<open>\<open>url.split("://").next()\<close>: the text before the first \<open>://\<close>.\<close>

fun before_scheme :: "string \<Rightarrow> string" where
  "before_scheme [] = []"
| "before_scheme (c # s) = (if starts_with (c # s) ''://'' then [] else c # before_scheme s)"

definition validate_url :: "string \<Rightarrow> string + unit" where
  "validate_url url =
     (let lower = to_lowercase url
      in if starts_with lower ''http://'' \<or> starts_with lower ''https://'' then Inr ()
         else Inl (''URL must use http:// or https:// scheme, got: '' @ before_scheme url))"

definition shell_metachars :: "char list" where
  "shell_metachars = ''$'' @ [CHR 0x60] @ ''|;&(){}<>!'' @ [CHR 0x5C, CHR 0x0A, CHR 0x0D, CHR 0x00]"

fun validate_args :: "string list \<Rightarrow> string + unit" where
  "validate_args [] = Inr ()"
| "validate_args (arg # args) =
     (case List.find (\<lambda>c. c \<in> set shell_metachars) arg of
        Some bad \<Rightarrow> Inl (''argument contains shell metacharacter '' @ [CHR 0x27, bad, CHR 0x27] @ '': '' @ arg)
      | None \<Rightarrow> validate_args args)"

fun validate_health_check :: "health_check \<Rightarrow> string + unit" where
  "validate_health_check (SystemdUnit u) = validate_unit_name u"
| "validate_health_check (Command cmd args) = and_then (validate_command cmd) (\<lambda>_. validate_args args)"
| "validate_health_check (HttpGet url status) = validate_url url"
| "validate_health_check (TcpPort host port) = Inr ()"

fun validate_watch_action :: "watch_action \<Rightarrow> string + unit" where
  "validate_watch_action (RestartService u) = validate_unit_name u"
| "validate_watch_action RollbackGeneration = Inr ()"
| "validate_watch_action (Notify m) = Inr ()"

section \<open>Processes\<close>

datatype process =
    IsActive string
  | Connect string nat
  | Curl string
  | Exec string "string list"
  | Restart string
  | NixRollback
  | SwitchToConfiguration

text \<open>How a process ends: it could not be started, or it exits (success, code, stdout, stderr).
  A call under a time limit yields \<open>None\<close> when the limit passes.\<close>

datatype exit = Spawn_failed string | Exited bool int string string

record host =
  ho_run :: "nat \<Rightarrow> process \<Rightarrow> exit option"
  ho_restart :: "nat \<Rightarrow> string \<Rightarrow> exit"
  ho_profile :: "nat \<Rightarrow> string option"

type_synonym trace = "process list"

definition run_process :: "host \<Rightarrow> trace \<Rightarrow> process \<Rightarrow> trace \<times> exit option" where
  "run_process h tr p = (tr @ [p], ho_run h (length tr) p)"

text \<open>One iteration of the loop of \<open>run_health_checks\<close> after validation: \<open>None\<close> when the check
  passes, else what is pushed to \<open>failures\<close>.\<close>

fun perform_check :: "host \<Rightarrow> trace \<Rightarrow> health_check \<Rightarrow> trace \<times> string option" where
  "perform_check h tr (SystemdUnit u) =
     (case run_process h tr (IsActive u) of (tr', r) \<Rightarrow> (tr',
        (case r of
           None \<Rightarrow> Some (''systemd unit '' @ u @ '' check timed out after 10s'')
         | Some (Exited succ code out err) \<Rightarrow>
             (if succ then None else Some (''systemd unit '' @ u @ '' is '' @ trim out))
         | Some (Spawn_failed e) \<Rightarrow> Some (''failed to check unit '' @ u @ '': '' @ e))))"
| "perform_check h tr (TcpPort a p) =
     (case run_process h tr (Connect a p) of (tr', r) \<Rightarrow> (tr',
        (case r of
           None \<Rightarrow> Some (''tcp '' @ a @ '':'' @ dec p @ '' check timed out after 5s'')
         | Some (Exited succ code out err) \<Rightarrow> None
         | Some (Spawn_failed e) \<Rightarrow> Some (''tcp '' @ a @ '':'' @ dec p @ '' unreachable: '' @ e))))"
| "perform_check h tr (HttpGet url expected) =
     (case run_process h tr (Curl url) of (tr', r) \<Rightarrow> (tr',
        (case r of
           None \<Rightarrow> Some (''HTTP GET '' @ url @ '' timed out after 10s'')
         | Some (Exited succ code out err) \<Rightarrow>
             (let got = (case parse_uint 16 (trim out) of None \<Rightarrow> 0 | Some n \<Rightarrow> n)
              in if got \<noteq> expected
                 then Some (''HTTP GET '' @ url @ '': expected '' @ dec expected @ '', got '' @ dec got)
                 else None)
         | Some (Spawn_failed e) \<Rightarrow> Some (''HTTP GET '' @ url @ '' failed: '' @ e))))"
| "perform_check h tr (Command cmd args) =
     (case run_process h tr (Exec cmd args) of (tr', r) \<Rightarrow> (tr',
        (let name = ''command '' @ [CHR 0x60] @ cmd @ [CHR 0x60]
         in case r of
              None \<Rightarrow> Some (name @ '' timed out after 30s'')
            | Some (Exited succ code out err) \<Rightarrow>
                (if succ then None else Some (name @ '' exited '' @ dec_int code @ '': '' @ trim err))
            | Some (Spawn_failed e) \<Rightarrow> Some (name @ '' failed to execute: '' @ e))))"

fun run_health_checks :: "host \<Rightarrow> trace \<Rightarrow> health_check list \<Rightarrow> trace \<times> string list" where
  "run_health_checks h tr [] = (tr, [])"
| "run_health_checks h tr (c # cs) =
     (case validate_health_check c of
        Inl e \<Rightarrow>
          (case run_health_checks h tr cs of (tr', fs) \<Rightarrow> (tr', (''invalid health check: '' @ e) # fs))
      | Inr _ \<Rightarrow>
          (case perform_check h tr c of (tr1, r) \<Rightarrow>
             (case run_health_checks h tr1 cs of (tr', fs) \<Rightarrow>
                (tr', (case r of None \<Rightarrow> fs | Some f \<Rightarrow> f # fs)))))"

definition current_generation :: "host \<Rightarrow> trace \<Rightarrow> string" where
  "current_generation h tr = (case ho_profile h (length tr) of None \<Rightarrow> ''unknown'' | Some p \<Rightarrow> p)"

definition rollback_generation :: "host \<Rightarrow> trace \<Rightarrow> trace \<times> (string + string)" where
  "rollback_generation h tr =
     (case run_process h tr NixRollback of
        (tr1, None) \<Rightarrow> (tr1, Inl ''nix-env rollback timed out after 60s'')
      | (tr1, Some (Spawn_failed e)) \<Rightarrow> (tr1, Inl e)
      | (tr1, Some (Exited succ code out err)) \<Rightarrow>
          (if \<not> succ then (tr1, Inl (''rollback failed: '' @ err))
           else case run_process h tr1 SwitchToConfiguration of
                  (tr2, None) \<Rightarrow> (tr2, Inl ''switch-to-configuration timed out after 60s'')
                | (tr2, Some (Spawn_failed e)) \<Rightarrow> (tr2, Inl e)
                | (tr2, Some (Exited succ code out err)) \<Rightarrow>
                    (if \<not> succ then (tr2, Inl (''switch-to-configuration failed: '' @ err))
                     else (tr2, Inr (current_generation h tr2)))))"

fun execute_action :: "host \<Rightarrow> trace \<Rightarrow> watch_action \<Rightarrow> trace \<times> (string + string)" where
  "execute_action h tr (RestartService u) =
     (case validate_watch_action (RestartService u) of
        Inl e \<Rightarrow> (tr, Inl e)
      | Inr _ \<Rightarrow> (tr @ [Restart u],
          (case ho_restart h (length tr) u of
             Spawn_failed e \<Rightarrow> Inl (''failed to restart '' @ u @ '': '' @ e)
           | Exited succ code out err \<Rightarrow>
               (if succ then Inr (''restarted '' @ u) else Inl (''restart '' @ u @ '' failed: '' @ err)))))"
| "execute_action h tr RollbackGeneration =
     (case rollback_generation h tr of
        (tr', Inr gen) \<Rightarrow> (tr', Inr (''rolled back to '' @ gen))
      | (tr', Inl e) \<Rightarrow> (tr', Inl (''rollback failed: '' @ e)))"
| "execute_action h tr (Notify m) = (tr, Inr (''notified: '' @ m))"

section \<open>Watchers\<close>

definition em_dash :: string where
  "em_dash = [CHR 0xE2, CHR 0x80, CHR 0x94]"

text \<open>The new state and the retry count of a failed check; \<open>retries + 1\<close> wraps in a release build.\<close>

fun escalate :: "timestamp \<Rightarrow> watcher_state \<Rightarrow> watcher_state \<times> nat" where
  "escalate now Healthy = (Degraded now 0, 0)"
| "escalate now (Degraded since retries) =
     (let n = wrapping_add_w 32 retries 1 in (Degraded since n, n))"

definition run_watcher_cycle ::
  "host \<Rightarrow> timestamp \<Rightarrow> trace \<Rightarrow> watcher \<Rightarrow> trace \<times> watcher \<times> string list" where
  "run_watcher_cycle h now tr w =
     (case run_health_checks h tr [wt_check w] of
        (tr1, failures) \<Rightarrow>
          (if failures = []
           then (tr1, w\<lparr>wt_state := Healthy\<rparr>,
                 (if is_degraded (wt_state w) then [wt_name w @ '': recovered''] else []))
           else let (state', retries) = escalate now (wt_state w);
                    action_idx = min retries (length (wt_actions w) - 1)
                in if action_idx < length (wt_actions w)
                   then case execute_action h tr1 (wt_actions w ! action_idx) of
                          (tr2, Inr msg) \<Rightarrow> (tr2, w\<lparr>wt_state := state'\<rparr>, [wt_name w @ '': '' @ msg])
                        | (tr2, Inl msg) \<Rightarrow> (tr2, w\<lparr>wt_state := state'\<rparr>,
                            [wt_name w @ '': action failed '' @ em_dash @ '' '' @ msg])
                   else (tr1, w\<lparr>wt_state := state'\<rparr>, [])))"

section \<open>The daemon\<close>

text \<open>Events for agentd: of a watcher that acted, and of an automatic roll-back.\<close>

datatype post =
    Escalation string "string list"
  | RollbackTriggered string string "string list"
  | RollbackResult string bool string

record watch =
  ws_switches :: "string \<Rightarrow> switch_session option"
  ws_watchers :: "watcher list"
  ws_saved :: "watcher list option"
  ws_trace :: trace
  ws_posts :: "post list"

text \<open>What clock and UUID generator give one call; \<open>we_io_ok\<close>: the watcher file can be written.\<close>

record watch_env =
  we_uuid :: string
  we_stamp :: timestamp
  we_clock :: int
  we_io_ok :: bool

datatype 'a watch_reply = Refused nat | Done 'a

fun first_error :: "('a \<Rightarrow> string + unit) \<Rightarrow> 'a list \<Rightarrow> string + unit" where
  "first_error v [] = Inr ()"
| "first_error v (x # xs) = and_then (v x) (\<lambda>_. first_error v xs)"

definition switch_begin_handler ::
  "host \<Rightarrow> watch_env \<Rightarrow> watch \<Rightarrow> string \<Rightarrow> nat \<Rightarrow> health_check list \<Rightarrow> watch \<times> string watch_reply" where
  "switch_begin_handler h env st plan ttl_secs checks =
     (case first_error validate_health_check checks of
        Inl e \<Rightarrow> (st, Refused 400)
      | Inr _ \<Rightarrow>
          (let session = \<lparr>sw_id = we_uuid env, sw_plan = plan, sw_ttl_secs = ttl_secs, sw_checks = checks,
                 sw_started_at = we_stamp env, sw_previous = current_generation h (ws_trace st),
                 sw_status = Probation\<rparr>
           in (st\<lparr>ws_switches := (ws_switches st)(we_uuid env \<mapsto> session)\<rparr>, Done (we_uuid env))))"

definition switch_status_handler :: "watch \<Rightarrow> string \<Rightarrow> switch_session watch_reply" where
  "switch_status_handler st i = (case ws_switches st i of None \<Rightarrow> Refused 404 | Some s \<Rightarrow> Done s)"

text \<open>\<open>keys\<close> is the order in which the hash map yields its keys; newest first, the sort is stable.\<close>

definition switch_list_handler :: "string list \<Rightarrow> watch \<Rightarrow> switch_session list" where
  "switch_list_handler keys st =
     rev (sort_key sw_started_at (rev (List.map_filter (ws_switches st) keys)))"

definition set_status :: "string \<Rightarrow> switch_status \<Rightarrow> watch \<Rightarrow> watch" where
  "set_status i status st =
     (case ws_switches st i of
        None \<Rightarrow> st
      | Some s \<Rightarrow> st\<lparr>ws_switches := (ws_switches st)(i \<mapsto> s\<lparr>sw_status := status\<rparr>)\<rparr>)"

definition switch_commit_handler ::
  "watch_env \<Rightarrow> watch \<Rightarrow> string \<Rightarrow> watch \<times> switch_session watch_reply" where
  "switch_commit_handler env st i =
     (case ws_switches st i of
        None \<Rightarrow> (st, Refused 404)
      | Some s \<Rightarrow>
          (if \<not> is_active s then (st, Refused 409)
           else let status = Committed (we_stamp env)
                in (set_status i status st, Done (s\<lparr>sw_status := status\<rparr>))))"

definition switch_rollback_handler ::
  "host \<Rightarrow> watch_env \<Rightarrow> watch \<Rightarrow> string \<Rightarrow> watch \<times> switch_session watch_reply" where
  "switch_rollback_handler h env st i =
     (case ws_switches st i of
        None \<Rightarrow> (st, Refused 404)
      | Some s \<Rightarrow>
          (if \<not> is_active s then (st, Refused 409)
           else case rollback_generation h (ws_trace st) of
                  (tr, _) \<Rightarrow>
                    (let status = RolledBack ''manual rollback'' (we_stamp env)
                     in (set_status i status (st\<lparr>ws_trace := tr\<rparr>), Done (s\<lparr>sw_status := status\<rparr>)))))"

definition save_watchers :: "bool \<Rightarrow> watch \<Rightarrow> watch" where
  "save_watchers io_ok st = (if io_ok then st\<lparr>ws_saved := Some (ws_watchers st)\<rparr> else st)"

definition load_watchers :: "watcher list option \<Rightarrow> watcher list" where
  "load_watchers file = (case file of None \<Rightarrow> [] | Some ws \<Rightarrow> ws)"

definition watcher_add_handler ::
  "watch_env \<Rightarrow> watch \<Rightarrow> string \<Rightarrow> health_check \<Rightarrow> nat option \<Rightarrow> watch_action list
    \<Rightarrow> watch \<times> watcher watch_reply" where
  "watcher_add_handler env st name check interval actions =
     (case validate_health_check check of
        Inl e \<Rightarrow> (st, Refused 400)
      | Inr _ \<Rightarrow>
          (case first_error validate_watch_action actions of
             Inl e \<Rightarrow> (st, Refused 400)
           | Inr _ \<Rightarrow>
               (let w = \<lparr>wt_id = we_uuid env, wt_name = name, wt_check = check,
                      wt_interval_secs = (case interval of None \<Rightarrow> 30 | Some n \<Rightarrow> n),
                      wt_actions = actions, wt_state = Healthy\<rparr>
                in (save_watchers (we_io_ok env) (st\<lparr>ws_watchers := ws_watchers st @ [w]\<rparr>), Done w))))"

definition watcher_list_handler :: "watch \<Rightarrow> watcher list" where
  "watcher_list_handler st = ws_watchers st"

definition watcher_remove_handler :: "watch_env \<Rightarrow> watch \<Rightarrow> string \<Rightarrow> watch \<times> string watch_reply" where
  "watcher_remove_handler env st i =
     (let before = length (ws_watchers st);
          st' = st\<lparr>ws_watchers := filter (\<lambda>w. wt_id w \<noteq> i) (ws_watchers st)\<rparr>
      in if length (ws_watchers st') < before then (save_watchers (we_io_ok env) st', Done i)
         else (st', Refused 404))"

definition watch_health_handler :: "string list \<Rightarrow> watch \<Rightarrow> nat \<times> nat" where
  "watch_health_handler keys st =
     (length (filter is_active (List.map_filter (ws_switches st) keys)), length (ws_watchers st))"

section \<open>Background loops\<close>

text \<open>One tick of \<open>watcher_loop\<close>: every watcher in order; \<open>stamp\<close> is the time of each cycle.\<close>

fun watcher_cycles ::
  "host \<Rightarrow> (string \<Rightarrow> timestamp) \<Rightarrow> trace \<Rightarrow> watcher list \<Rightarrow> trace \<times> watcher list \<times> post list" where
  "watcher_cycles h stamp tr [] = (tr, [], [])"
| "watcher_cycles h stamp tr (w # ws) =
     (case run_watcher_cycle h (stamp (wt_id w)) tr w of
        (tr1, w', actions) \<Rightarrow>
          (case watcher_cycles h stamp tr1 ws of
             (tr2, ws', posts) \<Rightarrow>
               (tr2, w' # ws', (if actions = [] then [] else [Escalation (wt_name w) actions]) @ posts)))"

definition watcher_tick :: "host \<Rightarrow> (string \<Rightarrow> timestamp) \<Rightarrow> watch \<Rightarrow> watch" where
  "watcher_tick h stamp st =
     (case watcher_cycles h stamp (ws_trace st) (ws_watchers st) of
        (tr, ws, posts) \<Rightarrow>
          st\<lparr>ws_trace := tr, ws_watchers := ws, ws_posts := ws_posts st @ posts\<rparr>)"

text \<open>The automatic roll-back of \<open>switch_probation_loop\<close>.\<close>

definition auto_rollback ::
  "host \<Rightarrow> timestamp \<Rightarrow> string \<Rightarrow> string \<Rightarrow> string \<Rightarrow> switch_session \<Rightarrow> string list \<Rightarrow> watch \<Rightarrow> watch" where
  "auto_rollback h now why prefix i s failures st =
     (case rollback_generation h (ws_trace st) of
        (tr, result) \<Rightarrow>
          set_status i (RolledBack (prefix @ join ''; '' failures) now)
            (st\<lparr>ws_trace := tr, ws_posts := ws_posts st @
                [RollbackTriggered i why failures, RollbackResult i (is_ok result) (sw_previous s)]\<rparr>))"

text \<open>\<open>clock\<close> and \<open>stamp\<close> give the times at which a session is looked at and decided.\<close>

definition probation_check ::
  "(timestamp \<Rightarrow> int option) \<Rightarrow> host \<Rightarrow> (string \<Rightarrow> int) \<Rightarrow> (string \<Rightarrow> timestamp) \<Rightarrow> string \<Rightarrow> watch \<Rightarrow> watch" where
  "probation_check parse_time h clock stamp i st =
     (case ws_switches st i of
        None \<Rightarrow> st
      | Some s \<Rightarrow>
          (case run_health_checks h (ws_trace st) (sw_checks s) of
             (tr, failures) \<Rightarrow>
               (let st1 = st\<lparr>ws_trace := tr\<rparr>
                in if \<not> is_expired parse_time (clock i) s
                   then (if failures \<noteq> []
                         then auto_rollback h (stamp i) ''health_check_failure'' ''health check failures: '' i s
                                failures st1
                         else st1)
                   else (if failures = [] then set_status i (Committed (stamp i)) st1
                         else auto_rollback h (stamp i) ''ttl_expired_with_failures''
                                ''TTL expired with failures: '' i s failures st1))))"

definition probation_tick ::
  "(timestamp \<Rightarrow> int option) \<Rightarrow> host \<Rightarrow> (string \<Rightarrow> int) \<Rightarrow> (string \<Rightarrow> timestamp) \<Rightarrow> string list \<Rightarrow> watch \<Rightarrow> watch" where
  "probation_tick parse_time h clock stamp keys st =
     (let active_ids = List.map sw_id (filter is_active (List.map_filter (ws_switches st) keys))
      in foldl (\<lambda>st i. probation_check parse_time h clock stamp i st) st active_ids)"

section \<open>Runs of the daemon\<close>

datatype watch_call =
    BeginSwitch watch_env string nat "health_check list"
  | CommitSwitch watch_env string
  | RollbackSwitch watch_env string
  | AddWatcher watch_env string health_check "nat option" "watch_action list"
  | RemoveWatcher watch_env string
  | WatcherTick "string \<Rightarrow> timestamp"
  | ProbationTick "string \<Rightarrow> int" "string \<Rightarrow> timestamp" "string list"

fun watch_step :: "(timestamp \<Rightarrow> int option) \<Rightarrow> host \<Rightarrow> watch \<Rightarrow> watch_call \<Rightarrow> watch" where
  "watch_step pt h st (BeginSwitch env plan ttl cs) = fst (switch_begin_handler h env st plan ttl cs)"
| "watch_step pt h st (CommitSwitch env i) = fst (switch_commit_handler env st i)"
| "watch_step pt h st (RollbackSwitch env i) = fst (switch_rollback_handler h env st i)"
| "watch_step pt h st (AddWatcher env n c iv acts) = fst (watcher_add_handler env st n c iv acts)"
| "watch_step pt h st (RemoveWatcher env i) = fst (watcher_remove_handler env st i)"
| "watch_step pt h st (WatcherTick stamp) = watcher_tick h stamp st"
| "watch_step pt h st (ProbationTick clock stamp keys) = probation_tick pt h clock stamp keys st"

text \<open>UUIDs are fresh, and a hash map yields each of its keys once.\<close>

fun watch_enabled :: "watch \<Rightarrow> watch_call \<Rightarrow> bool" where
  "watch_enabled st (BeginSwitch env plan ttl cs) = (ws_switches st (we_uuid env) = None)"
| "watch_enabled st (ProbationTick clock stamp keys) = (distinct keys \<and> set keys = dom (ws_switches st))"
| "watch_enabled st _ = True"

definition keys_ok :: "watch \<Rightarrow> bool" where
  "keys_ok st = (\<forall>i s. ws_switches st i = Some s \<longrightarrow> sw_id s = i)"

section \<open>Only validated processes run\<close>

fun process_ok :: "process \<Rightarrow> bool" where
  "process_ok (IsActive u) = (validate_unit_name u = Inr ())"
| "process_ok (Restart u) = (validate_unit_name u = Inr ())"
| "process_ok (Exec cmd args) = (validate_command cmd = Inr () \<and> validate_args args = Inr ())"
| "process_ok (Curl url) = (validate_url url = Inr ())"
| "process_ok (Connect a p) = True"
| "process_ok NixRollback = True"
| "process_ok SwitchToConfiguration = True"

text \<open>What that means of a process, written out.\<close>

fun harmless :: "process \<Rightarrow> bool" where
  "harmless (Exec cmd args) = (starts_with cmd ''/'' \<and> basename cmd \<notin> set blocked_basenames \<and>
     \<not> contains cmd ''..'' \<and> list_all (\<lambda>a. set a \<inter> set shell_metachars = {}) args)"
| "harmless (Curl url) = (starts_with (to_lowercase url) ''http://'' \<or> starts_with (to_lowercase url) ''https://'')"
| "harmless (Connect a p) = True"
| "harmless NixRollback = True"
| "harmless SwitchToConfiguration = True"
| "harmless (IsActive u) = (u \<noteq> [] \<and> length u \<le> 256 \<and> list_all unit_char u)"
| "harmless (Restart u) = (u \<noteq> [] \<and> length u \<le> 256 \<and> list_all unit_char u)"

lemma validate_args_ok: "validate_args args = Inr () \<longleftrightarrow> list_all (\<lambda>a. set a \<inter> set shell_metachars = {}) args"
proof (induction args)
  case (Cons a as)
  have "List.find (\<lambda>c. c \<in> set shell_metachars) a = None \<longleftrightarrow> set a \<inter> set shell_metachars = {}"
    by (auto simp: find_None_iff)
  with Cons show ?case by (cases "List.find (\<lambda>c. c \<in> set shell_metachars) a") simp_all
qed simp

lemma process_ok_harmless: "process_ok p \<Longrightarrow> harmless p"
  by (cases p) (simp_all add: validate_args_ok validate_unit_name_def validate_command_def validate_url_def
      Let_def split: if_splits)

text \<open>\<open>extends tr tr'\<close>: the trace grew by validated processes only.\<close>

definition extends :: "trace \<Rightarrow> trace \<Rightarrow> bool" where
  "extends tr tr' = (\<exists>ps. tr' = tr @ ps \<and> list_all process_ok ps)"

lemma extends_refl [simp]: "extends tr tr"
  by (simp add: extends_def)

lemma extends_trans: "extends a b \<Longrightarrow> extends b c \<Longrightarrow> extends a c"
  unfolding extends_def by (metis append.assoc list_all_append)

lemma extends_snoc [simp]: "extends tr (tr @ [p]) = process_ok p"
  by (simp add: extends_def)

lemma extends_ok: "extends tr tr' \<Longrightarrow> list_all process_ok tr \<Longrightarrow> list_all process_ok tr'"
  by (auto simp: extends_def)

lemma unit_Inr: "(r :: 'e + unit) = Inr u \<longleftrightarrow> r = Inr ()"
  by simp

lemma perform_check_extends:
  "validate_health_check c = Inr () \<Longrightarrow> extends tr (fst (perform_check h tr c))"
  by (cases c) (auto simp: run_process_def and_then_Inr Let_def)

lemma run_health_checks_extends: "extends tr (fst (run_health_checks h tr cs))"
proof (induction h tr cs rule: run_health_checks.induct)
  case (1 h tr)
  show ?case by simp
next
  case (2 h tr c cs)
  show ?case
  proof (cases "validate_health_check c")
    case (Inl e)
    with 2(1) show ?thesis by (auto split: prod.split)
  next
    case (Inr u)
    obtain tr1 r where p: "perform_check h tr c = (tr1, r)" by (meson surj_pair)
    have "extends tr tr1" using perform_check_extends [of c tr h] Inr p by simp
    moreover have "extends tr1 (fst (run_health_checks h tr1 cs))" using 2(2) [OF Inr] p by simp
    ultimately show ?thesis using Inr p extends_trans by (auto split: prod.split)
  qed
qed

lemma rollback_extends: "extends tr (fst (rollback_generation h tr))"
proof -
  have "extends tr (tr @ [NixRollback])" "extends (tr @ [NixRollback]) ((tr @ [NixRollback]) @ [SwitchToConfiguration])"
    by (simp_all del: append_assoc)
  then have "extends tr (tr @ [NixRollback, SwitchToConfiguration])"
    using extends_trans by fastforce
  then show ?thesis
    by (simp add: rollback_generation_def run_process_def split: option.split exit.split)
qed

lemma execute_action_extends: "extends tr (fst (execute_action h tr a))"
proof (cases a)
  case RollbackGeneration
  then show ?thesis using rollback_extends [of tr h] by (auto split: prod.split sum.split)
qed (auto split: sum.split exit.split)

lemma run_watcher_cycle_extends: "extends tr (fst (run_watcher_cycle h now tr w))"
proof -
  obtain tr1 fs where r: "run_health_checks h tr [wt_check w] = (tr1, fs)" by (meson surj_pair)
  then have "extends tr tr1" using run_health_checks_extends [of tr h "[wt_check w]"] by simp
  moreover have "extends tr1 (fst (execute_action h tr1 a))" for a by (rule execute_action_extends)
  ultimately show ?thesis using extends_trans r
    by (auto simp: run_watcher_cycle_def Let_def split: prod.split sum.split)
      (metis fst_conv)+
qed

lemma set_status_frame [simp]:
  "ws_trace (set_status i status st) = ws_trace st"
  "ws_watchers (set_status i status st) = ws_watchers st"
  "ws_saved (set_status i status st) = ws_saved st"
  "ws_posts (set_status i status st) = ws_posts st"
  by (simp_all add: set_status_def split: option.split)

lemma save_watchers_frame [simp]:
  "ws_trace (save_watchers io_ok st) = ws_trace st"
  "ws_watchers (save_watchers io_ok st) = ws_watchers st"
  "ws_switches (save_watchers io_ok st) = ws_switches st"
  by (simp_all add: save_watchers_def)

lemma watcher_cycles_extends: "extends tr (fst (watcher_cycles h stamp tr ws))"
proof (induction ws arbitrary: tr)
  case Nil
  show ?case by simp
next
  case (Cons w ws)
  obtain tr1 w' acts where r: "run_watcher_cycle h (stamp (wt_id w)) tr w = (tr1, w', acts)"
    by (meson prod_cases3)
  then have "extends tr tr1" using run_watcher_cycle_extends [of tr h "stamp (wt_id w)" w] by simp
  with Cons.IH [of tr1] r show ?case using extends_trans by (auto split: prod.split)
qed

lemma auto_rollback_extends:
  "extends (ws_trace st) (ws_trace (auto_rollback h now why prefix i s fs st))"
  using rollback_extends [of "ws_trace st" h] by (auto simp: auto_rollback_def split: prod.split)

lemma probation_check_extends:
  "extends (ws_trace st) (ws_trace (probation_check pt h clock stamp i st))"
proof (cases "ws_switches st i")
  case None
  then show ?thesis by (simp add: probation_check_def)
next
  case (Some s)
  obtain tr fs where r: "run_health_checks h (ws_trace st) (sw_checks s) = (tr, fs)"
    by (meson surj_pair)
  then have e: "extends (ws_trace st) tr"
    using run_health_checks_extends [of "ws_trace st" h "sw_checks s"] by simp
  have "extends tr (ws_trace (auto_rollback h now why prefix i s fs (st\<lparr>ws_trace := tr\<rparr>)))"
    for now why prefix
    using auto_rollback_extends [of "st\<lparr>ws_trace := tr\<rparr>"] by simp
  with e have "extends (ws_trace st) (ws_trace (auto_rollback h now why prefix i s fs (st\<lparr>ws_trace := tr\<rparr>)))"
    for now why prefix
    using extends_trans by blast
  with e Some r show ?thesis by (simp add: probation_check_def Let_def)
qed

lemma fold_extends:
  "(\<And>st i. extends (ws_trace st) (ws_trace (f st i))) \<Longrightarrow>
   extends (ws_trace st) (ws_trace (foldl f st is))"
  by (induction "is" arbitrary: st) (auto intro: extends_trans)

lemma watch_step_extends: "extends (ws_trace st) (ws_trace (watch_step pt h st c))"
proof (cases c)
  case (BeginSwitch env plan ttl cs)
  then show ?thesis by (simp add: switch_begin_handler_def Let_def split: sum.split)
next
  case (CommitSwitch env i)
  then show ?thesis by (simp add: switch_commit_handler_def Let_def split: option.split)
next
  case (RollbackSwitch env i)
  then show ?thesis using rollback_extends [of "ws_trace st" h]
    by (auto simp: switch_rollback_handler_def Let_def split: option.split prod.split)
next
  case (AddWatcher env n k iv acts)
  then show ?thesis by (simp add: watcher_add_handler_def Let_def split: sum.split)
next
  case (RemoveWatcher env i)
  then show ?thesis by (simp add: watcher_remove_handler_def Let_def)
next
  case (WatcherTick stamp)
  then show ?thesis using watcher_cycles_extends [of "ws_trace st" h stamp "ws_watchers st"]
    by (auto simp: watcher_tick_def split: prod.split)
next
  case (ProbationTick clock stamp keys)
  then show ?thesis by (simp add: probation_tick_def Let_def fold_extends probation_check_extends)
qed

lemma watch_run_extends: "extends (ws_trace st) (ws_trace (foldl (watch_step pt h) st cs))"
  by (induction cs arbitrary: st) (auto intro: extends_trans watch_step_extends)

section \<open>Sessions\<close>

text \<open>What \<open>set_status\<close> and one look of the probation loop do to the sessions.\<close>

lemma set_status_switches:
  "ws_switches (set_status i status st) =
     (case ws_switches st i of None \<Rightarrow> ws_switches st
      | Some s \<Rightarrow> (ws_switches st)(i \<mapsto> s\<lparr>sw_status := status\<rparr>))"
  by (simp add: set_status_def split: option.split)

text \<open>The decision on a session that is in probation, given its failures and its age.\<close>

definition probation_verdict :: "bool \<Rightarrow> string list \<Rightarrow> timestamp \<Rightarrow> switch_status" where
  "probation_verdict expired failures now =
     (if failures \<noteq> []
      then RolledBack ((if expired then ''TTL expired with failures: '' else ''health check failures: '')
             @ join ''; '' failures) now
      else if expired then Committed now else Probation)"

lemma probation_check_switches:
  assumes "ws_switches st i = Some s" and "is_active s"
  shows "ws_switches (probation_check pt h clock stamp i st) =
     (ws_switches st)(i \<mapsto> s\<lparr>sw_status := probation_verdict (is_expired pt (clock i) s)
        (snd (run_health_checks h (ws_trace st) (sw_checks s))) (stamp i)\<rparr>)"
proof -
  have same: "s\<lparr>sw_status := Probation\<rparr> = s" using assms(2) by (simp add: is_active_def)
  show ?thesis using assms(1)
    by (auto simp: probation_check_def Let_def auto_rollback_def probation_verdict_def
        set_status_switches same fun_upd_idem split: prod.split)
qed

lemma probation_check_other:
  "j \<noteq> i \<Longrightarrow> ws_switches (probation_check pt h clock stamp i st) j = ws_switches st j"
  by (auto simp: probation_check_def Let_def auto_rollback_def set_status_switches
      split: prod.split option.split)

lemma probation_check_id:
  "ws_switches st i = Some s \<Longrightarrow>
   \<exists>status. ws_switches (probation_check pt h clock stamp i st) i = Some (s\<lparr>sw_status := status\<rparr>)"
  by (auto simp: probation_check_def Let_def auto_rollback_def set_status_switches
      intro: exI [of _ "sw_status s"] split: prod.split option.split)

lemma probation_check_dom:
  "dom (ws_switches (probation_check pt h clock stamp i st)) = dom (ws_switches st)"
  by (auto simp: probation_check_def Let_def auto_rollback_def set_status_switches
      split: prod.splits option.splits if_splits)

definition active_ids :: "string list \<Rightarrow> watch \<Rightarrow> string list" where
  "active_ids keys st = List.map sw_id (filter is_active (List.map_filter (ws_switches st) keys))"

lemma active_ids_eq:
  "keys_ok st \<Longrightarrow> active_ids keys st =
     filter (\<lambda>i. case ws_switches st i of None \<Rightarrow> False | Some s \<Rightarrow> is_active s) keys"
  by (induction keys)
    (auto simp: active_ids_def keys_ok_def List.map_filter_def split: option.splits)

lemma probation_fold_other:
  "j \<notin> set is \<Longrightarrow>
   ws_switches (foldl (\<lambda>st i. probation_check pt h clock stamp i st) st is) j = ws_switches st j"
  by (induction "is" arbitrary: st) (simp_all add: probation_check_other)

lemma probation_fold_active:
  assumes "distinct is" and "i \<in> set is" and "ws_switches st i = Some s" and "is_active s"
  shows "\<exists>tr. extends (ws_trace st) tr \<and>
     ws_switches (foldl (\<lambda>st i. probation_check pt h clock stamp i st) st is) i =
       Some (s\<lparr>sw_status := probation_verdict (is_expired pt (clock i) s)
         (snd (run_health_checks h tr (sw_checks s))) (stamp i)\<rparr>)"
  using assms
proof (induction "is" arbitrary: st)
  case Nil
  then show ?case by simp
next
  case (Cons j js)
  let ?st = "probation_check pt h clock stamp j st"
  show ?case
  proof (cases "j = i")
    case True
    then have "i \<notin> set js" using Cons.prems(1) by simp
    then show ?thesis
      using True probation_check_switches [OF Cons.prems(3,4)]
      by (intro exI [of _ "ws_trace st"]) (simp add: probation_fold_other)
  next
    case False
    then have "ws_switches ?st i = Some s" using Cons.prems(3) by (simp add: probation_check_other)
    then obtain tr where e: "extends (ws_trace ?st) tr"
      and "ws_switches (foldl (\<lambda>st i. probation_check pt h clock stamp i st) ?st js) i =
        Some (s\<lparr>sw_status := probation_verdict (is_expired pt (clock i) s)
          (snd (run_health_checks h tr (sw_checks s))) (stamp i)\<rparr>)"
      using Cons.IH [of ?st] Cons.prems False by auto
    moreover have "extends (ws_trace st) tr" using extends_trans [OF probation_check_extends e] .
    ultimately show ?thesis by (intro exI [of _ tr]) simp
  qed
qed

lemma probation_tick_ids:
  "probation_tick pt h clock stamp keys st =
     foldl (\<lambda>st i. probation_check pt h clock stamp i st) st (active_ids keys st)"
  by (simp add: probation_tick_def active_ids_def)

text \<open>One tick decides every active session by its age and its checks, and no other session.\<close>

lemma probation_tick_active:
  assumes "keys_ok st" and "distinct keys" and "set keys = dom (ws_switches st)"
    and "ws_switches st i = Some s" and "is_active s"
  shows "\<exists>tr. extends (ws_trace st) tr \<and>
     ws_switches (probation_tick pt h clock stamp keys st) i =
       Some (s\<lparr>sw_status := probation_verdict (is_expired pt (clock i) s)
         (snd (run_health_checks h tr (sw_checks s))) (stamp i)\<rparr>)"
proof -
  have "distinct (active_ids keys st)" "i \<in> set (active_ids keys st)"
    using assms by (auto simp: active_ids_eq)
  then show ?thesis
    using probation_fold_active [OF _ _ assms(4,5)] by (simp add: probation_tick_ids)
qed

lemma probation_tick_settled:
  assumes "keys_ok st" and "ws_switches st i = Some s" and "\<not> is_active s"
  shows "ws_switches (probation_tick pt h clock stamp keys st) i = Some s"
proof -
  have "i \<notin> set (active_ids keys st)" using assms by (simp add: active_ids_eq)
  then show ?thesis using assms(2) by (simp add: probation_tick_ids probation_fold_other)
qed

lemma probation_tick_keys: "keys_ok st \<Longrightarrow> keys_ok (probation_tick pt h clock stamp keys st)"
proof -
  have step: "keys_ok st \<Longrightarrow> keys_ok (probation_check pt h clock stamp i st)" for st i
    unfolding keys_ok_def
    by (auto simp: probation_check_def Let_def auto_rollback_def set_status_switches
        split: prod.splits option.splits if_splits)
  have "keys_ok st \<Longrightarrow> keys_ok (foldl (\<lambda>st i. probation_check pt h clock stamp i st) st is)" for st "is"
    by (induction "is" arbitrary: st) (simp_all add: step)
  then show "keys_ok st \<Longrightarrow> ?thesis" by (simp add: probation_tick_ids)
qed

lemma watcher_tick_switches [simp]: "ws_switches (watcher_tick h stamp st) = ws_switches st"
  by (simp add: watcher_tick_def split: prod.split)

lemma rollback_handler_switches:
  "ws_switches (fst (switch_rollback_handler h env st i)) =
     (case ws_switches st i of
        None \<Rightarrow> ws_switches st
      | Some s \<Rightarrow> if is_active s
                  then (ws_switches st)(i \<mapsto> s\<lparr>sw_status := RolledBack ''manual rollback'' (we_stamp env)\<rparr>)
                  else ws_switches st)"
  by (simp add: switch_rollback_handler_def Let_def set_status_switches split: option.split prod.split)

lemma commit_handler_switches:
  "ws_switches (fst (switch_commit_handler env st i)) =
     (case ws_switches st i of
        None \<Rightarrow> ws_switches st
      | Some s \<Rightarrow> if is_active s
                  then (ws_switches st)(i \<mapsto> s\<lparr>sw_status := Committed (we_stamp env)\<rparr>)
                  else ws_switches st)"
  by (simp add: switch_commit_handler_def Let_def set_status_switches split: option.split)

lemma watcher_handlers_switches [simp]:
  "ws_switches (fst (watcher_add_handler env st n c iv acts)) = ws_switches st"
  "ws_switches (fst (watcher_remove_handler env st i)) = ws_switches st"
  by (simp_all add: watcher_add_handler_def watcher_remove_handler_def Let_def split: sum.split)

lemma begin_handler_switches:
  obtains "ws_switches (fst (switch_begin_handler h env st plan ttl cs)) = ws_switches st"
    | s where "sw_id s = we_uuid env"
      "ws_switches (fst (switch_begin_handler h env st plan ttl cs)) = (ws_switches st)(we_uuid env \<mapsto> s)"
proof (cases "first_error validate_health_check cs")
  case (Inl e)
  then show thesis using that(1) by (simp add: switch_begin_handler_def)
next
  case (Inr u)
  then show thesis
    using that(2) [of "\<lparr>sw_id = we_uuid env, sw_plan = plan, sw_ttl_secs = ttl, sw_checks = cs,
      sw_started_at = we_stamp env, sw_previous = current_generation h (ws_trace st),
      sw_status = Probation\<rparr>"] by (simp add: switch_begin_handler_def Let_def)
qed

lemmas handler_switches = rollback_handler_switches commit_handler_switches

lemma watch_keys_step: "keys_ok st \<Longrightarrow> watch_enabled st c \<Longrightarrow> keys_ok (watch_step pt h st c)"
proof (cases c)
  case (BeginSwitch env plan ttl cs)
  assume "keys_ok st"
  with BeginSwitch show ?thesis
    by (cases rule: begin_handler_switches [of h env st plan ttl cs]) (simp_all add: keys_ok_def)
next
  case (ProbationTick clock stamp keys)
  assume "keys_ok st"
  with ProbationTick show ?thesis by (simp add: probation_tick_keys)
qed (auto simp: keys_ok_def handler_switches split: option.splits if_splits)

lemma watch_settled_step:
  assumes "keys_ok st" and "watch_enabled st c" and s: "ws_switches st i = Some s" and "\<not> is_active s"
  shows "ws_switches (watch_step pt h st c) i = Some s"
proof (cases c)
  case (BeginSwitch env plan ttl cs)
  with assms show ?thesis
    by (cases rule: begin_handler_switches [of h env st plan ttl cs]) auto
next
  case (ProbationTick clock stamp keys)
  with assms show ?thesis by (simp add: probation_tick_settled)
qed (use assms in \<open>auto simp: handler_switches split: option.split\<close>)

lemma watch_entry_step:
  assumes "keys_ok st" and "watch_enabled st c" and s: "ws_switches st i = Some s"
  shows "ws_switches (watch_step pt h st c) i \<noteq> None"
proof (cases c)
  case (BeginSwitch env plan ttl cs)
  with assms show ?thesis
    by (cases rule: begin_handler_switches [of h env st plan ttl cs]) auto
next
  case (ProbationTick clock stamp keys)
  have "dom (ws_switches (foldl (\<lambda>st i. probation_check pt h clock stamp i st) st is)) =
      dom (ws_switches st)" for st "is"
    by (induction "is" arbitrary: st) (simp_all add: probation_check_dom)
  then have "i \<in> dom (ws_switches (probation_tick pt h clock stamp keys st))"
    using s unfolding probation_tick_ids by blast
  with ProbationTick show ?thesis by auto
qed (use assms in \<open>auto simp: handler_switches split: option.split\<close>)

interpretation session_store: decision_store ws_switches "\<lambda>s. \<not> is_active s" keys_ok watch_enabled
  "watch_step pt h" for pt h
  by unfold_locales (simp_all add: watch_keys_step watch_settled_step watch_entry_step)

section \<open>Escalation\<close>

definition cycle :: "host \<Rightarrow> timestamp \<Rightarrow> trace \<times> watcher \<Rightarrow> trace \<times> watcher" where
  "cycle h now p = (case p of (tr, w) \<Rightarrow> case run_watcher_cycle h now tr w of (tr', w', acts) \<Rightarrow> (tr', w'))"

definition ladder :: "watcher \<Rightarrow> nat \<Rightarrow> watch_action" where
  "ladder w n = wt_actions w ! min n (length (wt_actions w) - 1)"

definition always_failing :: "host \<Rightarrow> health_check \<Rightarrow> bool" where
  "always_failing h c = (\<forall>tr. snd (run_health_checks h tr [c]) \<noteq> [])"

lemma cycle_failing:
  assumes "always_failing h (wt_check w)"
  shows "\<exists>tr'. cycle h now (tr, w) = (tr', w\<lparr>wt_state := fst (escalate now (wt_state w))\<rparr>)"
proof -
  obtain tr1 fs where r: "run_health_checks h tr [wt_check w] = (tr1, fs)" by (meson surj_pair)
  then have "fs \<noteq> []" using assms unfolding always_failing_def by (metis snd_conv)
  with r show ?thesis
    by (auto simp: cycle_def run_watcher_cycle_def Let_def simp del: run_health_checks.simps
        split: prod.split sum.split)
qed

lemma escalate_Degraded: "\<exists>since. fst (escalate now state) = Degraded since (snd (escalate now state))"
  by (cases state) (simp_all add: Let_def)

text \<open>After \<open>n\<close> failing cycles the next one counts \<open>n\<close> retries.\<close>

lemma failing_cycles:
  assumes "always_failing h (wt_check w)" and "wt_state w = Healthy"
  shows "length nows < 2 ^ 32 \<Longrightarrow> \<exists>tr' state. foldl (\<lambda>p now. cycle h now p) (tr, w) nows = (tr', w\<lparr>wt_state := state\<rparr>) \<and>
    (\<forall>now. snd (escalate now state) = length nows)"
proof (induction nows rule: rev_induct)
  case Nil
  show ?case using assms(2) by (intro exI [of _ tr] exI [of _ Healthy]) simp
next
  case (snoc now nows)
  then obtain tr' state where c: "foldl (\<lambda>p now. cycle h now p) (tr, w) nows = (tr', w\<lparr>wt_state := state\<rparr>)"
    and n: "snd (escalate now state) = length nows" by auto
  obtain tr'' where "cycle h now (tr', w\<lparr>wt_state := state\<rparr>) = (tr'', w\<lparr>wt_state := fst (escalate now state)\<rparr>)"
    using cycle_failing [of h "w\<lparr>wt_state := state\<rparr>" now tr'] assms(1) by auto
  moreover obtain since where "fst (escalate now state) = Degraded since (length nows)"
    using escalate_Degraded [of now state] n by auto
  ultimately show ?case using c snoc.prems
    by (intro exI [of _ tr''] exI [of _ "Degraded since (length nows)"])
      (simp add: Let_def wrapping_add_w_def)
qed

lemma failing_cycle_action:
  assumes "always_failing h (wt_check w)" and "wt_actions w \<noteq> []"
    and "snd (escalate now (wt_state w)) = n"
  shows "fst (run_watcher_cycle h now tr w) =
     fst (execute_action h (fst (run_health_checks h tr [wt_check w])) (ladder w n))"
proof -
  obtain tr1 fs where r: "run_health_checks h tr [wt_check w] = (tr1, fs)" by (meson surj_pair)
  then have "fs \<noteq> []" using assms(1) unfolding always_failing_def by (metis snd_conv)
  moreover obtain a as where "wt_actions w = a # as" using assms(2) by (cases "wt_actions w") auto
  moreover have "min n (length as) < Suc (length as)" by (simp add: le_imp_less_Suc)
  ultimately show ?thesis using r assms(3)
    by (auto simp: run_watcher_cycle_def Let_def ladder_def simp del: run_health_checks.simps
        split: prod.split sum.split)
qed

end
