(* ===== verification/Fleet.thy ===== *)
theory Fleet
  imports Switch
begin

text \<open>
  \<open>crates/osmoda-watch/src/fleet.rs\<close> and \<open>fleet_api.rs\<close>: fleet-wide switches decided by a quorum
  of the participants. The quorum is computed in the code with a division of doubles rounded up;
  here it is the exact ceiling, which the doubles give as long as the number of participants
  times the percentage is below 2 ^ 45 (the quotient by 100 is then at least 1/100 away from an
  integer unless it is one, far more than the rounding error).
\<close>

section \<open>Data\<close>

datatype fleet_phase = Propose | Vote | Execute | Verify | FleetCommitted | FleetRolledBack string | Aborted string

record fleet_vote =
  vo_peer :: string
  vo_approve :: bool
  vo_reason :: "string option"
  vo_at :: timestamp

datatype participant_status = Pending | Voted | Executing | PeerHealthy | Failed string

record fleet_participant =
  fp_peer :: string
  fp_status :: participant_status
  fp_local_switch :: "string option"

record fleet_switch =
  fs_id :: string
  fs_plan :: string
  fs_proposer :: string
  fs_participants :: "fleet_participant list"
  fs_votes :: "fleet_vote list"
  fs_quorum_percent :: nat
  fs_phase :: fleet_phase
  fs_checks :: "health_check list"
  fs_created_at :: timestamp
  fs_timeout_secs :: nat
  fs_summary :: "string option"

section \<open>A fleet switch\<close>

definition new_fleet_switch ::
  "string \<Rightarrow> timestamp \<Rightarrow> string \<Rightarrow> string \<Rightarrow> string list \<Rightarrow> health_check list \<Rightarrow> nat option \<Rightarrow> nat option
    \<Rightarrow> fleet_switch" where
  "new_fleet_switch uuid now plan proposer peer_ids checks quorum_percent timeout_secs =
     \<lparr>fs_id = uuid, fs_plan = plan, fs_proposer = proposer,
      fs_participants = List.map (\<lambda>p. \<lparr>fp_peer = p, fp_status = Pending, fp_local_switch = None\<rparr>) peer_ids,
      fs_votes = [],
      fs_quorum_percent = (case quorum_percent of None \<Rightarrow> 51 | Some q \<Rightarrow> q),
      fs_phase = Propose, fs_checks = checks, fs_created_at = now,
      fs_timeout_secs = (case timeout_secs of None \<Rightarrow> 300 | Some t \<Rightarrow> t),
      fs_summary = None\<rparr>"

definition participant_count :: "fleet_switch \<Rightarrow> nat" where
  "participant_count f = length (fs_participants f)"

definition quorum_required :: "fleet_switch \<Rightarrow> nat" where
  "quorum_required f = max ((participant_count f * fs_quorum_percent f + 99) div 100) 1"

definition approve_count :: "fleet_switch \<Rightarrow> nat" where
  "approve_count f = length (filter vo_approve (fs_votes f))"

definition deny_count :: "fleet_switch \<Rightarrow> nat" where
  "deny_count f = length (filter (\<lambda>v. \<not> vo_approve v) (fs_votes f))"

definition has_quorum :: "fleet_switch \<Rightarrow> bool" where
  "has_quorum f = (quorum_required f \<le> approve_count f)"

text \<open>The subtraction of \<open>is_vetoed\<close> is on \<open>usize\<close>; it wraps when there are more votes than
  participants.\<close>

definition is_vetoed :: "fleet_switch \<Rightarrow> bool" where
  "is_vetoed f =
     (let remaining = as_u64 (int (participant_count f) - int (length (fs_votes f)));
          max_possible_approves = wrapping_add_w 64 (approve_count f) remaining
      in max_possible_approves < quorum_required f)"

definition is_timed_out :: "(timestamp \<Rightarrow> int option) \<Rightarrow> int \<Rightarrow> fleet_switch \<Rightarrow> bool" where
  "is_timed_out parse_time now f =
     (case parse_time (fs_created_at f) of
        None \<Rightarrow> False
      | Some created \<Rightarrow> fs_timeout_secs f \<le> as_u64 (num_seconds (now - created)))"

text \<open>\<open>iter_mut().find(..)\<close>: the first participant with the id is updated.\<close>

fun update_peer ::
  "string \<Rightarrow> (fleet_participant \<Rightarrow> fleet_participant) \<Rightarrow> fleet_participant list \<Rightarrow> fleet_participant list" where
  "update_peer i u [] = []"
| "update_peer i u (p # ps) = (if fp_peer p = i then u p # ps else p # update_peer i u ps)"

definition record_vote ::
  "timestamp \<Rightarrow> fleet_switch \<Rightarrow> string \<Rightarrow> bool \<Rightarrow> string option \<Rightarrow> fleet_switch \<times> bool" where
  "record_vote now f peer_id approve reason =
     (if peer_id \<in> vo_peer ` set (fs_votes f) then (f, False)
      else if peer_id \<notin> fp_peer ` set (fs_participants f) then (f, False)
      else (f\<lparr>fs_votes := fs_votes f @ [\<lparr>vo_peer = peer_id, vo_approve = approve, vo_reason = reason,
                                          vo_at = now\<rparr>],
              fs_participants := update_peer peer_id (\<lambda>p. p\<lparr>fp_status := Voted\<rparr>) (fs_participants f)\<rparr>,
            True))"

definition advance_to_execute :: "fleet_switch \<Rightarrow> fleet_switch" where
  "advance_to_execute f =
     (if has_quorum f
      then f\<lparr>fs_phase := Execute,
             fs_participants := List.map
               (\<lambda>p. if \<exists>v \<in> set (fs_votes f). vo_peer v = fp_peer p \<and> vo_approve v
                    then p\<lparr>fp_status := Executing\<rparr> else p) (fs_participants f)\<rparr>
      else f)"

definition record_health_result :: "fleet_switch \<Rightarrow> string \<Rightarrow> bool \<Rightarrow> string option \<Rightarrow> fleet_switch" where
  "record_health_result f peer_id healthy reason =
     f\<lparr>fs_participants := update_peer peer_id
         (\<lambda>p. p\<lparr>fp_status := (if healthy then PeerHealthy
                else Failed (case reason of None \<Rightarrow> ''health check failed'' | Some r \<Rightarrow> r))\<rparr>)
         (fs_participants f)\<rparr>"

definition all_healthy :: "fleet_switch \<Rightarrow> bool" where
  "all_healthy f = list_all (\<lambda>p. fp_status p = PeerHealthy)
     (filter (\<lambda>p. fp_status p = Executing \<or> fp_status p = PeerHealthy) (fs_participants f))"

fun is_failed :: "participant_status \<Rightarrow> bool" where
  "is_failed (Failed r) = True"
| "is_failed _ = False"

definition any_failed :: "fleet_switch \<Rightarrow> bool" where
  "any_failed f = list_ex (\<lambda>p. is_failed (fp_status p)) (fs_participants f)"

definition fleet_commit :: "fleet_switch \<Rightarrow> fleet_switch" where
  "fleet_commit f = f\<lparr>fs_phase := FleetCommitted, fs_summary := Some (''committed: '' @
     dec (length (filter (\<lambda>p. fp_status p = PeerHealthy) (fs_participants f))) @ ''/'' @
     dec (participant_count f) @ '' participants healthy'')\<rparr>"

definition fleet_rollback :: "fleet_switch \<Rightarrow> string \<Rightarrow> fleet_switch" where
  "fleet_rollback f reason =
     f\<lparr>fs_phase := FleetRolledBack reason, fs_summary := Some (''rolled back: '' @ reason)\<rparr>"

definition fleet_abort :: "fleet_switch \<Rightarrow> string \<Rightarrow> fleet_switch" where
  "fleet_abort f reason =
     f\<lparr>fs_phase := Aborted reason, fs_summary := Some (''aborted: '' @ reason)\<rparr>"

section \<open>The coordinator and its endpoints\<close>

type_synonym coordinator = "string \<Rightarrow> fleet_switch option"

definition propose ::
  "string \<Rightarrow> timestamp \<Rightarrow> coordinator \<Rightarrow> string \<Rightarrow> string \<Rightarrow> string list \<Rightarrow> health_check list \<Rightarrow> nat option
    \<Rightarrow> nat option \<Rightarrow> coordinator \<times> fleet_switch" where
  "propose uuid now co plan proposer peer_ids checks quorum_percent timeout_secs =
     (let f = new_fleet_switch uuid now plan proposer peer_ids checks quorum_percent timeout_secs
      in (co(fs_id f \<mapsto> f), f))"

text \<open>\<open>get\<close> and \<open>list\<close>; \<open>keys\<close> is the order in which the hash map yields its keys.\<close>

definition fleet_get :: "coordinator \<Rightarrow> string \<Rightarrow> fleet_switch option" where
  "fleet_get co i = co i"

definition fleet_list :: "string list \<Rightarrow> coordinator \<Rightarrow> fleet_switch list" where
  "fleet_list keys co = List.map_filter (fleet_get co) keys"

text \<open>\<open>FleetSwitchResponse\<close>; \<open>show_phase\<close> is the lower-cased debug print of the phase.\<close>

record fleet_response =
  fr_id :: string
  fr_plan :: string
  fr_proposer :: string
  fr_phase :: string
  fr_participants :: nat
  fr_approvals :: nat
  fr_denials :: nat
  fr_required :: nat
  fr_has_quorum :: bool
  fr_summary :: "string option"

fun debug_phase :: "(string \<Rightarrow> string) \<Rightarrow> fleet_phase \<Rightarrow> string" where
  "debug_phase quote Propose = ''Propose''"
| "debug_phase quote Vote = ''Vote''"
| "debug_phase quote Execute = ''Execute''"
| "debug_phase quote Verify = ''Verify''"
| "debug_phase quote FleetCommitted = ''Committed''"
| "debug_phase quote (FleetRolledBack r) = ''RolledBack { reason: '' @ quote r @ '' }''"
| "debug_phase quote (Aborted r) = ''Aborted { reason: '' @ quote r @ '' }''"

definition fleet_response_of :: "(string \<Rightarrow> string) \<Rightarrow> fleet_switch \<Rightarrow> fleet_response" where
  "fleet_response_of quote f =
     \<lparr>fr_id = fs_id f, fr_plan = fs_plan f, fr_proposer = fs_proposer f,
      fr_phase = to_lowercase (debug_phase quote (fs_phase f)),
      fr_participants = participant_count f, fr_approvals = approve_count f,
      fr_denials = deny_count f, fr_required = quorum_required f, fr_has_quorum = has_quorum f,
      fr_summary = fs_summary f\<rparr>"

definition fleet_propose_handler ::
  "(string \<Rightarrow> string) \<Rightarrow> string \<Rightarrow> timestamp \<Rightarrow> coordinator option \<Rightarrow> string \<Rightarrow> string list
    \<Rightarrow> health_check list option \<Rightarrow> nat option \<Rightarrow> nat option \<Rightarrow> coordinator option \<times> fleet_response watch_reply" where
  "fleet_propose_handler quote uuid now st plan peer_ids checks quorum_percent timeout_secs =
     (case st of
        None \<Rightarrow> (st, Refused 503)
      | Some co \<Rightarrow>
          (if peer_ids = [] then (st, Refused 400)
           else case propose uuid now co plan ''local'' peer_ids
                       (case checks of None \<Rightarrow> [] | Some cs \<Rightarrow> cs) quorum_percent timeout_secs of
                  (co', f) \<Rightarrow> (Some co', Done (fleet_response_of quote f))))"

definition fleet_status_handler ::
  "(string \<Rightarrow> string) \<Rightarrow> coordinator option \<Rightarrow> string \<Rightarrow> fleet_response watch_reply" where
  "fleet_status_handler quote st i =
     (case st of
        None \<Rightarrow> Refused 503
      | Some co \<Rightarrow> (case co i of None \<Rightarrow> Refused 404 | Some f \<Rightarrow> Done (fleet_response_of quote f)))"

definition timeout_reason :: string where
  "timeout_reason = ''timeout '' @ em_dash @ '' voting period expired''"

definition veto_reason :: string where
  "veto_reason = ''proposal vetoed '' @ em_dash @ '' insufficient approvals possible''"

text \<open>The part of the vote handler that works on the switch: the switch after it, and an error code.\<close>

definition cast_vote ::
  "(timestamp \<Rightarrow> int option) \<Rightarrow> int \<Rightarrow> timestamp \<Rightarrow> fleet_switch \<Rightarrow> string \<Rightarrow> bool \<Rightarrow> string option
    \<Rightarrow> fleet_switch \<times> nat option" where
  "cast_vote parse_time clock now f peer_id approve reason =
     (if is_timed_out parse_time clock f then (fleet_abort f timeout_reason, Some 410)
      else if fs_phase f \<noteq> Propose then (f, Some 409)
      else case record_vote now f peer_id approve reason of
             (f1, recorded) \<Rightarrow>
               (if \<not> recorded then (f1, Some 409)
                else if has_quorum f1 then (advance_to_execute f1, None)
                else if is_vetoed f1 then (fleet_abort f1 veto_reason, None)
                else (f1, None)))"

definition fleet_vote_handler ::
  "(string \<Rightarrow> string) \<Rightarrow> (timestamp \<Rightarrow> int option) \<Rightarrow> int \<Rightarrow> timestamp \<Rightarrow> coordinator option \<Rightarrow> string \<Rightarrow> string
    \<Rightarrow> bool \<Rightarrow> string option \<Rightarrow> coordinator option \<times> fleet_response watch_reply" where
  "fleet_vote_handler quote parse_time clock now st i peer_id approve reason =
     (if peer_id = [] \<or> 256 < length peer_id then (st, Refused 400)
      else case st of
             None \<Rightarrow> (st, Refused 503)
           | Some co \<Rightarrow>
               (case co i of
                  None \<Rightarrow> (st, Refused 404)
                | Some f \<Rightarrow>
                    (case cast_vote parse_time clock now f peer_id approve reason of
                       (f', Some code) \<Rightarrow> (Some (co(i \<mapsto> f')), Refused code)
                     | (f', None) \<Rightarrow> (Some (co(i \<mapsto> f')), Done (fleet_response_of quote f')))))"

definition fleet_rollback_handler ::
  "(string \<Rightarrow> string) \<Rightarrow> coordinator option \<Rightarrow> string \<Rightarrow> coordinator option \<times> fleet_response watch_reply" where
  "fleet_rollback_handler quote st i =
     (case st of
        None \<Rightarrow> (st, Refused 503)
      | Some co \<Rightarrow>
          (case co i of
             None \<Rightarrow> (st, Refused 404)
           | Some f \<Rightarrow>
               (let f' = fleet_rollback f ''manual rollback requested''
                in (Some (co(i \<mapsto> f')), Done (fleet_response_of quote f')))))"

section \<open>The life of one fleet switch\<close>

text \<open>What the endpoints do to a switch that exists: a vote, or a forced roll-back.\<close>

inductive fleet_step :: "(timestamp \<Rightarrow> int option) \<Rightarrow> fleet_switch \<Rightarrow> fleet_switch \<Rightarrow> bool"
  for parse_time :: "timestamp \<Rightarrow> int option" where
  vote: "cast_vote parse_time clock now f peer approve reason = (f', code) \<Longrightarrow> fleet_step parse_time f f'"
| force: "fleet_step parse_time f (fleet_rollback f ''manual rollback requested'')"

inductive_cases fleet_stepE: "fleet_step parse_time f f'"

inductive_simps fleet_step_simps: "fleet_step parse_time f f'"

definition voters :: "fleet_switch \<Rightarrow> string list" where
  "voters f = List.map vo_peer (fs_votes f)"

definition peers :: "fleet_switch \<Rightarrow> string list" where
  "peers f = List.map fp_peer (fs_participants f)"

definition ballot_ok :: "fleet_switch \<Rightarrow> bool" where
  "ballot_ok f = (distinct (voters f) \<and> set (voters f) \<subseteq> set (peers f))"

text \<open>Neither quorum nor veto: the open votes can still decide it either way.\<close>

definition undecided :: "fleet_switch \<Rightarrow> bool" where
  "undecided f = (approve_count f < quorum_required f \<and>
     quorum_required f \<le> approve_count f + (participant_count f - length (fs_votes f)))"

definition fleet_ok :: "fleet_switch \<Rightarrow> bool" where
  "fleet_ok f = (ballot_ok f \<and> participant_count f < 2 ^ 63 \<and>
     (fs_phase f = Execute \<longrightarrow> has_quorum f) \<and>
     (fs_phase f = Propose \<longrightarrow> fs_votes f = [] \<or> undecided f) \<and>
     fs_phase f \<notin> {Vote, Verify, FleetCommitted})"

lemma update_peer_peers [simp]:
  "(\<And>p. fp_peer (u p) = fp_peer p) \<Longrightarrow> List.map fp_peer (update_peer i u ps) = List.map fp_peer ps"
  by (induction i u ps rule: update_peer.induct) auto

lemma update_peer_length [simp]: "length (update_peer i u ps) = length ps"
  by (induction i u ps rule: update_peer.induct) auto

lemma phase_updates [simp]:
  "peers (fleet_abort f r) = peers f" "voters (fleet_abort f r) = voters f"
  "participant_count (fleet_abort f r) = participant_count f"
  "peers (fleet_rollback f r) = peers f" "voters (fleet_rollback f r) = voters f"
  "participant_count (fleet_rollback f r) = participant_count f"
  "fs_quorum_percent (fleet_abort f r) = fs_quorum_percent f"
  "fs_quorum_percent (fleet_rollback f r) = fs_quorum_percent f"
  "fs_phase (fleet_abort f r) = Aborted r" "fs_phase (fleet_rollback f r) = FleetRolledBack r"
  by (simp_all add: fleet_abort_def fleet_rollback_def peers_def voters_def participant_count_def)

lemma advance_updates [simp]:
  "peers (advance_to_execute f) = peers f" "fs_votes (advance_to_execute f) = fs_votes f"
  "participant_count (advance_to_execute f) = participant_count f"
  "fs_quorum_percent (advance_to_execute f) = fs_quorum_percent f"
  "has_quorum f \<Longrightarrow> fs_phase (advance_to_execute f) = Execute"
  by (simp_all add: advance_to_execute_def peers_def participant_count_def comp_def if_distrib cong: if_cong)

lemma has_quorum_advance [simp]: "has_quorum (advance_to_execute f) = has_quorum f"
  by (simp add: has_quorum_def approve_count_def quorum_required_def)

lemma record_vote_True:
  assumes "record_vote now f peer approve reason = (f', True)"
  shows "peer \<notin> set (voters f)" "peer \<in> set (peers f)"
    "fs_votes f' = fs_votes f @ [\<lparr>vo_peer = peer, vo_approve = approve, vo_reason = reason, vo_at = now\<rparr>]"
    "peers f' = peers f" "participant_count f' = participant_count f" "fs_phase f' = fs_phase f"
    "quorum_required f' = quorum_required f" "fs_quorum_percent f' = fs_quorum_percent f"
  using assms
  by (auto simp: record_vote_def voters_def peers_def participant_count_def quorum_required_def
      split: if_splits)

lemma record_vote_False: "record_vote now f peer approve reason = (f', False) \<Longrightarrow> f' = f"
  by (auto simp: record_vote_def split: if_splits)

lemma record_vote_ballot:
  "record_vote now f peer approve reason = (f', True) \<Longrightarrow> ballot_ok f \<Longrightarrow> ballot_ok f'"
  using record_vote_True [of now f peer approve reason f'] by (auto simp: ballot_ok_def voters_def)

text \<open>With one vote per participant the subtraction of \<open>is_vetoed\<close> does not wrap.\<close>

lemma ballot_length: "ballot_ok f \<Longrightarrow> length (fs_votes f) \<le> participant_count f"
proof -
  assume b: "ballot_ok f"
  then have "length (voters f) = card (set (voters f))" by (simp add: ballot_ok_def distinct_card)
  also have "\<dots> \<le> card (set (peers f))" using b by (intro card_mono) (auto simp: ballot_ok_def)
  also have "\<dots> \<le> length (peers f)" by (rule card_length)
  finally show ?thesis by (simp add: voters_def peers_def participant_count_def)
qed

lemma approve_le: "approve_count f \<le> length (fs_votes f)"
  by (simp add: approve_count_def)

lemma vetoed_iff:
  assumes "ballot_ok f" and "participant_count f < 2 ^ 63"
  shows "is_vetoed f \<longleftrightarrow>
     approve_count f + (participant_count f - length (fs_votes f)) < quorum_required f"
proof -
  have v: "length (fs_votes f) \<le> participant_count f" using assms(1) by (rule ballot_length)
  then have d: "int (participant_count f) - int (length (fs_votes f)) =
      int (participant_count f - length (fs_votes f))" by simp
  have "participant_count f - length (fs_votes f) < 2 ^ 64"
    by (rule le_less_trans [OF diff_le_self less_trans [OF assms(2)]]) simp
  then have "int (participant_count f - length (fs_votes f)) < 2 ^ 64"
    by (metis of_nat_less_numeral_power_cancel_iff)
  then have "as_u64 (int (participant_count f) - int (length (fs_votes f))) =
      participant_count f - length (fs_votes f)"
    unfolding d by (simp only: as_u64_nonneg of_nat_0_le_iff nat_int)
  moreover have "approve_count f + (participant_count f - length (fs_votes f)) < 2 ^ 64"
  proof (rule le_less_trans [OF _ less_trans [OF assms(2)]])
    show "approve_count f + (participant_count f - length (fs_votes f)) \<le> participant_count f"
      using v approve_le [of f] by linarith
  qed simp
  ultimately show ?thesis by (simp only: is_vetoed_def Let_def wrapping_add_w_def mod_less)
qed

lemma ballot_cong: "voters g = voters f \<Longrightarrow> peers g = peers f \<Longrightarrow> ballot_ok g = ballot_ok f"
  by (simp add: ballot_ok_def)

lemma voters_advance [simp]: "voters (advance_to_execute f) = voters f"
  by (simp add: voters_def)

text \<open>The four outcomes of a vote.\<close>

lemma cast_vote_cases:
  assumes "cast_vote pt clock now f peer approve reason = (f', code)"
  obtains (late) "is_timed_out pt clock f" "f' = fleet_abort f timeout_reason" "code = Some 410"
    | (refused) "\<not> is_timed_out pt clock f" "f' = f" "code = Some 409"
    | (quorum) f1 where "fs_phase f = Propose" "record_vote now f peer approve reason = (f1, True)"
        "has_quorum f1" "f' = advance_to_execute f1" "code = None"
    | (veto) f1 where "fs_phase f = Propose" "record_vote now f peer approve reason = (f1, True)"
        "\<not> has_quorum f1" "is_vetoed f1" "f' = fleet_abort f1 veto_reason" "code = None"
    | (waiting) f1 where "fs_phase f = Propose" "record_vote now f peer approve reason = (f1, True)"
        "\<not> has_quorum f1" "\<not> is_vetoed f1" "f' = f1" "code = None"
proof -
  obtain f1 recorded where r: "record_vote now f peer approve reason = (f1, recorded)"
    by (meson surj_pair)
  show thesis
  proof (cases recorded)
    case True
    then show thesis using assms r that by (auto simp: cast_vote_def split: if_splits)
  next
    case False
    then have "f1 = f" using r record_vote_False by simp
    then show thesis using assms r False that by (auto simp: cast_vote_def split: if_splits)
  qed
qed

lemma fleet_step_ok:
  assumes "fleet_step pt f f'" and "fleet_ok f"
  shows "fleet_ok f'"
  using assms(1)
proof (cases rule: fleet_step.cases)
  case (vote clock now peer approve reason code)
  have ok: "ballot_ok f" "participant_count f < 2 ^ 63" using assms(2) by (simp_all add: fleet_ok_def)
  from vote show ?thesis
  proof (cases rule: cast_vote_cases)
    case late
    then show ?thesis using ok ballot_cong [of f' f] by (simp add: fleet_ok_def)
  next
    case refused
    then show ?thesis using assms(2) by simp
  next
    case (quorum f1)
    then show ?thesis
      using ok record_vote_True [OF quorum(2)] record_vote_ballot [OF quorum(2)] ballot_cong [of f' f1]
      by (simp add: fleet_ok_def)
  next
    case (veto f1)
    then show ?thesis
      using ok record_vote_True [OF veto(2)] record_vote_ballot [OF veto(2)] ballot_cong [of f' f1]
      by (simp add: fleet_ok_def)
  next
    case (waiting f1)
    have b: "ballot_ok f1" using ok(1) record_vote_ballot [OF waiting(2)] by blast
    moreover have "undecided f1"
      using waiting(3,4) vetoed_iff [OF b] ok(2) record_vote_True(5) [OF waiting(2)]
      by (simp add: undecided_def has_quorum_def)
    ultimately show ?thesis using ok(2) waiting record_vote_True [OF waiting(2)]
      by (simp add: fleet_ok_def)
  qed
next
  case force
  then show ?thesis using assms(2) ballot_cong [of f' f] by (simp add: fleet_ok_def)
qed

lemma fleet_step_frame:
  assumes "fleet_step pt f f'"
  shows "peers f' = peers f \<and> fs_quorum_percent f' = fs_quorum_percent f"
  using assms
proof (cases rule: fleet_step.cases)
  case (vote clock now peer approve reason code)
  from vote show ?thesis
    by (cases rule: cast_vote_cases)
      (auto dest: record_vote_True)
qed simp

definition reachable :: "(timestamp \<Rightarrow> int option) \<Rightarrow> fleet_switch \<Rightarrow> fleet_switch \<Rightarrow> bool" where
  "reachable pt = (fleet_step pt)\<^sup>*\<^sup>*"

lemma reachable_ok: "reachable pt f g \<Longrightarrow> fleet_ok f \<Longrightarrow>
   fleet_ok g \<and> peers g = peers f \<and> fs_quorum_percent g = fs_quorum_percent f"
  unfolding reachable_def
  by (induction rule: rtranclp_induct) (auto simp: fleet_step_ok fleet_step_frame)

lemma new_fleet_ok: "length ps < 2 ^ 63 \<Longrightarrow> fleet_ok (new_fleet_switch uuid now plan proposer ps cs q t)"
  by (simp add: fleet_ok_def ballot_ok_def new_fleet_switch_def voters_def participant_count_def)

lemma peers_count: "participant_count f = length (peers f)"
  by (simp add: peers_def participant_count_def)

text \<open>The approving participants; their number is the number of approvals.\<close>

definition approvers :: "fleet_switch \<Rightarrow> string set" where
  "approvers f = {vo_peer v | v. v \<in> set (fs_votes f) \<and> vo_approve v}"

lemma approvers_card: "ballot_ok f \<Longrightarrow> card (approvers f) = approve_count f"
proof -
  assume b: "ballot_ok f"
  have "approvers f = set (List.map vo_peer (filter vo_approve (fs_votes f)))"
    by (auto simp: approvers_def)
  moreover have "distinct (List.map vo_peer (filter vo_approve (fs_votes f)))"
    using b by (simp add: ballot_ok_def voters_def distinct_map_filter)
  ultimately show ?thesis by (metis approve_count_def distinct_card length_map)
qed

lemma quorum_percent_le: "participant_count f * fs_quorum_percent f \<le> 100 * quorum_required f"
proof -
  let ?n = "participant_count f * fs_quorum_percent f"
  have "?n \<le> 100 * ((?n + 99) div 100)" by linarith
  also have "\<dots> \<le> 100 * quorum_required f" by (simp add: quorum_required_def)
  finally show ?thesis .
qed

section \<open>Runs of the coordinator\<close>

datatype fleet_call =
    ProposeCall string timestamp string "string list" "health_check list option" "nat option" "nat option"
  | VoteCall int timestamp string string bool "string option"
  | ForceCall string

fun fleet_call_step ::
  "(string \<Rightarrow> string) \<Rightarrow> (timestamp \<Rightarrow> int option) \<Rightarrow> coordinator option \<Rightarrow> fleet_call \<Rightarrow> coordinator option" where
  "fleet_call_step quote pt st (ProposeCall uuid now plan ps cs q t) =
     fst (fleet_propose_handler quote uuid now st plan ps cs q t)"
| "fleet_call_step quote pt st (VoteCall clock now i peer approve reason) =
     fst (fleet_vote_handler quote pt clock now st i peer approve reason)"
| "fleet_call_step quote pt st (ForceCall i) = fst (fleet_rollback_handler quote st i)"

text \<open>A \<open>Vec\<close> holds fewer than 2 ^ 63 elements.\<close>

fun fleet_enabled :: "coordinator option \<Rightarrow> fleet_call \<Rightarrow> bool" where
  "fleet_enabled st (ProposeCall uuid now plan ps cs q t) = (length ps < 2 ^ 63)"
| "fleet_enabled st _ = True"

definition coordinator_ok :: "coordinator option \<Rightarrow> bool" where
  "coordinator_ok st = (\<forall>co i f. st = Some co \<longrightarrow> co i = Some f \<longrightarrow> fleet_ok f \<and> fs_participants f \<noteq> [])"

text \<open>On an existing switch a call is a step of the switch or nothing.\<close>

lemma vote_handler_step:
  assumes "co i = Some f"
  shows "\<exists>g. fst (fleet_vote_handler quote pt clock now (Some co) i peer approve reason) = Some (co(i \<mapsto> g)) \<and>
    (g = f \<or> fleet_step pt f g)"
proof -
  obtain g code where g: "cast_vote pt clock now f peer approve reason = (g, code)"
    by (meson surj_pair)
  then have "fleet_step pt f g" by (rule fleet_step.vote)
  moreover have "Some co = Some (co(i \<mapsto> f))" using assms by (simp add: fun_upd_idem)
  ultimately show ?thesis using assms g
    by (cases code) (auto simp: fleet_vote_handler_def split: option.splits)
qed

lemma fleet_step_participants: "fleet_step pt f g \<Longrightarrow> fs_participants g = [] \<longleftrightarrow> fs_participants f = []"
  using fleet_step_frame [of pt f g] by (metis peers_def map_is_Nil_conv)

lemma coordinator_update:
  "coordinator_ok (Some co) \<Longrightarrow> fleet_ok g \<Longrightarrow> fs_participants g \<noteq> [] \<Longrightarrow>
   coordinator_ok (Some (co(i \<mapsto> g)))"
  by (simp add: coordinator_ok_def)

lemma coordinator_step:
  assumes "coordinator_ok st" and "fleet_enabled st c"
  shows "coordinator_ok (fleet_call_step quote pt st c)"
proof (cases st)
  case None
  then show ?thesis
    by (cases c) (simp_all add: fleet_propose_handler_def fleet_vote_handler_def
        fleet_rollback_handler_def coordinator_ok_def)
next
  case (Some co)
  note ok = assms(1) [unfolded Some]
  show ?thesis
  proof (cases c)
    case (ProposeCall uuid now plan ps cs q t)
    have "fs_participants (new_fleet_switch uuid now plan p ps cs' q t) \<noteq> []" if "ps \<noteq> []" for p cs'
      using that by (simp add: new_fleet_switch_def)
    then show ?thesis
      using Some ProposeCall ok assms(2) coordinator_update [OF ok new_fleet_ok]
      by (simp add: fleet_propose_handler_def propose_def Let_def)
  next
    case (VoteCall clock now i peer approve reason)
    show ?thesis
    proof (cases "co i")
      case None
      then show ?thesis using Some VoteCall ok by (simp add: fleet_vote_handler_def)
    next
      case (Some f)
      note f = Some
      have fok: "fleet_ok f" "fs_participants f \<noteq> []" using ok f by (auto simp: coordinator_ok_def)
      obtain g where g: "fst (fleet_vote_handler quote pt clock now (Some co) i peer approve reason) =
          Some (co(i \<mapsto> g))" and "g = f \<or> fleet_step pt f g"
        using vote_handler_step [of co i f quote pt clock now peer approve reason] f by blast
      then have "fleet_ok g" "fs_participants g \<noteq> []"
        using fok fleet_step_ok [of pt f g] fleet_step_participants [of pt f g] by auto
      then show ?thesis using VoteCall \<open>st = Some co\<close> g coordinator_update [OF ok] by simp
    qed
  next
    case (ForceCall i)
    show ?thesis
    proof (cases "co i")
      case None
      then show ?thesis using Some ForceCall ok by (simp add: fleet_rollback_handler_def)
    next
      case (Some f)
      then have f: "fleet_ok f" "fs_participants f \<noteq> []" using ok by (auto simp: coordinator_ok_def)
      moreover have "fleet_ok (fleet_rollback f r)" if "r = ''manual rollback requested''" for r
        using that f(1) fleet_step_ok [OF fleet_step.force] by blast
      moreover have "fs_participants (fleet_rollback f r) = fs_participants f" for r
        by (simp add: fleet_rollback_def)
      ultimately show ?thesis using Some ForceCall \<open>st = Some co\<close> coordinator_update [OF ok]
        by (simp add: fleet_rollback_handler_def Let_def)
    qed
  qed
qed

lemmas coordinator_run_ok = run_invariant [where I = coordinator_ok and enabled = fleet_enabled, OF coordinator_step]

lemma coordinator_entry:
  assumes "enabled_run fleet_enabled (fleet_call_step quote pt) (Some (\<lambda>_. None)) cs"
    and "foldl (fleet_call_step quote pt) (Some (\<lambda>_. None)) cs = Some co" and "co i = Some f"
  shows "fleet_ok f \<and> fs_participants f \<noteq> []"
proof -
  have "coordinator_ok (foldl (fleet_call_step quote pt) (Some (\<lambda>_. None)) cs)"
    by (rule coordinator_run_ok) (use assms(1) in \<open>simp_all add: coordinator_ok_def\<close>)
  then show ?thesis using assms(2,3) by (simp add: coordinator_ok_def)
qed

text \<open>When all participants have voted, nothing is left undecided.\<close>

lemma all_voted_decided:
  assumes "fleet_ok f" and "fs_participants f \<noteq> []" and "fs_phase f = Propose"
    and "distinct (peers f)" and "set (peers f) \<subseteq> set (voters f)"
  shows False
proof -
  have "ballot_ok f" using assms(1) by (simp add: fleet_ok_def)
  then have "length (peers f) = length (voters f)"
    using assms(4,5) unfolding ballot_ok_def by (metis distinct_card subset_antisym)
  then have "participant_count f = length (fs_votes f)" by (simp add: peers_count voters_def)
  moreover have "fs_votes f \<noteq> []" using assms(2,5) by (auto simp: peers_def voters_def)
  moreover have "fs_votes f = [] \<or> undecided f" using assms(1,3) by (simp add: fleet_ok_def)
  ultimately show False unfolding undecided_def by linarith
qed

text \<open>A valid vote in time, spelled out.\<close>

lemma cast_vote_outcome:
  assumes "fleet_ok f" and "fs_phase f = Propose" and "\<not> is_timed_out pt clock f"
    and "peer \<in> set (peers f)" and "peer \<notin> set (voters f)"
    and c: "cast_vote pt clock now f peer approve reason = (g, code)"
  shows "code = None \<and> voters g = voters f @ [peer] \<and>
    approve_count g = approve_count f + of_bool approve \<and>
    fs_phase g = (if quorum_required f \<le> approve_count g then Execute
      else if approve_count g + (participant_count f - length (fs_votes g)) < quorum_required f
      then Aborted veto_reason else Propose)"
proof -
  obtain f1 where r: "record_vote now f peer approve reason = (f1, True)"
    using assms(4,5) by (auto simp: record_vote_def voters_def peers_def)
  note v = record_vote_True [OF r]
  have b: "ballot_ok f1" using record_vote_ballot [OF r] assms(1) by (simp add: fleet_ok_def)
  have veto: "is_vetoed f1 \<longleftrightarrow> approve_count f1 + (participant_count f - length (fs_votes f1)) < quorum_required f"
    using vetoed_iff [OF b] assms(1) v by (simp add: fleet_ok_def)
  have a: "approve_count f1 = approve_count f + of_bool approve"
    using v(3) by (simp add: approve_count_def)
  have g: "g = (if has_quorum f1 then advance_to_execute f1 else if is_vetoed f1 then fleet_abort f1 veto_reason else f1)"
    and "code = None"
    using c r assms(2,3) by (auto simp: cast_vote_def split: if_splits)
  have "fs_votes g = fs_votes f1" "approve_count g = approve_count f1"
    by (simp_all add: g fleet_abort_def approve_count_def)
  then show ?thesis
    using v a veto \<open>code = None\<close> assms(2) by (auto simp: g has_quorum_def voters_def)
qed

end
