(* ===== verification/Routines.thy ===== *)
theory Routines
  imports Switch
begin

text \<open>
  \<open>crates/osmoda-routines\<close>: background routines. \<open>scheduler.rs\<close> (cron expressions), \<open>routine.rs\<close>
  (routines, their validation and execution), \<open>api.rs\<close> (endpoints and the file of routines) and the
  scheduler loop of \<open>main.rs\<close>. The crate has its own copies of the validators of the watch
  daemon; they are translated again here and compared with the other copies. Processes are
  recorded in a trace with their arguments. The loop lets go of the state's mutex while a routine
  runs, so a tick is several steps: one that collects what is due, and one per routine.
\<close>

section \<open>Cron expressions\<close>

text \<open>What the matcher reads of the clock, with the instant and its RFC 3339 text.\<close>

record clock_time =
  ct_ns :: int
  ct_text :: timestamp
  ct_minute :: nat
  ct_hour :: nat
  ct_day :: nat
  ct_month :: nat
  ct_weekday :: nat

definition strip_prefix :: "string \<Rightarrow> string \<Rightarrow> string option" where
  "strip_prefix p s = (if starts_with s p then Some (drop (length p) s) else None)"

definition range_matches :: "string \<Rightarrow> nat \<Rightarrow> bool option" where
  "range_matches pattern value =
     (case split_on (CHR ''-'') pattern of
        [a, b] \<Rightarrow> (case (parse_uint 32 a, parse_uint 32 b) of
                    (Some start, Some stop) \<Rightarrow> Some (start \<le> value \<and> value \<le> stop)
                  | _ \<Rightarrow> None)
      | _ \<Rightarrow> None)"

definition every_matches :: "string \<Rightarrow> nat \<Rightarrow> bool option" where
  "every_matches pattern value =
     (case strip_prefix ''*/'' pattern of
        None \<Rightarrow> None
      | Some step \<Rightarrow> map_option (\<lambda>n. n \<noteq> 0 \<and> value mod n = 0) (parse_uint 32 step))"

lemma set_trim: "set (trim s) \<subseteq> set s"
proof -
  have t: "set (trim_start s) \<subseteq> set s" for s by (induction s) auto
  show ?thesis using t [of "rev (trim_start s)"] t [of s] by (auto simp: trim_def)
qed

lemma split_on_aux_pieces: "q \<in> set (split_on_aux c w s) \<Longrightarrow> c \<notin> set w \<Longrightarrow> c \<notin> set q"
  by (induction c w s rule: split_on_aux.induct) (auto split: if_splits)

lemma split_on_pieces: "q \<in> set (split_on c s) \<Longrightarrow> c \<notin> set q"
  using split_on_aux_pieces [of q c "[]" s] by (simp add: split_on_def)

function field_matches :: "string \<Rightarrow> nat \<Rightarrow> bool" where
  "field_matches pattern value =
     (if pattern = ''*'' then True
      else case every_matches pattern value of
             Some r \<Rightarrow> r
           | None \<Rightarrow>
               if CHR '','' \<in> set pattern
               then list_ex (\<lambda>p. field_matches (trim p) value) (split_on (CHR '','') pattern)
               else case (if CHR ''-'' \<in> set pattern then range_matches pattern value else None) of
                      Some r \<Rightarrow> r
                    | None \<Rightarrow> (case parse_uint 32 pattern of Some n \<Rightarrow> value = n | None \<Rightarrow> False))"
  by pat_completeness auto

termination field_matches
proof (relation "measure (\<lambda>(p, v). length (filter (\<lambda>c. c = CHR '','') p))")
  fix pattern q :: string and v :: nat
  assume comma: "CHR '','' \<in> set pattern" and "q \<in> set (split_on (CHR '','') pattern)"
  then have "CHR '','' \<notin> set (trim q)" using split_on_pieces set_trim by blast
  then have "filter (\<lambda>c. c = CHR '','') (trim q) = []" by (auto simp: filter_empty_conv)
  moreover from comma have "filter (\<lambda>c. c = CHR '','') pattern \<noteq> []" by (auto simp: filter_empty_conv)
  ultimately show "((trim q, v), (pattern, v)) \<in> measure (\<lambda>(p, v). length (filter (\<lambda>c. c = CHR '','') p))"
    by simp
qed simp

declare field_matches.simps [simp del]

definition cron_matches :: "string \<Rightarrow> clock_time \<Rightarrow> bool" where
  "cron_matches expression now =
     (let parts = split_whitespace expression
      in if length parts \<noteq> 5 then False
         else list_all (\<lambda>(p, v). field_matches p v)
           (zip parts [ct_minute now, ct_hour now, ct_day now, ct_month now, ct_weekday now]))"


section \<open>Routines\<close>

datatype trigger =
    Cron string
  | Interval nat
  | Event string

datatype routine_action =
    HealthCheck
  | ServiceMonitor "string list"
  | LogScan string
  | MemoryMaintenance
  | RunCommand string "string list"
  | Webhook string string "string option"

record routine =
  rt_id :: string
  rt_name :: string
  rt_trigger :: trigger
  rt_action :: routine_action
  rt_enabled :: bool
  rt_last_run :: "timestamp option"
  rt_run_count :: nat

definition blocked_binaries :: "string list" where
  "blocked_binaries =
     [''/bin/sh'', ''/bin/bash'', ''/bin/zsh'', ''/bin/dash'', ''/bin/fish'', ''/bin/csh'', ''/bin/tcsh'',
      ''/usr/bin/sh'', ''/usr/bin/bash'', ''/usr/bin/zsh'', ''/usr/bin/dash'', ''/usr/bin/fish'',
      ''/usr/bin/env'', ''/usr/bin/python'', ''/usr/bin/python3'', ''/usr/bin/perl'', ''/usr/bin/ruby'',
      ''/usr/bin/node'', ''/usr/bin/lua'',
      ''/run/current-system/sw/bin/sh'', ''/run/current-system/sw/bin/bash'',
      ''/run/current-system/sw/bin/zsh'', ''/run/current-system/sw/bin/env'',
      ''/run/current-system/sw/bin/python'', ''/run/current-system/sw/bin/python3'',
      ''/run/current-system/sw/bin/perl'', ''/run/current-system/sw/bin/ruby'',
      ''/run/current-system/sw/bin/node'']"

definition validate_routine_command :: "string \<Rightarrow> string + unit" where
  "validate_routine_command cmd =
     (if \<not> starts_with cmd ''/'' then Inl (''command must be an absolute path, got: '' @ cmd)
      else if cmd \<in> set blocked_binaries \<or> basename cmd \<in> set blocked_basenames
      then Inl (''shell interpreters are blocked for security: '' @ cmd)
      else if contains cmd ''..'' then Inl (''command path must not contain '' @ [CHR 0x27] @ ''..'' @ [CHR 0x27])
      else Inr ())"

definition validate_webhook_url :: "string \<Rightarrow> string + unit" where
  "validate_webhook_url url =
     (let lower = to_lowercase url
      in if starts_with lower ''http://'' \<or> starts_with lower ''https://'' then Inr ()
         else Inl (''webhook URL must use http:// or https:// scheme, got: '' @ before_scheme url))"

definition validate_routine_unit :: "string \<Rightarrow> string + unit" where
  "validate_routine_unit u =
     (if u = [] \<or> 256 < length u then Inl ''unit name must be 1-256 characters''
      else if \<not> list_all (\<lambda>c. ascii_alnum c \<or> c \<in> set ''@._-'') u
      then Inl (''invalid characters in unit name: '' @ u)
      else Inr ())"

definition should_run :: "(timestamp \<Rightarrow> int option) \<Rightarrow> routine \<Rightarrow> clock_time \<Rightarrow> bool" where
  "should_run parse_time r now =
     (if \<not> rt_enabled r then False
      else case rt_trigger r of
             Interval seconds \<Rightarrow>
               (case Option.bind (rt_last_run r) parse_time of
                  Some last_dt \<Rightarrow> seconds \<le> as_u64 (num_seconds (ct_ns now - last_dt))
                | None \<Rightarrow> True)
           | Cron expression \<Rightarrow> cron_matches expression now
           | Event _ \<Rightarrow> False)"

definition default_routines :: "routine list" where
  "default_routines =
     [\<lparr>rt_id = ''default-health'', rt_name = ''Health Check'', rt_trigger = Interval 300, rt_action = HealthCheck,
       rt_enabled = True, rt_last_run = None, rt_run_count = 0\<rparr>,
      \<lparr>rt_id = ''default-services'', rt_name = ''Service Monitor'', rt_trigger = Interval 600,
       rt_action = ServiceMonitor [''osmoda-agentd'', ''osmoda-gateway'', ''sshd''],
       rt_enabled = True, rt_last_run = None, rt_run_count = 0\<rparr>,
      \<lparr>rt_id = ''default-logscan'', rt_name = ''Log Scan'', rt_trigger = Interval 900, rt_action = LogScan ''err'',
       rt_enabled = True, rt_last_run = None, rt_run_count = 0\<rparr>]"

section \<open>Execution\<close>

text \<open>A process is a program with its arguments; \<open>rh_run\<close> gives how the n-th one ends (\<open>None\<close>:
  the time limit passed). \<open>rh_events\<close> is agentd's answer to the request for events at a time and
  \<open>rh_json\<close> reads it; \<open>rh_order\<close> is the order in which the hash map of counts is listed.\<close>

type_synonym invocation = "string \<times> string list"

record routine_host =
  rh_run :: "nat \<Rightarrow> invocation \<Rightarrow> exit option"
  rh_events :: "timestamp \<Rightarrow> string + string"
  rh_json :: "string \<Rightarrow> json list option"
  rh_order :: "(string \<times> nat) list \<Rightarrow> (string \<times> nat) list"

definition invoke :: "routine_host \<Rightarrow> invocation list \<Rightarrow> invocation \<Rightarrow> invocation list \<times> exit option" where
  "invoke h tr p = (tr @ [p], rh_run h (length tr) p)"

fun monitor_units :: "routine_host \<Rightarrow> invocation list \<Rightarrow> string list \<Rightarrow> invocation list \<times> (string + string list)" where
  "monitor_units h tr [] = (tr, Inr [])"
| "monitor_units h tr (u # us) =
     (case invoke h tr (''systemctl'', [''is-active'', u]) of (tr1, r) \<Rightarrow>
        (case r of
           None \<Rightarrow> (tr1, Inl (u @ '' check timed out after 10s''))
         | Some (Spawn_failed e) \<Rightarrow> (tr1, Inl (''failed to check '' @ u @ '': '' @ e))
         | Some (Exited succ code out err) \<Rightarrow>
             (case monitor_units h tr1 us of
                (tr2, Inl e) \<Rightarrow> (tr2, Inl e)
              | (tr2, Inr results) \<Rightarrow> (tr2, Inr ((u @ '': '' @ trim out) # results)))))"

definition webhook_args :: "string \<Rightarrow> string \<Rightarrow> string option \<Rightarrow> string list" where
  "webhook_args url meth body =
     [''-s'', ''--proto'', ''=http,https'', ''--max-time'', ''10'', ''-X'', meth, url] @
     (case body of None \<Rightarrow> [] | Some b \<Rightarrow> [''-d'', b, ''-H'', ''Content-Type: application/json''])"

fun event_type_of :: "json \<Rightarrow> string option" where
  "event_type_of (JObj fs) = (case map_of fs ''type'' of Some (JStr t) \<Rightarrow> Some t | _ \<Rightarrow> None)"
| "event_type_of _ = None"

definition count_type :: "(string \<times> nat) list \<Rightarrow> string \<Rightarrow> (string \<times> nat) list" where
  "count_type counts t =
     (if t \<in> fst ` set counts then List.map (\<lambda>(k, n). (k, if k = t then wrapping_add_w 32 n 1 else n)) counts
      else counts @ [(t, 1)])"

definition type_counts :: "json list \<Rightarrow> (string \<times> nat) list" where
  "type_counts events = foldl count_type [] (List.map_filter event_type_of events)"

definition maintenance_summary :: "routine_host \<Rightarrow> json list \<Rightarrow> string" where
  "maintenance_summary h events =
     ''Memory maintenance: consolidated '' @ dec (length events) @ '' recent events. Types: '' @
     join '', '' (List.map (\<lambda>(k, n). k @ ''='' @ dec n) (rh_order h (type_counts events)))"

record memory_post =
  mp_summary :: string
  mp_detail :: string
  mp_category :: string
  mp_tags :: "string list"

text \<open>The result and what is posted to agentd's \<open>/memory/store\<close>; the answer to it is ignored.\<close>

definition memory_maintenance ::
  "routine_host \<Rightarrow> timestamp \<Rightarrow> memory_post list \<times> (string + string)" where
  "memory_maintenance h now =
     (case rh_events h now of
        Inl e \<Rightarrow> ([], Inl (''failed to fetch events: '' @ e))
      | Inr body \<Rightarrow>
          (let events = (case rh_json h body of None \<Rightarrow> [] | Some es \<Rightarrow> es)
           in if events = [] then ([], Inr ''no recent events to consolidate'')
              else ([\<lparr>mp_summary = maintenance_summary h events,
                      mp_detail = ''Event consolidation at '' @ now, mp_category = ''maintenance'',
                      mp_tags = [''memory'', ''maintenance'', ''routine'']\<rparr>],
                    Inr (maintenance_summary h events))))"

definition run_out :: "string \<Rightarrow> string \<Rightarrow> (bool \<Rightarrow> string \<Rightarrow> string \<Rightarrow> string + string) \<Rightarrow> exit option \<Rightarrow> string + string" where
  "run_out timeout failure f r =
     (case r of
        None \<Rightarrow> Inl timeout
      | Some (Spawn_failed e) \<Rightarrow> Inl (failure @ e)
      | Some (Exited succ code out err) \<Rightarrow> f succ out err)"

fun execute_routine :: "routine_host \<Rightarrow> timestamp \<Rightarrow> invocation list \<Rightarrow> routine_action \<Rightarrow>
    invocation list \<times> memory_post list \<times> (string + string)" where
  "execute_routine h now tr HealthCheck =
     (case invoke h tr (''systemctl'', [''is-system-running'']) of (tr1, r) \<Rightarrow>
        (tr1, [], run_out ''health check timed out after 10s'' ''health check failed: ''
           (\<lambda>succ out err. Inr (''system status: '' @ trim out)) r))"
| "execute_routine h now tr (ServiceMonitor us) =
     (case monitor_units h tr us of
        (tr1, Inl e) \<Rightarrow> (tr1, [], Inl e)
      | (tr1, Inr results) \<Rightarrow> (tr1, [], Inr (join '', '' results)))"
| "execute_routine h now tr (LogScan priority) =
     (case invoke h tr (''journalctl'', [''--no-pager'', ''-p'', priority, ''--since'', ''15 minutes ago'', ''-n'', ''20'']) of
        (tr1, r) \<Rightarrow> (tr1, [], run_out ''log scan timed out after 15s'' ''log scan failed: ''
           (\<lambda>succ out err. Inr (if trim out = [] then ''no matching log entries'' else out)) r))"
| "execute_routine h now tr MemoryMaintenance =
     (case memory_maintenance h now of (posts, r) \<Rightarrow> (tr, posts, r))"
| "execute_routine h now tr (RunCommand cmd args) =
     (case validate_routine_command cmd of
        Inl e \<Rightarrow> (tr, [], Inl e)
      | Inr _ \<Rightarrow>
          (case invoke h tr (cmd, args) of (tr1, r) \<Rightarrow>
             (tr1, [], run_out ''command timed out after 30s'' ''command failed: ''
                (\<lambda>succ out err. if succ then Inr out else Inl err) r)))"
| "execute_routine h now tr (Webhook url meth body) =
     (case validate_webhook_url url of
        Inl e \<Rightarrow> (tr, [], Inl e)
      | Inr _ \<Rightarrow>
          (case invoke h tr (''curl'', webhook_args url meth body) of (tr1, r) \<Rightarrow>
             (tr1, [], run_out ''webhook timed out after 15s'' ''webhook failed: '' (\<lambda>succ out err. Inr out) r)))"


section \<open>The daemon\<close>

text \<open>
  \<open>rs_file\<close> is the file of routines (\<open>None\<close>: absent or unreadable); \<open>rs_due\<close> is what the
  scheduler has collected and not yet run, with the time of its tick: index, name and action, as in
  the code.
\<close>

record routines_state =
  rs_routines :: "routine list"
  rs_file :: "routine list option"
  rs_due :: "(nat \<times> string \<times> routine_action) list"
  rs_tick :: timestamp
  rs_trace :: "invocation list"
  rs_posts :: "memory_post list"

fun validate_routine_action :: "routine_action \<Rightarrow> string + unit" where
  "validate_routine_action (RunCommand cmd args) = validate_routine_command cmd"
| "validate_routine_action (Webhook url meth body) = validate_webhook_url url"
| "validate_routine_action (ServiceMonitor units) = first_error validate_routine_unit units"
| "validate_routine_action HealthCheck = Inr ()"
| "validate_routine_action (LogScan priority) = Inr ()"
| "validate_routine_action MemoryMaintenance = Inr ()"

definition save_routines :: "bool \<Rightarrow> routines_state \<Rightarrow> routines_state" where
  "save_routines io_ok st = (if io_ok then st\<lparr>rs_file := Some (rs_routines st)\<rparr> else st)"

definition load_routines :: "routine list option \<Rightarrow> routine list" where
  "load_routines file = (case file of Some rs \<Rightarrow> rs | None \<Rightarrow> default_routines)"

definition start_routines :: "routine list option \<Rightarrow> routines_state" where
  "start_routines file = \<lparr>rs_routines = load_routines file, rs_file = file, rs_due = [], rs_tick = [],
     rs_trace = [], rs_posts = []\<rparr>"

definition routine_add_handler ::
  "string \<Rightarrow> bool \<Rightarrow> routines_state \<Rightarrow> string \<Rightarrow> trigger \<Rightarrow> routine_action \<Rightarrow> bool \<Rightarrow>
   routines_state \<times> routine reply" where
  "routine_add_handler uuid io_ok st name trig action enabled =
     (case validate_routine_action action of
        Inl e \<Rightarrow> (st, Fail 400)
      | Inr _ \<Rightarrow>
          (let r = \<lparr>rt_id = uuid, rt_name = name, rt_trigger = trig, rt_action = action, rt_enabled = enabled,
                 rt_last_run = None, rt_run_count = 0\<rparr>
           in (save_routines io_ok (st\<lparr>rs_routines := rs_routines st @ [r]\<rparr>), Reply 200 r)))"

definition routine_list_handler :: "routines_state \<Rightarrow> routine list" where
  "routine_list_handler st = rs_routines st"

definition routine_remove_handler :: "bool \<Rightarrow> routines_state \<Rightarrow> string \<Rightarrow> routines_state \<times> string reply" where
  "routine_remove_handler io_ok st i =
     (let st1 = st\<lparr>rs_routines := filter (\<lambda>r. rt_id r \<noteq> i) (rs_routines st)\<rparr>
      in if length (rs_routines st1) < length (rs_routines st) then (save_routines io_ok st1, Reply 200 i)
         else (st1, Fail 404))"

definition mark_run :: "timestamp \<Rightarrow> routine \<Rightarrow> routine" where
  "mark_run now r = r\<lparr>rt_last_run := Some now, rt_run_count := wrapping_add_w 64 (rt_run_count r) 1\<rparr>"

text \<open>Running an action, with its trace and posts put into the state.\<close>

definition run_action ::
  "routine_host \<Rightarrow> timestamp \<Rightarrow> routine_action \<Rightarrow> routines_state \<Rightarrow> routines_state \<times> (string + string)" where
  "run_action h now a st =
     (case execute_routine h now (rs_trace st) a of
        (tr, posts, r) \<Rightarrow> (st\<lparr>rs_trace := tr, rs_posts := rs_posts st @ posts\<rparr>, r))"

definition routine_trigger_handler ::
  "routine_host \<Rightarrow> timestamp \<Rightarrow> routines_state \<Rightarrow> string \<Rightarrow> routines_state \<times> (string \<times> string) reply" where
  "routine_trigger_handler h now st i =
     (case find_by rt_id i (rs_routines st) of
        None \<Rightarrow> (st, Fail 404)
      | Some r \<Rightarrow>
          (case run_action h now (rt_action r)
                  (st\<lparr>rs_routines := update_first rt_id i (mark_run now) (rs_routines st)\<rparr>) of
             (st1, Inr output) \<Rightarrow> (st1, Reply 200 (''ok'', output))
           | (st1, Inl e) \<Rightarrow> (st1, Reply 200 (''error'', e))))"

record history_entry =
  he_id :: string
  he_name :: string
  he_last_run :: "timestamp option"
  he_run_count :: nat
  he_enabled :: bool

definition routine_history_handler :: "routines_state \<Rightarrow> history_entry list" where
  "routine_history_handler st =
     List.map (\<lambda>r. \<lparr>he_id = rt_id r, he_name = rt_name r, he_last_run = rt_last_run r,
       he_run_count = rt_run_count r, he_enabled = rt_enabled r\<rparr>) (rs_routines st)"

definition routines_health_handler :: "routines_state \<Rightarrow> string \<times> nat \<times> nat" where
  "routines_health_handler st =
     (''ok'', length (rs_routines st), length (filter rt_enabled (rs_routines st)))"

section \<open>The scheduler loop\<close>

definition scheduler_collect :: "(timestamp \<Rightarrow> int option) \<Rightarrow> clock_time \<Rightarrow> routines_state \<Rightarrow> routines_state" where
  "scheduler_collect parse_time now st = st\<lparr>rs_tick := ct_text now,
     rs_due := List.map (\<lambda>(i, r). (i, rt_name r, rt_action r))
       (filter (\<lambda>(i, r). should_run parse_time r now) (zip [0..<length (rs_routines st)] (rs_routines st)))\<rparr>"

text \<open>\<open>get_mut(idx)\<close> of the code: the routine now at the index collected before, if any.\<close>

definition scheduler_run :: "routine_host \<Rightarrow> timestamp \<Rightarrow> routines_state \<Rightarrow> routines_state" where
  "scheduler_run h now st =
     (case rs_due st of
        [] \<Rightarrow> st
      | (idx, name, action) # due \<Rightarrow>
          (let st1 = fst (run_action h now action (st\<lparr>rs_due := due\<rparr>))
           in if idx < length (rs_routines st1)
              then st1\<lparr>rs_routines := (rs_routines st1)[idx := mark_run (rs_tick st1) (rs_routines st1 ! idx)]\<rparr>
              else st1))"

text \<open>Calls and steps of the loop, in any order; a tick comes only when the last one is finished.\<close>

datatype routine_call =
    AddRoutine string bool string trigger routine_action bool
  | RemoveRoutine bool string
  | TriggerRoutine timestamp string
  | Tick clock_time
  | RunDue timestamp

fun routine_step ::
  "routine_host \<Rightarrow> (timestamp \<Rightarrow> int option) \<Rightarrow> routines_state \<Rightarrow> routine_call \<Rightarrow> routines_state" where
  "routine_step h pt st (AddRoutine u io n t a e) = fst (routine_add_handler u io st n t a e)"
| "routine_step h pt st (RemoveRoutine io i) = fst (routine_remove_handler io st i)"
| "routine_step h pt st (TriggerRoutine now i) = fst (routine_trigger_handler h now st i)"
| "routine_step h pt st (Tick now) = (if rs_due st = [] then scheduler_collect pt now st else st)"
| "routine_step h pt st (RunDue now) = scheduler_run h now st"

section \<open>Cron expressions: meaning\<close>

text \<open>What the documentation of the scheduler promises: each field is a list of items.\<close>

datatype cron_item = Any | Every nat | Exactly nat | Between nat nat

fun item_text :: "cron_item \<Rightarrow> string" where
  "item_text Any = ''*''"
| "item_text (Every n) = ''*/'' @ dec n"
| "item_text (Exactly n) = dec n"
| "item_text (Between a b) = dec a @ ''-'' @ dec b"

fun item_holds :: "cron_item \<Rightarrow> nat \<Rightarrow> bool" where
  "item_holds Any v = True"
| "item_holds (Every n) v = (0 < n \<and> n dvd v)"
| "item_holds (Exactly n) v = (v = n)"
| "item_holds (Between a b) v = (a \<le> v \<and> v \<le> b)"

fun item_fits :: "cron_item \<Rightarrow> bool" where
  "item_fits Any = True"
| "item_fits (Every n) = (n < 2 ^ 32)"
| "item_fits (Exactly n) = (n < 2 ^ 32)"
| "item_fits (Between a b) = (a < 2 ^ 32 \<and> b < 2 ^ 32)"

definition field_text :: "cron_item list \<Rightarrow> string" where
  "field_text items = join '','' (List.map item_text items)"

lemma dec_chars: "c \<in> set (dec n) \<Longrightarrow> c \<notin> set ''*/,-+'' \<and> \<not> is_whitespace c"
  using dec_set [of c n] by (auto simp: ascii_digit_def is_whitespace_def)

lemma dec_free [simp]: "CHR ''*'' \<notin> set (dec n)" "CHR '','' \<notin> set (dec n)" "CHR ''-'' \<notin> set (dec n)"
  using dec_chars by auto

lemma dec_not_star [simp]: "dec n \<noteq> CHR ''*'' # s"
  using dec_free(1) [of n] by (metis list.set_intros(1))

lemma item_chars: "c \<in> set (item_text i) \<Longrightarrow> c \<noteq> CHR '','' \<and> \<not> is_whitespace c"
  using dec_chars by (cases i) (auto simp: is_whitespace_def)

lemma every_matches_None: "CHR ''*'' \<notin> set p \<Longrightarrow> every_matches p v = None"
  by (cases p) (auto simp: every_matches_def strip_prefix_def)

lemma every_matches_dec: "every_matches (dec n @ s) v = None"
  by (cases "dec n") (auto simp: every_matches_def strip_prefix_def)

lemma range_text:
  assumes "a < 2 ^ 32" and "b < 2 ^ 32"
  shows "range_matches (dec a @ ''-'' @ dec b) v = Some (a \<le> v \<and> v \<le> b)"
proof -
  have "split_on (CHR ''-'') (join [CHR ''-''] [dec a, dec b]) = [dec a, dec b]"
    by (rule split_on_join) simp_all
  with assms show ?thesis by (simp add: range_matches_def parse_uint_dec)
qed

lemma item_matches: "item_fits i \<Longrightarrow> field_matches (item_text i) v = item_holds i v"
proof (cases i)
  case (Every n)
  assume "item_fits i"
  with Every show ?thesis
    by (subst field_matches.simps)
      (simp add: every_matches_def strip_prefix_def parse_uint_dec mod_eq_0_iff_dvd)
next
  case (Exactly n)
  assume "item_fits i"
  with Exactly show ?thesis
    by (subst field_matches.simps) (simp add: every_matches_None parse_uint_dec)
next
  case (Between a b)
  assume "item_fits i"
  let ?t = "dec a @ ''-'' @ dec b"
  have "?t \<noteq> ''*''" by (cases "dec a") auto
  moreover have "every_matches ?t v = None" by (rule every_matches_None) simp
  moreover have "range_matches ?t v = Some (a \<le> v \<and> v \<le> b)"
    using \<open>item_fits i\<close> Between by (intro range_text) simp_all
  ultimately have "field_matches ?t v = (a \<le> v \<and> v \<le> b)" by (subst field_matches.simps) simp
  then show ?thesis by (simp add: Between)
qed (simp add: field_matches.simps)

lemma field_items:
  assumes "items \<noteq> []" and "list_all item_fits items"
  shows "field_matches (field_text items) v = list_ex (\<lambda>i. item_holds i v) items"
proof (cases "\<exists>i. items = [i]")
  case True
  then show ?thesis using assms by (auto simp: field_text_def item_matches)
next
  case False
  with assms obtain i j rest where items: "items = i # j # rest" by (metis list.exhaust)
  let ?p = "field_text items"
  have p: "?p = item_text i @ CHR '','' # join '','' (List.map item_text (j # rest))"
    by (simp add: field_text_def items)
  have split: "split_on (CHR '','') ?p = List.map item_text items"
    unfolding field_text_def using assms(1) item_chars by (intro split_on_join) auto
  have trims: "trim (item_text k) = item_text k" for k
    using item_chars by (intro trim_id) auto
  have "every_matches ?p v = None"
  proof (cases i)
    case (Every n)
    have "parse_uint 32 (dec n @ CHR '','' # r) = None" for r
      by (cases "dec n") (auto simp: parse_uint_def ascii_digit_def)
    with Every p show ?thesis by (simp add: every_matches_def strip_prefix_def)
  qed (use p in \<open>simp_all add: every_matches_dec every_matches_def [of "CHR ''*'' # _"] strip_prefix_def\<close>)
  moreover have comma: "CHR '','' \<in> set ?p" by (simp add: p)
  moreover have "?p \<noteq> ''*''" by (rule notI) (use comma in simp)
  ultimately have "field_matches ?p v = list_ex (\<lambda>q. field_matches (trim q) v) (split_on (CHR '','') ?p)"
    by (subst field_matches.simps) simp
  then show ?thesis using assms(2)
    by (auto simp: split trims item_matches list_ex_iff list_all_iff)
qed

lemma split_whitespace_aux_word:
  "\<forall>c \<in> set x. \<not> is_whitespace c \<Longrightarrow> split_whitespace_aux w (x @ s) = split_whitespace_aux (rev x @ w) s"
  by (induction x arbitrary: w) auto

lemma split_whitespace_join:
  "\<forall>x \<in> set xs. x \<noteq> [] \<and> (\<forall>c \<in> set x. \<not> is_whitespace c) \<Longrightarrow> split_whitespace (join '' '' xs) = xs"
proof (induction "'' ''" xs rule: join.induct)
  case 1
  then show ?case by (simp add: split_whitespace_def)
next
  case (2 x)
  then show ?case using split_whitespace_aux_word [of x "[]" "[]"] by (simp add: split_whitespace_def)
next
  case (3 x y ys)
  then show ?case by (simp add: split_whitespace_def split_whitespace_aux_word is_whitespace_def)
qed

lemma item_text_ne [simp]: "item_text i \<noteq> []"
  by (cases i) simp_all

lemma field_text_word: "items \<noteq> [] \<Longrightarrow> field_text items \<noteq> [] \<and> (\<forall>c \<in> set (field_text items). \<not> is_whitespace c)"
proof
  assume "items \<noteq> []"
  then show "field_text items \<noteq> []" by (cases items; cases "tl items") (simp_all add: field_text_def)
  show "\<forall>c \<in> set (field_text items). \<not> is_whitespace c"
    using set_join [of "'',''" "List.map item_text items"] item_chars
    by (auto simp: field_text_def is_whitespace_def)
qed

lemma cron_fields:
  assumes "length fs = 5" and "list_all (\<lambda>items. items \<noteq> [] \<and> list_all item_fits items) fs"
  shows "cron_matches (join '' '' (List.map field_text fs)) now =
    list_all2 (\<lambda>items v. list_ex (\<lambda>i. item_holds i v) items) fs
      [ct_minute now, ct_hour now, ct_day now, ct_month now, ct_weekday now]"
proof -
  have "split_whitespace (join '' '' (List.map field_text fs)) = List.map field_text fs"
    using assms(2) field_text_word by (intro split_whitespace_join) (auto simp: list_all_iff)
  moreover obtain a b c d e where "fs = [a, b, c, d, e]"
    using assms(1) by (auto simp: length_Suc_conv eval_nat_numeral)
  ultimately show ?thesis using assms(2) by (simp add: cron_matches_def field_items)
qed


section \<open>The crate's validators agree with those of the watch daemon\<close>

lemma basename_of_blocked: "cmd \<in> set blocked_binaries \<Longrightarrow> basename cmd \<in> set blocked_basenames"
  by (auto simp: blocked_binaries_def blocked_basenames_def basename_def split_on_def)

lemma routine_command_agrees: "validate_routine_command cmd = validate_command cmd"
  using basename_of_blocked by (auto simp: validate_routine_command_def validate_command_def)

lemma routine_unit_agrees: "validate_routine_unit u = validate_unit_name u"
  by (simp add: validate_routine_unit_def validate_unit_name_def unit_char_def cong: list.pred_cong)

lemma webhook_url_agrees: "(validate_webhook_url u = Inr ()) = (validate_url u = Inr ())"
  by (simp add: validate_webhook_url_def validate_url_def Let_def)

section \<open>Processes\<close>

text \<open>What the daemon may start: a status query of systemd for a well-formed unit, a look at the
  journal, curl restricted to HTTP, or a program named by an absolute path that is no interpreter.\<close>

definition invocation_ok :: "invocation \<Rightarrow> bool" where
  "invocation_ok p =
     (case p of (prog, args) \<Rightarrow>
        prog = ''systemctl'' \<and>
          (case args of [a] \<Rightarrow> a = ''is-system-running''
           | [a, u] \<Rightarrow> a = ''is-active'' \<and> u \<noteq> [] \<and> length u \<le> 256 \<and> list_all unit_char u
           | _ \<Rightarrow> False)
        \<or> prog = ''journalctl'' \<and> take 2 args = [''--no-pager'', ''-p''] \<and> length args = 7
        \<or> prog = ''curl'' \<and> take 6 args = [''-s'', ''--proto'', ''=http,https'', ''--max-time'', ''10'', ''-X''] \<and>
          (starts_with (to_lowercase (args ! 7)) ''http://'' \<or> starts_with (to_lowercase (args ! 7)) ''https://'')
        \<or> starts_with prog ''/'' \<and> basename prog \<notin> set blocked_basenames \<and> \<not> contains prog ''..'')"

lemma first_error_Inr: "first_error v xs = Inr () \<longleftrightarrow> list_all (\<lambda>x. v x = Inr ()) xs"
  by (induction xs) (auto simp: and_then_Inr)

lemma unit_invocation_ok: "validate_routine_unit u = Inr () \<Longrightarrow> invocation_ok (''systemctl'', [''is-active'', u])"
  by (simp add: invocation_ok_def routine_unit_agrees validate_unit_name_def split: if_splits)

lemma monitor_units_ok:
  "list_all (\<lambda>u. validate_routine_unit u = Inr ()) us \<Longrightarrow> list_all invocation_ok tr \<Longrightarrow>
   list_all invocation_ok (fst (monitor_units h tr us))"
  by (induction h tr us rule: monitor_units.induct)
    (auto simp: invoke_def unit_invocation_ok split: option.split exit.split sum.split prod.split)

lemma execute_routine_ok:
  assumes "validate_routine_action a = Inr ()" and "list_all invocation_ok tr"
  shows "list_all invocation_ok (fst (execute_routine h now tr a))"
proof (cases a)
  case (ServiceMonitor us)
  with assms show ?thesis
    using monitor_units_ok [of us tr h] by (auto simp: first_error_Inr split: prod.split sum.split)
next
  case (RunCommand cmd args)
  with assms show ?thesis
    by (auto simp: invoke_def invocation_ok_def routine_command_agrees validate_command_def split: if_splits)
next
  case (Webhook url meth body)
  with assms show ?thesis
    by (auto simp: invoke_def invocation_ok_def webhook_args_def validate_webhook_url_def Let_def split: if_splits)
qed (use assms in \<open>simp_all add: invoke_def invocation_ok_def split: prod.split\<close>)

definition routines_ok :: "routines_state \<Rightarrow> bool" where
  "routines_ok st =
     (list_all (\<lambda>r. validate_routine_action (rt_action r) = Inr ()) (rs_routines st) \<and>
      list_all (\<lambda>(i, n, a). validate_routine_action a = Inr ()) (rs_due st) \<and>
      list_all (\<lambda>r. validate_routine_action (rt_action r) = Inr ()) (load_routines (rs_file st)) \<and>
      list_all invocation_ok (rs_trace st))"

lemma run_action_frame:
  "rs_routines (fst (run_action h now a st)) = rs_routines st"
  "rs_due (fst (run_action h now a st)) = rs_due st"
  "rs_tick (fst (run_action h now a st)) = rs_tick st"
  "rs_file (fst (run_action h now a st)) = rs_file st"
  by (simp_all add: run_action_def split: prod.split)

lemma run_action_ok:
  "validate_routine_action a = Inr () \<Longrightarrow> routines_ok st \<Longrightarrow> routines_ok (fst (run_action h now a st))"
  using execute_routine_ok [of a "rs_trace st" h now]
  by (auto simp: routines_ok_def run_action_def split: prod.splits)

lemma mark_run_action [simp]: "rt_action (mark_run now r) = rt_action r"
  by (simp add: mark_run_def)

lemma save_routines_frame [simp]:
  "rs_routines (save_routines b st) = rs_routines st" "rs_due (save_routines b st) = rs_due st"
  "rs_trace (save_routines b st) = rs_trace st"
  by (simp_all add: save_routines_def)

lemma save_routines_ok: "routines_ok st \<Longrightarrow> routines_ok (save_routines io st)"
  by (simp add: routines_ok_def save_routines_def load_routines_def)

lemma actions_update_first:
  "list_all (\<lambda>r. P (rt_action r)) rs \<Longrightarrow> list_all (\<lambda>r. P (rt_action r)) (update_first rt_id i (mark_run now) rs)"
  by (induction rs) auto

lemma routine_step_ok: "routines_ok st \<Longrightarrow> routines_ok (routine_step h pt st c)"
proof (induction h pt st c rule: routine_step.induct)
  case (1 h pt st u io n t a e)
  have "validate_routine_action a = Inr () \<Longrightarrow> routines_ok (st\<lparr>rs_routines := rs_routines st @ [r]\<rparr>)"
    if "rt_action r = a" for r using 1 that by (simp add: routines_ok_def)
  then show ?case using 1
    by (auto simp: routine_add_handler_def Let_def split: sum.split intro!: save_routines_ok)
next
  case (2 h pt st io i)
  then have "routines_ok (st\<lparr>rs_routines := filter (\<lambda>r. rt_id r \<noteq> i) (rs_routines st)\<rparr>)"
    by (simp add: routines_ok_def list_all_iff)
  then show ?case by (auto simp: routine_remove_handler_def Let_def intro: save_routines_ok)
next
  case (3 h pt st now i)
  show ?case
  proof (cases "find_by rt_id i (rs_routines st)")
    case None
    with 3 show ?thesis by (simp add: routine_trigger_handler_def)
  next
    case (Some r)
    let ?st = "st\<lparr>rs_routines := update_first rt_id i (mark_run now) (rs_routines st)\<rparr>"
    have "validate_routine_action (rt_action r) = Inr ()"
      using find_by_Some [OF Some] 3 by (auto simp: routines_ok_def list_all_iff)
    moreover have "routines_ok ?st"
      using 3 by (simp add: routines_ok_def actions_update_first [where P = "\<lambda>a. validate_routine_action a = Inr ()"])
    ultimately have "routines_ok (fst (run_action h now (rt_action r) ?st))" by (rule run_action_ok)
    with Some show ?thesis by (auto simp: routine_trigger_handler_def split: prod.split sum.split)
  qed
next
  case (4 h pt st now)
  then show ?case
    by (auto simp: scheduler_collect_def routines_ok_def list_all_iff dest!: set_zip_rightD)
next
  case (5 h pt st now)
  show ?case
  proof (cases "rs_due st")
    case Nil
    with 5 show ?thesis by (simp add: scheduler_run_def)
  next
    case (Cons d due)
    obtain idx n a where d: "d = (idx, n, a)" by (cases d)
    let ?st = "fst (run_action h now a (st\<lparr>rs_due := due\<rparr>))"
    have "routines_ok ?st" using 5 Cons d by (intro run_action_ok) (auto simp: routines_ok_def)
    then show ?thesis using Cons d
      by (auto simp: scheduler_run_def Let_def routines_ok_def list_all_length nth_list_update)
  qed
qed

lemma routine_run_ok: "routines_ok st \<Longrightarrow> routines_ok (foldl (routine_step h pt) st cs)"
  by (rule foldl_invariant) (auto intro: routine_step_ok)


lemma start_ok:
  "list_all (\<lambda>r. validate_routine_action (rt_action r) = Inr ()) (load_routines file) \<Longrightarrow>
   routines_ok (start_routines file)"
  by (simp add: routines_ok_def start_routines_def)

text \<open>What a file of the daemon can hold: nothing yet, or what some run that began with such a file left.\<close>

inductive daemon_file :: "routine list option \<Rightarrow> bool" where
  first_start: "daemon_file None"
| left_by_run: "daemon_file f \<Longrightarrow> daemon_file (rs_file (foldl (routine_step h pt) (start_routines f) cs))"

lemma default_routines_ok: "list_all (\<lambda>r. validate_routine_action (rt_action r) = Inr ()) default_routines"
  by (simp add: default_routines_def validate_routine_unit_def ascii_alnum_def ascii_lower_def)

lemma daemon_file_ok: "daemon_file f \<Longrightarrow> routines_ok (start_routines f)"
proof (induction rule: daemon_file.induct)
  case first_start
  then show ?case by (intro start_ok) (simp add: load_routines_def default_routines_ok)
next
  case (left_by_run f h pt cs)
  from routine_run_ok [OF left_by_run.IH, of h pt cs] show ?case by (intro start_ok) (simp add: routines_ok_def)
qed

section \<open>A tick of the scheduler\<close>

text \<open>The steps of the loop that run what is due, the clock of the n-th one being given.\<close>

definition drain :: "routine_host \<Rightarrow> timestamp list \<Rightarrow> routines_state \<Rightarrow> routines_state" where
  "drain h ts st = foldl (\<lambda>st now. scheduler_run h now st) st ts"

lemma scheduler_run_routines:
  assumes "rs_due st = (idx, n, a) # due" and "idx < length (rs_routines st)"
  shows "rs_routines (scheduler_run h now st) =
      (rs_routines st)[idx := mark_run (rs_tick st) (rs_routines st ! idx)]"
    and "rs_due (scheduler_run h now st) = due" and "rs_tick (scheduler_run h now st) = rs_tick st"
  using assms by (simp_all add: scheduler_run_def Let_def run_action_frame)

lemma drain_routines:
  assumes "distinct (List.map fst (rs_due st))" and "\<forall>i \<in> fst ` set (rs_due st). i < length (rs_routines st)"
    and "length ts = length (rs_due st)"
  shows "rs_due (drain h ts st) = [] \<and> length (rs_routines (drain h ts st)) = length (rs_routines st) \<and>
    (\<forall>i < length (rs_routines st). rs_routines (drain h ts st) ! i =
      (if i \<in> fst ` set (rs_due st) then mark_run (rs_tick st) (rs_routines st ! i) else rs_routines st ! i))"
  using assms
proof (induction ts arbitrary: st)
  case Nil
  then show ?case by (simp add: drain_def)
next
  case (Cons now ts)
  then obtain idx n a due where due: "rs_due st = (idx, n, a) # due"
    by (metis length_0_conv list.exhaust list.simps(3) prod_cases3)
  then have idx: "idx < length (rs_routines st)" using Cons.prems(2) by simp
  note st1 = scheduler_run_routines [OF due idx, of h now]
  let ?st = "scheduler_run h now st"
  have "distinct (List.map fst (rs_due ?st))" using Cons.prems(1) due by (simp add: st1)
  moreover have "\<forall>i \<in> fst ` set (rs_due ?st). i < length (rs_routines ?st)"
    using Cons.prems(2) due by (simp add: st1)
  moreover have "length ts = length (rs_due ?st)" using Cons.prems(3) due by (simp add: st1)
  ultimately have IH: "rs_due (drain h ts ?st) = [] \<and> length (rs_routines (drain h ts ?st)) = length (rs_routines ?st) \<and>
    (\<forall>i < length (rs_routines ?st). rs_routines (drain h ts ?st) ! i =
      (if i \<in> fst ` set (rs_due ?st) then mark_run (rs_tick ?st) (rs_routines ?st ! i) else rs_routines ?st ! i))"
    by (rule Cons.IH)
  have step: "drain h (now # ts) st = drain h ts ?st" by (simp add: drain_def)
  have "idx \<notin> fst ` set due" using Cons.prems(1) due by simp
  then have "(i, x) \<in> set due \<Longrightarrow> (rs_routines st)[idx := v] ! i = rs_routines st ! i" for i x v
    by (metis fst_conv image_eqI nth_list_update_neq)
  with IH \<open>idx \<notin> fst ` set due\<close> show ?case unfolding step by (auto simp: st1 due nth_list_update)
qed

definition due_indices :: "(timestamp \<Rightarrow> int option) \<Rightarrow> clock_time \<Rightarrow> routine list \<Rightarrow> nat set" where
  "due_indices pt now rs = {i. i < length rs \<and> should_run pt (rs ! i) now}"

lemma collected:
  "fst ` set (rs_due (scheduler_collect pt now st)) = due_indices pt now (rs_routines st)"
  "distinct (List.map fst (rs_due (scheduler_collect pt now st)))"
proof -
  let ?z = "zip [0..<length (rs_routines st)] (rs_routines st)"
  have z: "set ?z = {(i, rs_routines st ! i) |i. i < length (rs_routines st)}"
    by (force simp: set_zip)
  show "fst ` set (rs_due (scheduler_collect pt now st)) = due_indices pt now (rs_routines st)"
    by (force simp: scheduler_collect_def due_indices_def z image_iff)
  have "distinct (List.map fst (filter (\<lambda>(i, r). should_run pt r now) ?z))"
    by (intro distinct_map_filter) simp
  then show "distinct (List.map fst (rs_due (scheduler_collect pt now st)))"
    by (simp add: scheduler_collect_def comp_def split_def)
qed

lemma tick_marks:
  assumes "length ts = length (rs_due (scheduler_collect pt now st))"
  shows "rs_routines (drain h ts (scheduler_collect pt now st)) =
    List.map (\<lambda>r. if should_run pt r now then mark_run (ct_text now) r else r) (rs_routines st)"
    and "rs_due (drain h ts (scheduler_collect pt now st)) = []"
proof -
  let ?st = "scheduler_collect pt now st"
  have rs: "rs_routines ?st = rs_routines st" "rs_tick ?st = ct_text now"
    by (simp_all add: scheduler_collect_def)
  have "\<forall>i \<in> fst ` set (rs_due ?st). i < length (rs_routines ?st)"
    unfolding collected by (simp add: due_indices_def rs)
  from drain_routines [OF collected(2) this assms]
  have drained: "rs_due (drain h ts ?st) = []" "length (rs_routines (drain h ts ?st)) = length (rs_routines st)"
    "\<And>i. i < length (rs_routines st) \<Longrightarrow> rs_routines (drain h ts ?st) ! i =
      (if should_run pt (rs_routines st ! i) now then mark_run (ct_text now) (rs_routines st ! i) else rs_routines st ! i)"
    unfolding rs collected due_indices_def by auto
  from drained(1) show "rs_due (drain h ts ?st) = []" .
  show "rs_routines (drain h ts ?st) = List.map (\<lambda>r. if should_run pt r now then mark_run (ct_text now) r else r) (rs_routines st)"
    by (rule nth_equalityI) (simp_all add: drained)
qed

lemma int_le_div_iff: "0 < n \<Longrightarrow> k \<le> d div n \<longleftrightarrow> k * n \<le> d" for k d n :: int
  using zdiv_mono1 [of "k * n" d n] mult_right_mono [of k "d div n" n]
  by (metis div_mult_mod_eq less_imp_le mult.commute nonzero_mult_div_cancel_right order_trans
      add_increasing2 less_irrefl order_refl pos_mod_sign)

lemma interval_due:
  assumes "rt_trigger r = Interval secs" and "rt_enabled r" and "parse_time (ct_text t1) = Some (ct_ns t1)"
    and "0 \<le> ct_ns t2 - ct_ns t1" and "ct_ns t2 - ct_ns t1 < 2 ^ 64"
  shows "should_run parse_time (mark_run (ct_text t1) r) t2 \<longleftrightarrow> int secs * 1000000000 \<le> ct_ns t2 - ct_ns t1"
proof -
  let ?d = "ct_ns t2 - ct_ns t1"
  have "num_seconds ?d = ?d div 1000000000" using assms(4) by (simp add: num_seconds_def)
  moreover have "as_u64 (?d div 1000000000) = nat (?d div 1000000000)"
    using assms(4,5) by (intro as_u64_nonneg) auto
  moreover have "secs \<le> nat (?d div 1000000000) \<longleftrightarrow> int secs * 1000000000 \<le> ?d"
    using assms(4) by (simp add: le_nat_iff int_le_div_iff)
  ultimately show ?thesis using assms(1-3) by (simp add: should_run_def mark_run_def)
qed

end
