(* ===== verification/TeachStore.thy ===== *)
theory TeachStore
  imports Decimal Complex_Main "HOL-Library.Product_Lexorder"
begin

text \<open>
  \<open>crates/osmoda-teachd/src/knowledge.rs\<close>: the tables of the learning daemon. A table is a list of
  rows; \<open>INSERT OR REPLACE\<close> deletes the row of the same primary key and appends the new one. Times
  are the RFC 3339 texts that chrono prints for UTC, whose byte order is the order in time; rows
  with equal sort keys come in an order SQL leaves open, here that of the index scan. Columns
  that hold JSON text are kept as the values they encode. Doubles are rationals: every
  comparison the daemon makes with a quotient of two counts is far enough from a tie for the
  rounding not to matter.
\<close>

section \<open>Data\<close>

record observation =
  ob_id :: string
  ob_ts :: timestamp
  ob_source :: string
  ob_data :: json

datatype pattern_type = Recurring | Trend | Anomaly | Correlation

fun pattern_type_text :: "pattern_type \<Rightarrow> string" where
  "pattern_type_text Recurring = ''recurring''"
| "pattern_type_text Trend = ''trend''"
| "pattern_type_text Anomaly = ''anomaly''"
| "pattern_type_text Correlation = ''correlation''"

definition pattern_type_from :: "string \<Rightarrow> pattern_type" where
  "pattern_type_from s =
     (if s = ''recurring'' then Recurring else if s = ''trend'' then Trend
      else if s = ''anomaly'' then Anomaly else if s = ''correlation'' then Correlation else Recurring)"

record pattern =
  pn_id :: string
  pn_name :: string
  pn_type :: pattern_type
  pn_confidence :: rat
  pn_observations :: "string list"
  pn_first_seen :: timestamp
  pn_last_seen :: timestamp
  pn_occurrences :: nat

record knowledge_doc =
  kn_id :: string
  kn_title :: string
  kn_category :: string
  kn_content :: string
  kn_source_patterns :: "string list"
  kn_confidence :: rat
  kn_created_at :: timestamp
  kn_updated_at :: timestamp
  kn_applied :: bool
  kn_tags :: "string list"

datatype opt_action =
    NixConfig string
  | ServiceRestart string
  | Sysctl string string
  | Custom string

datatype opt_status = Suggested | OptApproved | Applied | OptRolledBack

fun opt_status_text :: "opt_status \<Rightarrow> string" where
  "opt_status_text Suggested = ''suggested''"
| "opt_status_text OptApproved = ''approved''"
| "opt_status_text Applied = ''applied''"
| "opt_status_text OptRolledBack = ''rolled_back''"

definition opt_status_from :: "string \<Rightarrow> opt_status" where
  "opt_status_from s =
     (if s = ''suggested'' then Suggested else if s = ''approved'' then OptApproved
      else if s = ''applied'' then Applied else if s = ''rolled_back'' then OptRolledBack else Suggested)"

record optimization =
  op_id :: string
  op_doc :: string
  op_description :: string
  op_action :: opt_action
  op_status :: opt_status
  op_switch :: "string option"
  op_created_at :: timestamp

record agent_action =
  aa_id :: string
  aa_ts :: timestamp
  aa_session :: string
  aa_tool :: string
  aa_params :: json
  aa_result :: "string option"
  aa_context :: "string option"
  aa_success :: bool

datatype skill_status = SkillPending | Generated | Promoted | Rejected | Retired

fun skill_status_text :: "skill_status \<Rightarrow> string" where
  "skill_status_text SkillPending = ''pending''"
| "skill_status_text Generated = ''generated''"
| "skill_status_text Promoted = ''promoted''"
| "skill_status_text Rejected = ''rejected''"
| "skill_status_text Retired = ''retired''"

definition skill_status_from :: "string \<Rightarrow> skill_status" where
  "skill_status_from s =
     (if s = ''pending'' then SkillPending else if s = ''generated'' then Generated
      else if s = ''promoted'' then Promoted else if s = ''rejected'' then Rejected
      else if s = ''retired'' then Retired else SkillPending)"

record skill_candidate =
  sk_id :: string
  sk_name :: string
  sk_description :: string
  sk_tools :: "string list"
  sk_sessions :: nat
  sk_confidence :: rat
  sk_source_patterns :: "string list"
  sk_status :: skill_status
  sk_path :: "string option"
  sk_created_at :: timestamp
  sk_updated_at :: timestamp

record skill_execution =
  ex_id :: string
  ex_skill :: string
  ex_session :: string
  ex_ts :: timestamp
  ex_outcome :: string
  ex_notes :: "string option"

record tool_sequence =
  tq_tools :: "string list"
  tq_count :: nat
  tq_sessions :: "string list"
  tq_name :: string

record teach_db =
  db_observations :: "observation list"
  db_patterns :: "pattern list"
  db_docs :: "knowledge_doc list"
  db_opts :: "optimization list"
  db_actions :: "agent_action list"
  db_candidates :: "skill_candidate list"
  db_executions :: "skill_execution list"

definition init_db :: teach_db where
  "init_db = \<lparr>db_observations = [], db_patterns = [], db_docs = [], db_opts = [], db_actions = [],
     db_candidates = [], db_executions = []\<rparr>"

lemma texts_roundtrip:
  "pattern_type_from (pattern_type_text p) = p"
  "opt_status_from (opt_status_text q) = q"
  "skill_status_from (skill_status_text r) = r"
  by (cases p; cases q; cases r; simp add: pattern_type_from_def opt_status_from_def skill_status_from_def)+

section \<open>Statements\<close>

definition upsert :: "('r \<Rightarrow> 'k) \<Rightarrow> 'r \<Rightarrow> 'r list \<Rightarrow> 'r list" where
  "upsert key r rs = filter (\<lambda>q. key q \<noteq> key r) rs @ [r]"

text \<open>\<open>ORDER BY key DESC LIMIT n\<close>, over an index and by sorting.\<close>

definition newest :: "('r \<Rightarrow> timestamp) \<Rightarrow> nat \<Rightarrow> 'r list \<Rightarrow> 'r list" where
  "newest key n rs = take n (rev (sort_key key rs))"

definition best :: "('r \<Rightarrow> 'k :: linorder) \<Rightarrow> 'r list \<Rightarrow> 'r list" where
  "best key rs = rev (sort_key key (rev rs))"

definition opt_eq :: "'a option \<Rightarrow> 'a \<Rightarrow> bool" where
  "opt_eq f x = (case f of None \<Rightarrow> True | Some y \<Rightarrow> x = y)"

definition opt_since :: "timestamp option \<Rightarrow> timestamp \<Rightarrow> bool" where
  "opt_since f x = (case f of None \<Rightarrow> True | Some y \<Rightarrow> y \<le> x)"

text \<open>SQLite's \<open>LIKE\<close>: a percent sign stands for any text, an underscore for one character, letters of ASCII
  match in either case.\<close>

fun sql_like :: "string \<Rightarrow> string \<Rightarrow> bool" where
  "sql_like [] s = (s = [])"
| "sql_like (p # ps) [] = (p = CHR ''%'' \<and> sql_like ps [])"
| "sql_like (p # ps) (c # s) =
     (if p = CHR ''%'' then sql_like ps (c # s) \<or> sql_like (p # ps) s
      else (p = CHR ''_'' \<or> lower_char p = lower_char c) \<and> sql_like ps s)"

section \<open>Observations, patterns, documents\<close>

definition insert_observation :: "observation \<Rightarrow> teach_db \<Rightarrow> teach_db" where
  "insert_observation x db = db\<lparr>db_observations := upsert ob_id x (db_observations db)\<rparr>"

definition list_observations :: "teach_db \<Rightarrow> string option \<Rightarrow> timestamp option \<Rightarrow> nat \<Rightarrow> observation list" where
  "list_observations db source since limit =
     newest ob_ts limit (filter (\<lambda>r. opt_eq source (ob_source r) \<and> opt_since since (ob_ts r)) (db_observations db))"

definition prune_observations :: "timestamp \<Rightarrow> teach_db \<Rightarrow> teach_db \<times> nat" where
  "prune_observations cutoff db =
     (db\<lparr>db_observations := filter (\<lambda>r. cutoff \<le> ob_ts r) (db_observations db)\<rparr>,
      length (filter (\<lambda>r. ob_ts r < cutoff) (db_observations db)))"

definition observation_count :: "teach_db \<Rightarrow> nat" where
  "observation_count db = length (db_observations db)"

definition upsert_pattern :: "pattern \<Rightarrow> teach_db \<Rightarrow> teach_db" where
  "upsert_pattern p db = db\<lparr>db_patterns := upsert pn_id p (db_patterns db)\<rparr>"

definition list_patterns :: "teach_db \<Rightarrow> string option \<Rightarrow> rat \<Rightarrow> pattern list" where
  "list_patterns db pattern_type min_confidence =
     best (\<lambda>p. (pn_confidence p, pn_last_seen p)) (filter (\<lambda>p. min_confidence \<le> pn_confidence p \<and>
       opt_eq pattern_type (pattern_type_text (pn_type p))) (db_patterns db))"

definition pattern_count :: "teach_db \<Rightarrow> nat" where
  "pattern_count db = length (db_patterns db)"

definition insert_knowledge_doc :: "knowledge_doc \<Rightarrow> teach_db \<Rightarrow> teach_db" where
  "insert_knowledge_doc d db = db\<lparr>db_docs := upsert kn_id d (db_docs db)\<rparr>"

definition get_knowledge_doc :: "teach_db \<Rightarrow> string \<Rightarrow> knowledge_doc option" where
  "get_knowledge_doc db i = find_by kn_id i (db_docs db)"

text \<open>\<open>js\<close> prints the list of tags as JSON, which is what the column holds.\<close>

definition list_knowledge_docs ::
  "(string list \<Rightarrow> string) \<Rightarrow> teach_db \<Rightarrow> string option \<Rightarrow> string option \<Rightarrow> nat \<Rightarrow> knowledge_doc list" where
  "list_knowledge_docs js db category tag limit =
     newest kn_updated_at limit (filter (\<lambda>d. opt_eq category (kn_category d) \<and>
       (case tag of None \<Rightarrow> True | Some t \<Rightarrow> sql_like (''%'' @ [CHR 0x22] @ t @ [CHR 0x22] @ ''%'') (js (kn_tags d))))
       (db_docs db))"

definition knowledge_count :: "teach_db \<Rightarrow> nat" where
  "knowledge_count db = length (db_docs db)"

section \<open>Optimizations\<close>

definition insert_optimization :: "optimization \<Rightarrow> teach_db \<Rightarrow> teach_db" where
  "insert_optimization x db = db\<lparr>db_opts := upsert op_id x (db_opts db)\<rparr>"

definition get_optimization :: "teach_db \<Rightarrow> string \<Rightarrow> optimization option" where
  "get_optimization db i = find_by op_id i (db_opts db)"

definition list_optimizations :: "teach_db \<Rightarrow> string option \<Rightarrow> nat \<Rightarrow> optimization list" where
  "list_optimizations db status limit =
     take limit (best op_created_at (filter (\<lambda>r. opt_eq status (opt_status_text (op_status r))) (db_opts db)))"

definition update_optimization_status :: "string \<Rightarrow> opt_status \<Rightarrow> string option \<Rightarrow> teach_db \<Rightarrow> teach_db" where
  "update_optimization_status i status switch_id db = db\<lparr>db_opts :=
     fst (sql_update (\<lambda>r. op_id r = i) (\<lambda>r. r\<lparr>op_status := status, op_switch := switch_id\<rparr>) (db_opts db))\<rparr>"

definition optimization_count :: "teach_db \<Rightarrow> nat" where
  "optimization_count db = length (db_opts db)"

section \<open>Agent actions\<close>

definition insert_agent_action :: "agent_action \<Rightarrow> teach_db \<Rightarrow> teach_db" where
  "insert_agent_action a db = db\<lparr>db_actions := upsert aa_id a (db_actions db)\<rparr>"

definition list_agent_actions ::
  "teach_db \<Rightarrow> string option \<Rightarrow> string option \<Rightarrow> timestamp option \<Rightarrow> nat \<Rightarrow> agent_action list" where
  "list_agent_actions db tool session since limit =
     newest aa_ts limit (filter (\<lambda>a. opt_eq tool (aa_tool a) \<and> opt_eq session (aa_session a) \<and>
       opt_since since (aa_ts a)) (db_actions db))"

definition agent_action_count :: "teach_db \<Rightarrow> nat" where
  "agent_action_count db = length (db_actions db)"

definition prune_agent_actions :: "timestamp \<Rightarrow> teach_db \<Rightarrow> teach_db \<times> nat" where
  "prune_agent_actions cutoff db =
     (db\<lparr>db_actions := filter (\<lambda>r. cutoff \<le> aa_ts r) (db_actions db)\<rparr>,
      length (filter (\<lambda>r. aa_ts r < cutoff) (db_actions db)))"


section \<open>Repeated tool sequences\<close>

definition windows :: "nat \<Rightarrow> 'a list \<Rightarrow> 'a list list" where
  "windows n xs = List.map (\<lambda>i. take n (drop i xs)) [0..<Suc (length xs) - n]"

definition tool_windows :: "string list \<Rightarrow> string list list" where
  "tool_windows tools =
     (if length tools < 3 then [] else concat (List.map (\<lambda>n. windows n tools) [3..<Suc (min 6 (length tools))]))"

definition session_tools :: "agent_action list \<Rightarrow> string \<Rightarrow> string list" where
  "session_tools rows s = List.map aa_tool (sort_key aa_ts (filter (\<lambda>a. aa_session a = s) rows))"

definition session_ids :: "agent_action list \<Rightarrow> string list" where
  "session_ids rows = remdups (List.map aa_session rows)"

definition sequence_sessions :: "agent_action list \<Rightarrow> string list \<Rightarrow> string list" where
  "sequence_sessions rows w = filter (\<lambda>s. w \<in> set (tool_windows (session_tools rows s))) (session_ids rows)"

definition is_subsequence :: "string list \<Rightarrow> string list \<Rightarrow> bool" where
  "is_subsequence small big =
     (if length big \<le> length small then small = big else small \<in> set (windows (length small) big))"

text \<open>\<open>so\<close> and \<open>wo\<close> are the orders in which the hash maps of sessions and of sequences are listed.\<close>

definition sequence_candidate :: "(string list \<Rightarrow> string list) \<Rightarrow> agent_action list \<Rightarrow> string list \<Rightarrow> tool_sequence" where
  "sequence_candidate so rows w = \<lparr>tq_tools = w, tq_count = length (sequence_sessions rows w),
     tq_sessions = so (sequence_sessions rows w), tq_name = join ''-then-'' w\<rparr>"

definition recent_actions :: "teach_db \<Rightarrow> timestamp \<Rightarrow> agent_action list" where
  "recent_actions db cutoff = filter (\<lambda>a. cutoff \<le> aa_ts a \<and> aa_success a) (db_actions db)"

definition ranked_sequences ::
  "(string list \<Rightarrow> string list) \<Rightarrow> (string list list \<Rightarrow> string list list) \<Rightarrow> agent_action list \<Rightarrow> nat \<Rightarrow> tool_sequence list" where
  "ranked_sequences so wo rows min_sessions =
     sort_key (\<lambda>c. (- int (tq_count c), length (tq_tools c)))
       (List.map (sequence_candidate so rows) (filter (\<lambda>w. min_sessions \<le> length (sequence_sessions rows w))
          (wo (remdups (concat (List.map (\<lambda>s. tool_windows (session_tools rows s)) (session_ids rows)))))))"

definition dominated_by :: "tool_sequence list \<Rightarrow> tool_sequence \<Rightarrow> bool" where
  "dominated_by kept c = list_ex (\<lambda>k. tq_count c \<le> tq_count k \<and> is_subsequence (tq_tools c) (tq_tools k)) kept"

definition keep_undominated :: "tool_sequence list \<Rightarrow> tool_sequence list" where
  "keep_undominated cs = foldl (\<lambda>kept c. if dominated_by kept c then kept else kept @ [c]) [] cs"

definition find_tool_sequences ::
  "(string list \<Rightarrow> string list) \<Rightarrow> (string list list \<Rightarrow> string list list) \<Rightarrow> teach_db \<Rightarrow> timestamp \<Rightarrow> nat \<Rightarrow>
   tool_sequence list" where
  "find_tool_sequences so wo db cutoff min_sessions =
     keep_undominated (ranked_sequences so wo (recent_actions db cutoff) min_sessions)"

section \<open>Skill candidates and executions\<close>

definition insert_skill_candidate :: "skill_candidate \<Rightarrow> teach_db \<Rightarrow> teach_db" where
  "insert_skill_candidate c db = db\<lparr>db_candidates := upsert sk_id c (db_candidates db)\<rparr>"

definition get_skill_candidate :: "teach_db \<Rightarrow> string \<Rightarrow> skill_candidate option" where
  "get_skill_candidate db i = find_by sk_id i (db_candidates db)"

definition list_skill_candidates :: "teach_db \<Rightarrow> string option \<Rightarrow> nat \<Rightarrow> skill_candidate list" where
  "list_skill_candidates db status limit =
     take limit (best (\<lambda>c. (sk_confidence c, sk_sessions c))
       (filter (\<lambda>c. opt_eq status (skill_status_text (sk_status c))) (db_candidates db)))"

definition skill_candidate_count :: "teach_db \<Rightarrow> nat" where
  "skill_candidate_count db = length (db_candidates db)"

definition insert_skill_execution :: "skill_execution \<Rightarrow> teach_db \<Rightarrow> teach_db" where
  "insert_skill_execution e db = db\<lparr>db_executions := upsert ex_id e (db_executions db)\<rparr>"

definition list_skill_executions :: "teach_db \<Rightarrow> string option \<Rightarrow> nat \<Rightarrow> skill_execution list" where
  "list_skill_executions db skill limit =
     take limit (best ex_ts (filter (\<lambda>e. opt_eq skill (ex_skill e)) (db_executions db)))"

definition skill_execution_count :: "teach_db \<Rightarrow> nat" where
  "skill_execution_count db = length (db_executions db)"

definition skill_success_rate :: "teach_db \<Rightarrow> string \<Rightarrow> nat \<times> nat" where
  "skill_success_rate db name =
     (length (filter (\<lambda>e. ex_skill e = name \<and> ex_outcome e = ''success'') (db_executions db)),
      length (filter (\<lambda>e. ex_skill e = name) (db_executions db)))"

section \<open>The contract of a table with a primary key\<close>

locale keyed_table =
  fixes key :: "'r \<Rightarrow> string"
    and get :: "'s \<Rightarrow> string \<Rightarrow> 'r option"
    and put :: "'r \<Rightarrow> 's \<Rightarrow> 's"
  assumes get_put: "get (put r s) k = (if k = key r then Some r else get s k)"
    and get_key: "get s k = Some r \<Longrightarrow> key r = k"
begin

text \<open>Replacing a row by one of the same key is idempotent and writes to different keys commute.\<close>

lemma put_again: "get (put r (put r s)) k = get (put r s) k"
  by (simp add: get_put)

lemma put_commute: "key r \<noteq> key q \<Longrightarrow> get (put r (put q s)) k = get (put q (put r s)) k"
  by (simp add: get_put)

text \<open>A predicate that every written row meets is met by every row read, after any writes.\<close>

lemma rows_invariant:
  assumes "\<And>k r. get s k = Some r \<Longrightarrow> P r" and "list_all P rs"
  shows "get (foldl (\<lambda>s r. put r s) s rs) k = Some q \<Longrightarrow> P q"
  using assms
proof (induction rs arbitrary: s)
  case (Cons r rs)
  have "P q'" if "get (put r s) k' = Some q'" for k' q'
    using that Cons.prems(2,3) by (auto simp: get_put split: if_splits)
  with Cons show ?case by simp
qed simp

end

lemma find_by_upsert: "find_by key k (upsert key r rs) = (if k = key r then Some r else find_by key k rs)"
  by (simp add: upsert_def find_by_append find_by_filter split: option.split)

interpretation docs: keyed_table kn_id get_knowledge_doc insert_knowledge_doc
  by unfold_locales (auto simp: get_knowledge_doc_def insert_knowledge_doc_def find_by_upsert dest: find_by_Some)

interpretation opts: keyed_table op_id get_optimization insert_optimization
  by unfold_locales (auto simp: get_optimization_def insert_optimization_def find_by_upsert dest: find_by_Some)

interpretation candidates: keyed_table sk_id get_skill_candidate insert_skill_candidate
  by unfold_locales (auto simp: get_skill_candidate_def insert_skill_candidate_def find_by_upsert dest: find_by_Some)

lemma get_optimization_update:
  "get_optimization (update_optimization_status i status switch_id db) k =
     map_option (\<lambda>r. if op_id r = i then r\<lparr>op_status := status, op_switch := switch_id\<rparr> else r) (get_optimization db k)"
  by (simp add: get_optimization_def update_optimization_status_def sql_update_rows find_by_map)

section \<open>Facts about queries\<close>

lemma set_newest: "set (newest key n rs) \<subseteq> set rs"
  by (auto simp: newest_def dest: in_set_takeD)

lemma newest_sorted: "sorted_wrt (\<lambda>a b. key b \<le> key a) (newest key n rs)"
proof -
  have "sorted_wrt (\<lambda>a b. key a \<le> key b) (sort_key key rs)"
    using sorted_sort_key [of key rs] by (simp add: sorted_wrt_map)
  then show ?thesis by (simp add: newest_def sorted_wrt_rev sorted_wrt_take)
qed

lemma set_best [simp]: "set (best key rs) = set rs"
  by (simp add: best_def)


section \<open>What the search for sequences finds\<close>

lemma in_windows: "w \<in> set (windows n xs) \<longleftrightarrow> length w = n \<and> (\<exists>u v. xs = u @ w @ v)"
proof
  assume "w \<in> set (windows n xs)"
  then obtain i where i: "i < Suc (length xs) - n" and w: "w = take n (drop i xs)"
    by (auto simp: windows_def)
  have "xs = take i xs @ w @ drop n (drop i xs)" unfolding w by (simp only: append_take_drop_id)
  moreover have "length w = n" using i unfolding w by simp
  ultimately show "length w = n \<and> (\<exists>u v. xs = u @ w @ v)" by blast
next
  assume "length w = n \<and> (\<exists>u v. xs = u @ w @ v)"
  then obtain u v where "length w = n" and "xs = u @ w @ v" by blast
  then have "w = take n (drop (length u) xs)" and "length u < Suc (length xs) - n" by simp_all
  then show "w \<in> set (windows n xs)" unfolding windows_def by (auto intro: image_eqI)
qed

lemma in_tool_windows:
  "w \<in> set (tool_windows tools) \<longleftrightarrow> 3 \<le> length w \<and> length w \<le> 6 \<and> (\<exists>u v. tools = u @ w @ v)"
proof -
  define P where "P = (\<exists>u v. tools = u @ w @ v)"
  have len: "P \<Longrightarrow> length w \<le> length tools" by (auto simp: P_def)
  have "w \<in> set (tool_windows tools) \<longleftrightarrow> \<not> length tools < 3 \<and> (\<exists>n \<in> {3..<Suc (min 6 (length tools))}. length w = n \<and> P)"
    unfolding tool_windows_def P_def by (simp add: in_windows del: upt_Suc)
  then have "w \<in> set (tool_windows tools) \<longleftrightarrow> 3 \<le> length w \<and> length w \<le> 6 \<and> P"
    using len by auto
  then show ?thesis by (simp add: P_def)
qed

lemma is_subsequence_part: "is_subsequence small big \<Longrightarrow> \<exists>u v. big = u @ small @ v"
  by (auto simp: is_subsequence_def in_windows split: if_splits intro: exI [of _ "[]"])

lemma length_filter_mono: "(\<And>x. P x \<Longrightarrow> Q x) \<Longrightarrow> length (filter P xs) \<le> length (filter Q xs)"
  by (induction xs) (auto simp: le_SucI)

lemma part_of_part: "\<exists>u v. big = u @ small @ v \<Longrightarrow> \<exists>u v. xs = u @ big @ v \<Longrightarrow> \<exists>u v. xs = u @ small @ v"
  by (metis append.assoc)

lemma sequence_sessions_mono:
  assumes "\<exists>u v. big = u @ small @ v" and "3 \<le> length small"
  shows "length (sequence_sessions rows big) \<le> length (sequence_sessions rows small)"
  unfolding sequence_sessions_def
proof (rule length_filter_mono)
  fix s
  assume "big \<in> set (tool_windows (session_tools rows s))"
  moreover have "length small \<le> length big" using assms(1) by auto
  ultimately show "small \<in> set (tool_windows (session_tools rows s))"
    using assms part_of_part [OF assms(1)] by (simp add: in_tool_windows)
qed

lemma ranked_facts:
  assumes "\<And>ws. distinct (wo ws) = distinct ws" and "\<And>ws. set (wo ws) = set ws"
  shows "distinct (List.map tq_tools (ranked_sequences so wo rows n))"
    and "c \<in> set (ranked_sequences so wo rows n) \<longleftrightarrow> (\<exists>w. c = sequence_candidate so rows w \<and>
      n \<le> length (sequence_sessions rows w) \<and> (\<exists>s \<in> set (session_ids rows). w \<in> set (tool_windows (session_tools rows s))))"
    and "sorted_wrt (\<lambda>a b. tq_count b < tq_count a \<or> tq_count a = tq_count b \<and> length (tq_tools a) \<le> length (tq_tools b))
      (ranked_sequences so wo rows n)"
proof -
  let ?k = "\<lambda>c. (- int (tq_count c), length (tq_tools c))"
  let ?all = "wo (remdups (concat (List.map (\<lambda>s. tool_windows (session_tools rows s)) (session_ids rows))))"
  let ?cs = "List.map (sequence_candidate so rows) (filter (\<lambda>w. n \<le> length (sequence_sessions rows w)) ?all)"
  have "inj_on tq_tools (set ?cs)" by (auto simp: inj_on_def sequence_candidate_def)
  moreover have "distinct ?cs"
    using assms(1) by (auto simp: distinct_map inj_on_def sequence_candidate_def)
  ultimately show "distinct (List.map tq_tools (ranked_sequences so wo rows n))"
    unfolding ranked_sequences_def by (subst distinct_map) simp
  show "c \<in> set (ranked_sequences so wo rows n) \<longleftrightarrow> (\<exists>w. c = sequence_candidate so rows w \<and>
      n \<le> length (sequence_sessions rows w) \<and> (\<exists>s \<in> set (session_ids rows). w \<in> set (tool_windows (session_tools rows s))))"
    by (auto simp: ranked_sequences_def assms(2))
  have "sorted (List.map ?k (ranked_sequences so wo rows n))"
    unfolding ranked_sequences_def by (rule sorted_sort_key)
  then show "sorted_wrt (\<lambda>a b. tq_count b < tq_count a \<or> tq_count a = tq_count b \<and> length (tq_tools a) \<le> length (tq_tools b))
      (ranked_sequences so wo rows n)"
    unfolding sorted_wrt_map by (rule sorted_wrt_mono_rel [rotated]) auto
qed

lemma keep_undominated_snoc:
  "keep_undominated (cs @ [c]) = (let kept = keep_undominated cs in if dominated_by kept c then kept else kept @ [c])"
  by (simp add: keep_undominated_def Let_def)

lemma keep_undominated_all:
  assumes "distinct (List.map tq_tools cs)"
    and "sorted_wrt (\<lambda>a b. tq_count b < tq_count a \<or> tq_count a = tq_count b \<and> length (tq_tools a) \<le> length (tq_tools b)) cs"
    and "\<And>c. c \<in> set cs \<Longrightarrow> tq_count c = length (sequence_sessions rows (tq_tools c)) \<and> 3 \<le> length (tq_tools c)"
  shows "keep_undominated cs = cs"
  using assms
proof (induction cs rule: rev_induct)
  case Nil
  show ?case by (simp add: keep_undominated_def)
next
  case (snoc c cs)
  then have kept: "keep_undominated cs = cs" by (simp add: sorted_wrt_append)
  have "\<not> (tq_count c \<le> tq_count k \<and> is_subsequence (tq_tools c) (tq_tools k))" if k: "k \<in> set cs" for k
  proof
    assume dom: "tq_count c \<le> tq_count k \<and> is_subsequence (tq_tools c) (tq_tools k)"
    then have part: "\<exists>u v. tq_tools k = u @ tq_tools c @ v" by (auto dest: is_subsequence_part)
    then have "tq_count k \<le> tq_count c" using sequence_sessions_mono [OF part, of rows] snoc.prems(3) k by simp
    moreover have "tq_count c < tq_count k \<or> tq_count k = tq_count c \<and> length (tq_tools k) \<le> length (tq_tools c)"
      using snoc.prems(2) k by (auto simp: sorted_wrt_append)
    ultimately have "length (tq_tools k) \<le> length (tq_tools c)" by simp
    with part have "tq_tools k = tq_tools c" by auto
    moreover have "tq_tools c \<notin> tq_tools ` set cs" using snoc.prems(1) by simp
    ultimately show False using k by (metis image_eqI)
  qed
  then show ?case using kept by (simp add: keep_undominated_snoc dominated_by_def list_ex_iff)
qed

lemma find_tool_sequences_all:
  assumes "\<And>ws. distinct (wo ws) = distinct ws" and "\<And>ws. set (wo ws) = set ws"
  shows "find_tool_sequences so wo db cutoff n = ranked_sequences so wo (recent_actions db cutoff) n"
  unfolding find_tool_sequences_def
proof (rule keep_undominated_all)
  let ?rows = "recent_actions db cutoff"
  note f = ranked_facts [where wo = wo and so = so and rows = ?rows and n = n, OF assms]
  show "distinct (List.map tq_tools (ranked_sequences so wo ?rows n))" by (rule f(1))
  show "sorted_wrt (\<lambda>a b. tq_count b < tq_count a \<or> tq_count a = tq_count b \<and> length (tq_tools a) \<le> length (tq_tools b))
      (ranked_sequences so wo ?rows n)" by (rule f(3))
  fix c
  assume "c \<in> set (ranked_sequences so wo ?rows n)"
  then show "tq_count c = length (sequence_sessions ?rows (tq_tools c)) \<and> 3 \<le> length (tq_tools c)"
    unfolding f(2) by (auto simp: sequence_candidate_def in_tool_windows)
qed

text \<open>The abstract meaning: a stretch of three to six tools that ran in \<open>n\<close> sessions.\<close>

definition ran_in :: "agent_action list \<Rightarrow> string list \<Rightarrow> string \<Rightarrow> bool" where
  "ran_in rows w s = (\<exists>u v. session_tools rows s = u @ w @ v)"

lemma found_sequences:
  assumes "\<And>ws. distinct (wo ws) = distinct ws" and "\<And>ws. set (wo ws) = set ws" and "0 < n"
    and "rows = recent_actions db cutoff"
  shows "w \<in> tq_tools ` set (find_tool_sequences so wo db cutoff n) \<longleftrightarrow>
      3 \<le> length w \<and> length w \<le> 6 \<and> n \<le> card {s \<in> aa_session ` set rows. ran_in rows w s}"
    and "distinct (List.map tq_tools (find_tool_sequences so wo db cutoff n))"
proof -
  note f = ranked_facts [where wo = wo and so = so and rows = rows and n = n, OF assms(1,2)]
  have ids: "set (session_ids rows) = aa_session ` set rows" by (simp add: session_ids_def)
  have d: "distinct (sequence_sessions rows w)" by (simp add: sequence_sessions_def session_ids_def)
  have c: "length (sequence_sessions rows w) = card {s \<in> aa_session ` set rows. ran_in rows w s}"
    if "3 \<le> length w" "length w \<le> 6"
    using that distinct_card [OF d] by (simp add: sequence_sessions_def in_tool_windows ids ran_in_def)
  have "n \<le> length (sequence_sessions rows w) \<Longrightarrow> sequence_sessions rows w \<noteq> []" using assms(3) by auto
  then have "n \<le> length (sequence_sessions rows w) \<Longrightarrow>
      \<exists>s \<in> set (session_ids rows). w \<in> set (tool_windows (session_tools rows s))"
    by (auto simp: sequence_sessions_def filter_empty_conv)
  then have "w \<in> tq_tools ` set (find_tool_sequences so wo db cutoff n) \<longleftrightarrow>
      n \<le> length (sequence_sessions rows w) \<and> (\<exists>s \<in> set (session_ids rows). w \<in> set (tool_windows (session_tools rows s)))"
    unfolding find_tool_sequences_all [OF assms(1,2)] assms(4) [symmetric]
    by (force simp: f(2) image_iff sequence_candidate_def)
  moreover have "n \<le> length (sequence_sessions rows w) \<Longrightarrow> 3 \<le> length w \<and> length w \<le> 6"
    using calculation \<open>n \<le> length (sequence_sessions rows w) \<Longrightarrow> \<exists>s \<in> _. _\<close> by (auto simp: in_tool_windows)
  ultimately show "w \<in> tq_tools ` set (find_tool_sequences so wo db cutoff n) \<longleftrightarrow>
      3 \<le> length w \<and> length w \<le> 6 \<and> n \<le> card {s \<in> aa_session ` set rows. ran_in rows w s}"
    using c \<open>n \<le> length (sequence_sessions rows w) \<Longrightarrow> \<exists>s \<in> _. _\<close> by auto
  show "distinct (List.map tq_tools (find_tool_sequences so wo db cutoff n))"
    unfolding find_tool_sequences_all [OF assms(1,2)] assms(4) [symmetric] by (rule f(1))
qed

end
