(* ===== verification/TeachLearn.thy ===== *)
theory TeachLearn
  imports TeachStore Printing
begin

text \<open>
  The learning half of \<open>crates/osmoda-teachd\<close>: \<open>observer.rs\<close> (what it reads of the host and keeps),
  \<open>learner.rs\<close> (patterns and the documents made of them) and \<open>teacher.rs\<close> (which documents answer
  a context). Parameters: the text of the files and of the commands' output, \<open>pj\<close> (serde_json's
  parser), \<open>tm\<close> (the instant of a time, in nanoseconds), \<open>sh\<close> (chrono's display of a time), and
  the order \<open>ho\<close> in which a hash map is listed. Letters outside ASCII count as letters.
\<close>

section \<open>JSON and text helpers\<close>

fun as_f64 :: "json \<Rightarrow> rat option" where
  "as_f64 (JNum i) = Some (of_int i)"
| "as_f64 _ = None"

definition get_f64 :: "string \<Rightarrow> json \<Rightarrow> rat option" where
  "get_f64 k j = Option.bind (jget k j) as_f64"

section \<open>Observer\<close>

definition parse_cpu :: "string \<Rightarrow> json option" where
  "parse_cpu text =
     (case List.find (\<lambda>l. starts_with l ''cpu '') (lines_of text) of
        None \<Rightarrow> None
      | Some l \<Rightarrow>
          (let fields = List.map_filter (parse_uint 64) (drop 1 (split_whitespace l))
           in if 4 \<le> length fields
              then let tot = (fields ! 0 + fields ! 1 + fields ! 2 + fields ! 3) mod 2 ^ 64
                   in Some (JObj [(''user'', JNum (int (fields ! 0))), (''nice'', JNum (int (fields ! 1))),
                        (''system'', JNum (int (fields ! 2))), (''idle'', JNum (int (fields ! 3))),
                        (''total'', JNum (int tot))])
              else None))"

text \<open>The last line of each kind counts; a number that cannot be read clears it.\<close>

definition meminfo_line :: "string \<Rightarrow> string \<Rightarrow> nat option \<Rightarrow> nat option" where
  "meminfo_line label l old =
     (let parts = split_whitespace l
      in if 2 \<le> length parts \<and> parts ! 0 = label then parse_uint 64 (parts ! 1) else old)"

definition meminfo :: "string \<Rightarrow> string \<Rightarrow> nat option" where
  "meminfo label text = fold (meminfo_line label) (lines_of text) None"

definition jnat :: "nat option \<Rightarrow> json" where
  "jnat n = (case n of None \<Rightarrow> JNull | Some k \<Rightarrow> JNum (int k))"

definition parse_memory :: "string \<Rightarrow> json option" where
  "parse_memory text =
     map_option (\<lambda>tot. JObj [(''total_kb'', JNum (int tot)),
       (''available_kb'', jnat (meminfo ''MemAvailable:'' text)), (''free_kb'', jnat (meminfo ''MemFree:'' text))])
       (meminfo ''MemTotal:'' text)"

definition parse_services :: "string \<Rightarrow> json" where
  "parse_services text =
     (let units = filter (\<lambda>ps. 4 \<le> length ps) (List.map split_whitespace (lines_of text));
          failed = filter (\<lambda>ps. ps ! 3 = ''failed'') units
      in JObj [(''total'', JNum (int (length units))),
           (''running'', JNum (int (length (filter (\<lambda>ps. ps ! 3 = ''running'') units)))),
           (''failed'', JNum (int (length failed))),
           (''failed_names'', JArr (List.map (\<lambda>ps. JStr (ps ! 0)) failed))])"

definition str_or :: "string \<Rightarrow> json option \<Rightarrow> string" where
  "str_or d j = (case Option.bind j as_str of None \<Rightarrow> d | Some s \<Rightarrow> s)"

definition parse_journal :: "(string \<Rightarrow> json option) \<Rightarrow> string \<Rightarrow> json option" where
  "parse_journal pj text =
     (let errors = List.map (\<lambda>e. JObj [(''identifier'', JStr (str_or ''unknown'' (jget ''SYSLOG_IDENTIFIER'' e))),
            (''message'', JStr (str_or [] (jget ''MESSAGE'' e)))]) (List.map_filter pj (lines_of text))
      in if errors = [] then None
         else Some (JObj [(''error_count'', JNum (int (length errors))), (''errors'', JArr errors)]))"

text \<open>One tick: what the four collectors could read (\<open>None\<close>: not available) with the identifier and
  time each gives its observation, and the two cutoffs.\<close>

record observed =
  od_cpu :: "string option"
  od_memory :: "string option"
  od_services :: "string option"
  od_journal :: "string option"
  od_stamp :: "nat \<Rightarrow> string \<times> timestamp"
  od_obs_cutoff :: timestamp
  od_act_cutoff :: timestamp

definition note_observation :: "(string \<times> timestamp) \<Rightarrow> string \<Rightarrow> json option \<Rightarrow> teach_db \<Rightarrow> teach_db" where
  "note_observation stamp source data db =
     (case data of
        None \<Rightarrow> db
      | Some d \<Rightarrow> insert_observation
          \<lparr>ob_id = fst stamp, ob_ts = snd stamp, ob_source = source, ob_data = d\<rparr> db)"

definition prune_old :: "timestamp \<Rightarrow> timestamp \<Rightarrow> teach_db \<Rightarrow> teach_db" where
  "prune_old obs_cutoff act_cutoff db =
     fst (prune_agent_actions act_cutoff (fst (prune_observations obs_cutoff db)))"

definition observer_tick :: "(string \<Rightarrow> json option) \<Rightarrow> observed \<Rightarrow> teach_db \<Rightarrow> teach_db" where
  "observer_tick pj o' db =
     (let db1 = note_observation (od_stamp o' 0) ''cpu'' (Option.bind (od_cpu o') parse_cpu) db;
          db2 = note_observation (od_stamp o' 1) ''memory'' (Option.bind (od_memory o') parse_memory) db1;
          db3 = note_observation (od_stamp o' 2) ''service'' (map_option parse_services (od_services o')) db2;
          db4 = note_observation (od_stamp o' 3) ''journal'' (Option.bind (od_journal o') (parse_journal pj)) db3
      in prune_old (od_obs_cutoff o') (od_act_cutoff o') db4)"

section \<open>Learner: patterns\<close>

text \<open>The services and journal identifiers an observation names as failing.\<close>

definition failing_names :: "observation \<Rightarrow> string list" where
  "failing_names obs =
     (if ob_source obs = ''service''
      then (case Option.bind (jget ''failed_names'' (ob_data obs)) as_array of
              None \<Rightarrow> [] | Some names \<Rightarrow> List.map_filter as_str names)
      else if ob_source obs = ''journal''
      then (case Option.bind (jget ''errors'' (ob_data obs)) as_array of
              None \<Rightarrow> [] | Some errs \<Rightarrow> List.map_filter (\<lambda>e. Option.bind (jget ''identifier'' e) as_str) errs)
      else [])"

definition mentions :: "observation list \<Rightarrow> (string \<times> observation) list" where
  "mentions obs = concat (List.map (\<lambda>x. List.map (\<lambda>n. (n, x)) (failing_names x)) obs)"

definition mentions_of :: "observation list \<Rightarrow> string \<Rightarrow> observation list" where
  "mentions_of obs name = List.map snd (filter (\<lambda>m. fst m = name) (mentions obs))"

definition recurring_pattern :: "string \<Rightarrow> observation list \<Rightarrow> pattern" where
  "recurring_pattern name os = \<lparr>pn_id = ''pat-recurring-'' @ name, pn_name = name @ '' recurring failures'',
     pn_type = Recurring, pn_confidence = min (rat_of_nat (length os) / 10) 1,
     pn_observations = List.map ob_id os, pn_first_seen = Min (set (List.map ob_ts os)),
     pn_last_seen = Max (set (List.map ob_ts os)), pn_occurrences = length os\<rparr>"

definition detect_recurring_failures :: "(string list \<Rightarrow> string list) \<Rightarrow> observation list \<Rightarrow> pattern list" where
  "detect_recurring_failures ho obs =
     List.map (\<lambda>n. recurring_pattern n (mentions_of obs n))
       (filter (\<lambda>n. 3 \<le> length (mentions_of obs n)) (ho (remdups (List.map fst (mentions obs)))))"

definition differences :: "rat list \<Rightarrow> rat list" where
  "differences vs = List.map (\<lambda>(a, b). b - a) (zip vs (tl vs))"

definition detect_monotonic_trend :: "rat list \<Rightarrow> rat option" where
  "detect_monotonic_trend vs =
     (if length vs < 3 then None
      else let ds = differences vs;
               increasing = length (filter (\<lambda>d. 0 < d) ds);
               total_change = sum_list ds;
               pairs = length vs - 1
           in if 3 / 5 < rat_of_nat increasing / rat_of_nat pairs \<and> 0 < total_change
              then Some (total_change / rat_of_nat pairs) else None)"

definition memory_usage :: "observation \<Rightarrow> rat option" where
  "memory_usage x =
     (case get_f64 ''total_kb'' (ob_data x) of
        None \<Rightarrow> None
      | Some tot \<Rightarrow>
          (case get_f64 ''available_kb'' (ob_data x) of
             None \<Rightarrow> None
           | Some available \<Rightarrow> if 0 < tot then Some ((tot - available) / tot * 100) else None))"

definition detect_resource_trends :: "observation list \<Rightarrow> pattern list" where
  "detect_resource_trends obs =
     (let mem = filter (\<lambda>x. ob_source x = ''memory'') obs
      in if length mem < 6 then []
         else case detect_monotonic_trend (List.map_filter memory_usage mem) of
                None \<Rightarrow> []
              | Some trend \<Rightarrow>
                  (if 0 < trend
                   then [\<lparr>pn_id = ''pat-trend-memory-increase'', pn_name = ''memory usage increasing'', pn_type = Trend,
                         pn_confidence = min (trend / 5) 1, pn_observations = List.map ob_id mem,
                         pn_first_seen = ob_ts (hd mem), pn_last_seen = ob_ts (last mem),
                         pn_occurrences = length mem\<rparr>]
                   else []))"

text \<open>More than two standard deviations above the mean, with the square root cleared.\<close>

definition spike :: "rat list \<Rightarrow> bool" where
  "spike counts =
     (let n = rat_of_nat (length counts);
          mean = sum_list counts / n;
          variance = sum_list (List.map (\<lambda>v. (v - mean) ^ 2) counts) / n;
          excess = last counts - mean
      in 0 < variance \<and> 0 < excess \<and> 4 * variance < excess ^ 2)"

definition detect_anomalies :: "observation list \<Rightarrow> pattern list" where
  "detect_anomalies obs =
     (let journal = filter (\<lambda>x. ob_source x = ''journal'') obs;
          counts = List.map_filter (\<lambda>x. get_f64 ''error_count'' (ob_data x)) journal
      in if 3 \<le> length journal \<and> counts \<noteq> [] \<and> spike counts
         then [\<lparr>pn_id = ''pat-anomaly-error-spike'', pn_name = ''journal error spike detected'', pn_type = Anomaly,
               pn_confidence = 4 / 5, pn_observations = List.map ob_id journal,
               pn_first_seen = ob_ts (hd journal), pn_last_seen = ob_ts (last journal), pn_occurrences = 1\<rparr>]
         else [])"

definition cpu_usage :: "observation \<Rightarrow> rat option" where
  "cpu_usage x =
     (let tot = (case get_f64 ''total'' (ob_data x) of None \<Rightarrow> 0 | Some t \<Rightarrow> t);
          idle = (case get_f64 ''idle'' (ob_data x) of None \<Rightarrow> 0 | Some t \<Rightarrow> t)
      in if 0 < tot then Some ((tot - idle) / tot * 100) else None)"

definition busy_near :: "(timestamp \<Rightarrow> int) \<Rightarrow> observation \<Rightarrow> observation \<Rightarrow> bool" where
  "busy_near tm svc cpu =
     (\<bar>num_seconds (tm (ob_ts svc) - tm (ob_ts cpu))\<bar> \<le> 60 \<and>
      (case cpu_usage cpu of None \<Rightarrow> False | Some u \<Rightarrow> 80 < u))"

definition correlation_pattern :: "observation \<Rightarrow> observation \<Rightarrow> pattern" where
  "correlation_pattern svc cpu = \<lparr>pn_id = ''pat-corr-cpu-svc-'' @ ob_id svc,
     pn_name = ''service failure correlated with high CPU'', pn_type = Correlation, pn_confidence = 3 / 4,
     pn_observations = [ob_id svc, ob_id cpu], pn_first_seen = min (ob_ts svc) (ob_ts cpu),
     pn_last_seen = max (ob_ts svc) (ob_ts cpu), pn_occurrences = 1\<rparr>"

definition has_failures :: "observation \<Rightarrow> bool" where
  "has_failures x =
     (ob_source x = ''service'' \<and>
      0 < (case Option.bind (jget ''failed'' (ob_data x)) as_unsigned of None \<Rightarrow> 0 | Some n \<Rightarrow> n))"

definition detect_correlations :: "(timestamp \<Rightarrow> int) \<Rightarrow> observation list \<Rightarrow> pattern list" where
  "detect_correlations tm obs =
     List.map_filter (\<lambda>svc. map_option (correlation_pattern svc)
       (List.find (busy_near tm svc) (filter (\<lambda>x. ob_source x = ''cpu'') obs))) (filter has_failures obs)"

section \<open>Learner: documents\<close>

fun doc_category :: "pattern_type \<Rightarrow> string" where
  "doc_category Recurring = ''reliability''"
| "doc_category Trend = ''performance''"
| "doc_category Anomaly = ''reliability''"
| "doc_category Correlation = ''performance''"

fun doc_headline :: "pattern_type \<Rightarrow> string" where
  "doc_headline Recurring = ''Recurring failure detected.''"
| "doc_headline Trend = ''Resource usage trend detected.''"
| "doc_headline Anomaly = ''Anomalous behavior detected.''"
| "doc_headline Correlation = ''Correlated events detected.''"

definition doc_counts :: "pattern \<Rightarrow> string" where
  "doc_counts p =
     (case pn_type p of
        Recurring \<Rightarrow> ''**Occurrences**: '' @ dec (pn_occurrences p) @ '' times''
      | Trend \<Rightarrow> ''**Data points**: '' @ dec (pn_occurrences p)
      | Anomaly \<Rightarrow> ''**Observations**: '' @ dec (pn_occurrences p)
      | Correlation \<Rightarrow> ''**Observations**: '' @ dec (length (pn_observations p)))"

fun doc_advice :: "pattern_type \<Rightarrow> string" where
  "doc_advice Recurring = ''Investigate the root cause of this recurring failure. Consider adding a watcher to auto-restart the affected service.''"
| "doc_advice Trend = ''Monitor resource usage and consider scaling or investigating memory leaks.''"
| "doc_advice Anomaly = ''Investigate the spike and check system logs for root cause.''"
| "doc_advice Correlation = ''The correlated events suggest a causal relationship. Investigate if one event triggers the other.''"

definition doc_content :: "(timestamp \<Rightarrow> string) \<Rightarrow> pattern \<Rightarrow> string" where
  "doc_content sh p =
     ''## '' @ pn_name p @ nl @ nl @ ''**Pattern**: '' @ doc_headline (pn_type p) @ nl @ doc_counts p @ nl @
     ''**First seen**: '' @ sh (pn_first_seen p) @ nl @ ''**Last seen**: '' @ sh (pn_last_seen p) @ nl @
     ''**Confidence**: '' @ fixed 0 (pn_confidence p * 100) @ ''%'' @ nl @ nl @ ''### Recommendation'' @ nl @
     doc_advice (pn_type p)"

definition pattern_doc :: "(timestamp \<Rightarrow> string) \<Rightarrow> timestamp \<Rightarrow> pattern \<Rightarrow> knowledge_doc" where
  "pattern_doc sh now p = \<lparr>kn_id = ''kd-'' @ pn_id p, kn_title = pn_name p, kn_category = doc_category (pn_type p),
     kn_content = doc_content sh p, kn_source_patterns = [pn_id p], kn_confidence = pn_confidence p,
     kn_created_at = now, kn_updated_at = now, kn_applied = False,
     kn_tags = [pattern_type_text (pn_type p), doc_category (pn_type p)]\<rparr>"

definition generate_knowledge_from_pattern ::
  "(timestamp \<Rightarrow> string) \<Rightarrow> timestamp \<Rightarrow> pattern \<Rightarrow> teach_db \<Rightarrow> teach_db" where
  "generate_knowledge_from_pattern sh now p db = insert_knowledge_doc (pattern_doc sh now p) db"

definition learn_pattern :: "(timestamp \<Rightarrow> string) \<Rightarrow> timestamp \<Rightarrow> teach_db \<Rightarrow> pattern \<Rightarrow> teach_db" where
  "learn_pattern sh now db p =
     (let db1 = upsert_pattern p db
      in if 7 / 10 < pn_confidence p then generate_knowledge_from_pattern sh now p db1 else db1)"

definition detect_patterns ::
  "(string list \<Rightarrow> string list) \<Rightarrow> (timestamp \<Rightarrow> int) \<Rightarrow> observation list \<Rightarrow> pattern list" where
  "detect_patterns ho tm obs =
     detect_recurring_failures ho obs @ detect_resource_trends obs @ detect_anomalies obs @ detect_correlations tm obs"

text \<open>The receipt of a detected pattern is a future that the code drops without awaiting it, so
  nothing is sent.\<close>

definition run_learning_cycle ::
  "(string list \<Rightarrow> string list) \<Rightarrow> (timestamp \<Rightarrow> int) \<Rightarrow> (timestamp \<Rightarrow> string) \<Rightarrow> timestamp \<Rightarrow> timestamp \<Rightarrow>
   teach_db \<Rightarrow> teach_db" where
  "run_learning_cycle ho tm sh since now db =
     (let obs = list_observations db None (Some since) 500
      in if obs = [] then db else foldl (learn_pattern sh now) db (detect_patterns ho tm obs))"

section \<open>Teacher\<close>

definition is_alphanumeric :: "char \<Rightarrow> bool" where
  "is_alphanumeric c = (ascii_alnum c \<or> 128 \<le> (of_char c :: nat))"

definition trim_matches :: "(char \<Rightarrow> bool) \<Rightarrow> string \<Rightarrow> string" where
  "trim_matches f s = rev (dropWhile f (rev (dropWhile f s)))"

definition context_keywords :: "string \<Rightarrow> string list" where
  "context_keywords context =
     filter (\<lambda>w. w \<noteq> []) (List.map (trim_matches (\<lambda>c. \<not> is_alphanumeric c))
       (filter (\<lambda>w. 2 < length w) (split_whitespace (to_lowercase context))))"

definition searchable :: "knowledge_doc \<Rightarrow> string" where
  "searchable d = to_lowercase (kn_title d) @ '' '' @ to_lowercase (kn_content d) @ '' '' @
     to_lowercase (kn_category d) @ '' '' @ to_lowercase (join '' '' (kn_tags d))"

definition doc_score :: "string list \<Rightarrow> knowledge_doc \<Rightarrow> rat" where
  "doc_score kws d = rat_of_nat (length (filter (contains (searchable d)) kws)) * kn_confidence d"

definition doc_chars :: "knowledge_doc \<Rightarrow> nat" where
  "doc_chars d = length (kn_content d) + length (kn_title d) + 20"

fun take_budget :: "nat \<Rightarrow> knowledge_doc list \<Rightarrow> knowledge_doc list \<Rightarrow> knowledge_doc list \<times> nat" where
  "take_budget used taken [] = (taken, used)"
| "take_budget used taken (d # ds) =
     (if 6000 < used + doc_chars d \<and> taken \<noteq> [] then (taken, used)
      else take_budget (used + doc_chars d) (taken @ [d]) ds)"

definition teach_context ::
  "(string list \<Rightarrow> string) \<Rightarrow> teach_db \<Rightarrow> string \<Rightarrow> knowledge_doc list \<times> nat" where
  "teach_context js db context =
     (let docs = list_knowledge_docs js db None None 100; kws = context_keywords context
      in if docs = [] \<or> kws = [] then ([], 0)
         else let scored = best (doc_score kws) (filter (\<lambda>d. 0 < doc_score kws d) docs);
                  (relevant, used) = take_budget 0 [] scored
              in (relevant, used div 4))"


section \<open>Retention\<close>

lemma observer_tick_kept:
  "list_all (\<lambda>r. od_obs_cutoff t \<le> ob_ts r) (db_observations (observer_tick pj t db))"
  "list_all (\<lambda>a. od_act_cutoff t \<le> aa_ts a) (db_actions (observer_tick pj t db))"
  by (simp_all add: observer_tick_def Let_def prune_old_def prune_observations_def prune_agent_actions_def
      list_all_iff)

lemma note_observation_frame:
  "db_docs (note_observation s src d db) = db_docs db" "db_patterns (note_observation s src d db) = db_patterns db"
  "db_opts (note_observation s src d db) = db_opts db" "db_actions (note_observation s src d db) = db_actions db"
  "db_candidates (note_observation s src d db) = db_candidates db"
  "db_executions (note_observation s src d db) = db_executions db"
  by (simp_all add: note_observation_def insert_observation_def split: option.split)

lemma observer_tick_frame:
  "db_docs (observer_tick pj t db) = db_docs db" "db_patterns (observer_tick pj t db) = db_patterns db"
  "db_opts (observer_tick pj t db) = db_opts db" "db_candidates (observer_tick pj t db) = db_candidates db"
  "db_executions (observer_tick pj t db) = db_executions db"
  by (simp_all add: observer_tick_def Let_def prune_old_def prune_observations_def prune_agent_actions_def
      note_observation_frame)

section \<open>What is learned\<close>

lemma learn_pattern_doc:
  "get_knowledge_doc (learn_pattern sh now db p) k =
     (if 7 / 10 < pn_confidence p \<and> k = ''kd-'' @ pn_id p then Some (pattern_doc sh now p) else get_knowledge_doc db k)"
proof -
  have "kn_id (pattern_doc sh now p) = ''kd-'' @ pn_id p" by (simp add: pattern_doc_def)
  moreover have "get_knowledge_doc (upsert_pattern p db) k = get_knowledge_doc db k"
    by (simp add: upsert_pattern_def get_knowledge_doc_def)
  ultimately show ?thesis by (simp add: learn_pattern_def Let_def generate_knowledge_from_pattern_def docs.get_put)
qed

lemma learned_none:
  "\<forall>p \<in> set ps. pn_id p \<noteq> i \<Longrightarrow>
   get_knowledge_doc (foldl (learn_pattern sh now) db ps) (''kd-'' @ i) = get_knowledge_doc db (''kd-'' @ i)"
  by (induction ps arbitrary: db) (auto simp: learn_pattern_doc)

lemma learned_unique:
  "distinct (List.map pn_id ps) \<Longrightarrow>
   get_knowledge_doc (foldl (learn_pattern sh now) db ps) (''kd-'' @ i) =
     (case find_by pn_id i ps of
        Some p \<Rightarrow> if 7 / 10 < pn_confidence p then Some (pattern_doc sh now p) else get_knowledge_doc db (''kd-'' @ i)
      | None \<Rightarrow> get_knowledge_doc db (''kd-'' @ i))"
proof (induction ps arbitrary: db)
  case (Cons p ps)
  show ?case
  proof (cases "pn_id p = i")
    case True
    with Cons.prems have "\<forall>q \<in> set ps. pn_id q \<noteq> i" by (metis distinct.simps(2) image_eqI list.simps(9) set_map)
    from learned_none [OF this, of sh now "learn_pattern sh now db p"] show ?thesis
      using True by (simp add: learn_pattern_doc)
  next
    case False
    with Cons show ?thesis by (simp add: learn_pattern_doc split: option.split)
  qed
qed simp

lemma recurring_ids: "pn_id (recurring_pattern n os) = ''pat-recurring-'' @ n"
  by (simp add: recurring_pattern_def)

lemma trend_ids: "p \<in> set (detect_resource_trends obs) \<Longrightarrow> pn_id p = ''pat-trend-memory-increase''"
  by (auto simp: detect_resource_trends_def Let_def split: if_splits option.splits)

lemma anomaly_ids: "p \<in> set (detect_anomalies obs) \<Longrightarrow> pn_id p = ''pat-anomaly-error-spike''"
  by (auto simp: detect_anomalies_def Let_def split: if_splits)

lemma set_map_filter: "set (List.map_filter f xs) = {y. \<exists>x \<in> set xs. f x = Some y}"
  by (induction xs) (auto simp: List.map_filter_simps split: option.split)

lemma correlation_ids: "p \<in> set (detect_correlations tm obs) \<Longrightarrow> \<exists>i. pn_id p = ''pat-corr-cpu-svc-'' @ i"
  by (auto simp: detect_correlations_def set_map_filter correlation_pattern_def)

lemma other_ids:
  "p \<in> set (detect_resource_trends obs @ detect_anomalies obs @ detect_correlations tm obs) \<Longrightarrow>
   pn_id p \<noteq> ''pat-recurring-'' @ n"
  using trend_ids [of p obs] anomaly_ids [of p obs] correlation_ids [of p tm obs] by auto

lemma mentions_of_empty: "n \<notin> fst ` set (mentions obs) \<Longrightarrow> mentions_of obs n = []"
  by (auto simp: mentions_of_def filter_empty_conv)

lemma recurring_doc:
  assumes "\<And>ns. distinct (ho ns) = distinct ns" and "\<And>ns. set (ho ns) = set ns"
  shows "get_knowledge_doc (foldl (learn_pattern sh now) db (detect_patterns ho tm obs)) (''kd-pat-recurring-'' @ n) =
     (if 8 \<le> length (mentions_of obs n) then Some (pattern_doc sh now (recurring_pattern n (mentions_of obs n)))
      else get_knowledge_doc db (''kd-pat-recurring-'' @ n))"
proof -
  let ?k = "''kd-pat-recurring-'' @ n"
  let ?rec = "detect_recurring_failures ho obs"
  let ?other = "detect_resource_trends obs @ detect_anomalies obs @ detect_correlations tm obs"
  have "get_knowledge_doc (foldl (learn_pattern sh now) db (detect_patterns ho tm obs)) (''kd-'' @ ''pat-recurring-'' @ n) =
      get_knowledge_doc (foldl (learn_pattern sh now) db ?rec) (''kd-'' @ ''pat-recurring-'' @ n)"
    unfolding detect_patterns_def foldl_append [of _ _ ?rec]
    by (rule learned_none) (use other_ids [of _ obs tm n] in blast)
  moreover have "distinct (List.map pn_id ?rec)"
    using assms(1) by (auto simp: detect_recurring_failures_def distinct_map recurring_ids inj_on_def comp_def)
  moreover have "find_by pn_id (''pat-recurring-'' @ n) ?rec =
      (if 3 \<le> length (mentions_of obs n) then Some (recurring_pattern n (mentions_of obs n)) else None)"
  proof -
    have "find_by pn_id (''pat-recurring-'' @ n) (List.map (\<lambda>n. recurring_pattern n (mentions_of obs n)) ns) =
        (if n \<in> set ns then Some (recurring_pattern n (mentions_of obs n)) else None)" for ns
      by (induction ns) (auto simp: recurring_ids)
    then show ?thesis
      using mentions_of_empty [of n obs] by (cases "n \<in> fst ` set (mentions obs)") (simp_all add: detect_recurring_failures_def assms(2))
  qed
  moreover have "7 / 10 < pn_confidence (recurring_pattern n os) \<longleftrightarrow> 8 \<le> length os" for os
    by (auto simp: recurring_pattern_def min_def less_divide_eq divide_less_eq)
  ultimately show ?thesis using learned_unique [of ?rec sh now db "''pat-recurring-'' @ n"] by simp
qed

section \<open>The direction of a trend\<close>

lemma sum_differences: "vs \<noteq> [] \<Longrightarrow> sum_list (differences vs) = last vs - hd vs"
proof (induction vs)
  case (Cons v vs)
  then show ?case by (cases vs) (auto simp: differences_def)
qed simp

lemma monotonic_trend_grows: "detect_monotonic_trend vs = Some t \<Longrightarrow> hd vs < last vs"
  by (cases "vs = []") (auto simp: detect_monotonic_trend_def Let_def sum_differences split: if_splits)

text \<open>The learner lists observations newest first, so what it reports as an increase is a decrease.\<close>

lemma reported_increase:
  assumes "detect_resource_trends obs \<noteq> []"
    and "usages = List.map_filter memory_usage (filter (\<lambda>x. ob_source x = ''memory'') obs)"
  shows "hd usages < last usages"
  using assms monotonic_trend_grows [of usages]
  by (auto simp: detect_resource_trends_def Let_def split: if_splits option.splits)

section \<open>The budget of a lesson\<close>

lemma take_budget_spec:
  "take_budget used taken ds = (r, u) \<Longrightarrow>
   \<exists>n \<le> length ds. r = taken @ take n ds \<and> u = used + sum_list (List.map doc_chars (take n ds)) \<and>
     (n = 0 \<or> u \<le> 6000 \<or> taken = [] \<and> n = 1) \<and> (n < length ds \<longrightarrow> 6000 < u + doc_chars (ds ! n))"
proof (induction used taken ds rule: take_budget.induct)
  case (1 used taken)
  then show ?case by simp
next
  case (2 used taken d ds)
  show ?case
  proof (cases "6000 < used + doc_chars d \<and> taken \<noteq> []")
    case True
    with 2(2) show ?thesis by (intro exI [of _ 0]) simp
  next
    case False
    with 2 obtain n where n: "n \<le> length ds" "r = (taken @ [d]) @ take n ds"
      "u = used + doc_chars d + sum_list (List.map doc_chars (take n ds))" "n = 0 \<or> u \<le> 6000"
      "n < length ds \<longrightarrow> 6000 < u + doc_chars (ds ! n)"
      by auto
    then show ?thesis using False by (intro exI [of _ "Suc n"]) auto
  qed
qed

lemma best_sorted: "sorted_wrt (\<lambda>a b. key b \<le> key a) (best key rs)"
proof -
  have "sorted_wrt (\<lambda>a b. key a \<le> key b) (sort_key key (rev rs))"
    using sorted_sort_key [of key "rev rs"] by (simp add: sorted_wrt_map)
  then show ?thesis by (simp add: best_def sorted_wrt_rev)
qed

lemma teach_context_spec:
  assumes "teach_context js db context = (ds, tokens)"
  shows "set ds \<subseteq> set (db_docs db)"
    and "list_all (\<lambda>d. 0 < doc_score (context_keywords context) d) ds"
    and "sorted_wrt (\<lambda>a b. doc_score (context_keywords context) b \<le> doc_score (context_keywords context) a) ds"
    and "tokens = sum_list (List.map doc_chars ds) div 4" and "tokens \<le> 1500 \<or> length ds = 1"
proof -
  let ?kws = "context_keywords context" and ?docs = "list_knowledge_docs js db None None 100"
  let ?scored = "best (doc_score ?kws) (filter (\<lambda>d. 0 < doc_score ?kws d) ?docs)"
  have "\<exists>n. ds = take n ?scored \<and> tokens = sum_list (List.map doc_chars ds) div 4 \<and> (tokens \<le> 1500 \<or> length ds = 1)"
  proof (cases "?docs = [] \<or> ?kws = []")
    case True
    with assms show ?thesis by (intro exI [of _ 0]) (auto simp: teach_context_def Let_def)
  next
    case False
    then obtain u where u: "take_budget 0 [] ?scored = (ds, u)" and t: "tokens = u div 4"
      using assms by (auto simp: teach_context_def Let_def split: prod.splits)
    from take_budget_spec [OF u] t show ?thesis by auto
  qed
  then obtain n where ds: "ds = take n ?scored" and t: "tokens = sum_list (List.map doc_chars ds) div 4"
    "tokens \<le> 1500 \<or> length ds = 1" by blast
  have "set ds \<subseteq> {d \<in> set ?docs. 0 < doc_score ?kws d}" using set_take_subset [of n ?scored] by (auto simp: ds)
  moreover have "set ?docs \<subseteq> set (db_docs db)"
    using set_newest unfolding list_knowledge_docs_def by fastforce
  ultimately show "set ds \<subseteq> set (db_docs db)" "list_all (\<lambda>d. 0 < doc_score ?kws d) ds"
    by (auto simp: list_all_iff)
  show "sorted_wrt (\<lambda>a b. doc_score ?kws b \<le> doc_score ?kws a) ds"
    unfolding ds by (intro sorted_wrt_take best_sorted)
  from t show "tokens = sum_list (List.map doc_chars ds) div 4" "tokens \<le> 1500 \<or> length ds = 1" by blast+
qed

end
