(* ===== verification/TeachSkills.thy ===== *)
theory TeachSkills
  imports TeachLearn
begin

text \<open>
  The acting half of \<open>crates/osmoda-teachd\<close>: \<open>skillgen.rs\<close> (skill candidates from repeated tool
  sequences and their files), \<open>verifier.rs\<close> (promotion, rejection and retirement by success rate)
  and \<open>optimizer.rs\<close> (suggested optimizations and their execution). The files are a map from
  paths to contents; a write to one succeeds or not as \<open>io\<close> says.
\<close>

section \<open>The state of the daemon\<close>

text \<open>\<open>td_receipts\<close> is what was sent to agentd (event, subject, detail), \<open>td_ran\<close> the optimizations whose
  action was started (identifier and action), \<open>td_applying\<close> those between the two critical
  sections of the apply endpoint, \<open>td_switches\<close> the requests to the watch daemon.\<close>

datatype switch_request = RequestSwitch string nat | RequestRollback string

record teachd =
  td_db :: teach_db
  td_skills_dir :: string
  td_files :: "string \<Rightarrow> string option"
  td_receipts :: "(string \<times> string \<times> string) list"
  td_applying :: "optimization list"
  td_ran :: "(string \<times> opt_action) list"
  td_switches :: "switch_request list"

definition log_teach :: "string \<Rightarrow> string \<Rightarrow> string \<Rightarrow> teachd \<Rightarrow> teachd" where
  "log_teach event subject detail st = st\<lparr>td_receipts := td_receipts st @ [(event, subject, detail)]\<rparr>"

section \<open>Naming\<close>

definition slug_from_tools :: "string list \<Rightarrow> string" where
  "slug_from_tools tools =
     (let joined = join ''-'' tools in if 60 < length joined then take_chars 60 joined else joined)"

definition without_prefix :: "string \<Rightarrow> string \<Rightarrow> string option" where
  "without_prefix p s = (if starts_with s p then Some (drop (length p) s) else None)"

definition short_tool :: "string \<Rightarrow> string" where
  "short_tool t =
     (case without_prefix ''system_'' t of
        Some s \<Rightarrow> s
      | None \<Rightarrow> (case without_prefix ''service_'' t of
                  Some s \<Rightarrow> s
                | None \<Rightarrow> (case without_prefix ''shell_'' t of Some s \<Rightarrow> s | None \<Rightarrow> t)))"

definition skill_name_from_tools :: "string list \<Rightarrow> string" where
  "skill_name_from_tools tools = join ''-and-'' (List.map short_tool tools)"

definition title_from_name :: "string \<Rightarrow> string" where
  "title_from_name name =
     join '' '' (List.map (\<lambda>w. case w of [] \<Rightarrow> [] | c # r \<Rightarrow> upper_char c # r)
       (split_whitespace (List.map (\<lambda>c. if c = CHR ''-'' then CHR '' '' else c) name)))"

definition generate_description :: "string list \<Rightarrow> string" where
  "generate_description tools =
     (if tools = [] then ''Auto-generated skill.''
      else ''Automated procedure using '' @ join '', then '' tools @ '' in sequence.'')"

definition compute_confidence :: "tool_sequence \<Rightarrow> rat" where
  "compute_confidence q =
     (let session_factor = min (rat_of_nat (tq_count q) / 8) 1;
          length_factor = min (1 / max (rat_of_nat (length (tq_tools q)) - 1) 1) 1
      in min (session_factor * (7 / 10) + length_factor * (3 / 10)) 1)"

definition tool_overlap :: "string list \<Rightarrow> string list \<Rightarrow> rat" where
  "tool_overlap a b =
     (if a = [] \<or> b = [] then 0
      else rat_of_nat (card (set a \<inter> set b)) / rat_of_nat (card (set a \<union> set b)))"

section \<open>Skill candidates\<close>

definition new_candidate :: "timestamp \<Rightarrow> tool_sequence \<Rightarrow> skill_candidate" where
  "new_candidate now q = \<lparr>sk_id = ''sc-'' @ slug_from_tools (tq_tools q),
     sk_name = skill_name_from_tools (tq_tools q), sk_description = generate_description (tq_tools q),
     sk_tools = tq_tools q, sk_sessions = tq_count q, sk_confidence = compute_confidence q,
     sk_source_patterns = [], sk_status = SkillPending, sk_path = None, sk_created_at = now, sk_updated_at = now\<rparr>"

definition consider_sequence :: "timestamp \<Rightarrow> teachd \<Rightarrow> tool_sequence \<Rightarrow> teachd" where
  "consider_sequence now st q =
     (let c = new_candidate now q
      in if get_skill_candidate (td_db st) (sk_id c) \<noteq> None then st
         else if list_ex (\<lambda>e. 4 / 5 \<le> tool_overlap (tq_tools q) (sk_tools e)) (list_skill_candidates (td_db st) None 50)
         then st
         else log_teach ''skill.candidate'' (sk_name c)
           (''tools=['' @ join '', '' (sk_tools c) @ ''], sessions='' @ dec (sk_sessions c) @ '', confidence='' @
              fixed 2 (sk_confidence c))
           (st\<lparr>td_db := insert_skill_candidate c (td_db st)\<rparr>))"

text \<open>\<open>so\<close> and \<open>wo\<close> are the orders of the hash maps, as in \<open>find_tool_sequences\<close>.\<close>

definition run_skillgen_cycle ::
  "(string list \<Rightarrow> string list) \<Rightarrow> (string list list \<Rightarrow> string list list) \<Rightarrow> timestamp \<Rightarrow> timestamp \<Rightarrow> teachd \<Rightarrow> teachd" where
  "run_skillgen_cycle so wo cutoff now st =
     foldl (consider_sequence now) st (take 10 (find_tool_sequences so wo (td_db st) cutoff 3))"

definition skill_step_text :: "nat \<Rightarrow> string \<Rightarrow> string" where
  "skill_step_text i tool =
     dec i @ ''. Execute '' @ [CHR 0x60] @ tool @ [CHR 0x60] @ '':'' @ nl @ ''   '' @ replicate 3 (CHR 0x60) @ nl @
     ''   '' @ tool @ ''({ /* parameters */ })'' @ nl @ ''   '' @ replicate 3 (CHR 0x60) @ nl @ nl"

definition report_step_text :: "nat \<Rightarrow> string \<Rightarrow> string" where
  "report_step_text i name =
     dec i @ ''. **Report results** (required for skill learning):'' @ nl @ ''   '' @ replicate 3 (CHR 0x60) @ nl @
     ''   teach_skill_execution({ skill_name: '' @ [CHR 0x22] @ name @ [CHR 0x22] @ '', outcome: '' @
     [CHR 0x22] @ ''success'' @ [CHR 0x22] @ '' | '' @ [CHR 0x22] @ ''failure'' @ [CHR 0x22] @ '' | '' @
     [CHR 0x22] @ ''partial'' @ [CHR 0x22] @ '', notes: '' @ [CHR 0x22] @ ''<what happened>'' @ [CHR 0x22] @ '' })'' @ nl @
     ''   '' @ replicate 3 (CHR 0x60) @ nl @ nl"

definition skill_steps :: "skill_candidate \<Rightarrow> string" where
  "skill_steps c =
     concat (List.map (\<lambda>(i, t). skill_step_text (i + 1) t) (zip [0..<length (sk_tools c)] (sk_tools c))) @
     report_step_text (length (sk_tools c) + 1) (sk_name c)"

definition generate_skill_md :: "string \<Rightarrow> skill_candidate \<Rightarrow> string" where
  "generate_skill_md today c =
     ''---'' @ nl @ ''name: '' @ sk_name c @ nl @ ''description: >'' @ nl @ ''  '' @ sk_description c @ nl @
     ''  Auto-generated from '' @ dec (sk_sessions c) @ '' observed sessions on '' @ today @ ''.'' @ nl @
     ''tools:'' @ nl @ join nl (List.map (\<lambda>t. ''  - '' @ t) (sk_tools c)) @ nl @ ''activation: manual'' @ nl @
     ''auto_generated: true'' @ nl @ ''version: 1'' @ nl @ ''confidence: '' @ fixed 2 (sk_confidence c) @ nl @
     ''---'' @ nl @ nl @ ''# '' @ title_from_name (sk_name c) @ nl @ nl @ sk_description c @ nl @ nl @
     ''## Steps'' @ nl @ nl @ skill_steps c @ ''## Notes'' @ nl @ nl @
     ''- This skill was auto-generated by teachd from repeated agent behavior.'' @ nl @
     ''- Review and customize the parameters before promoting to auto-activation.'' @ nl @
     ''- Confidence score: '' @ fixed 0 (sk_confidence c * 100) @ ''% (based on '' @ dec (sk_sessions c) @
     '' sessions).'' @ nl"

definition skill_file_path :: "string \<Rightarrow> string \<Rightarrow> string" where
  "skill_file_path skills_dir name = path_join (path_join skills_dir (''auto-'' @ name)) ''SKILL.md''"

definition bad_skill_name :: "string \<Rightarrow> bool" where
  "bad_skill_name name = (CHR ''/'' \<in> set name \<or> CHR 0x5C \<in> set name \<or> contains name ''..'' \<or> name = [])"

definition write_skill_file :: "bool \<Rightarrow> string \<Rightarrow> skill_candidate \<Rightarrow> teachd \<Rightarrow> teachd \<times> string option" where
  "write_skill_file io today c st =
     (if bad_skill_name (sk_name c) \<or> \<not> io then (st, None)
      else let p = skill_file_path (td_skills_dir st) (sk_name c)
           in (st\<lparr>td_files := (td_files st)(p \<mapsto> generate_skill_md today c)\<rparr>, Some p))"

section \<open>Verifier\<close>

text \<open>Rewriting a skill file, when it can be read and written.\<close>

definition rewrite_file :: "bool \<Rightarrow> string \<Rightarrow> string \<Rightarrow> string option \<Rightarrow> teachd \<Rightarrow> teachd" where
  "rewrite_file io old new path st =
     (case path of
        None \<Rightarrow> st
      | Some p \<Rightarrow>
          (case td_files st p of
             None \<Rightarrow> st
           | Some content \<Rightarrow> if io then st\<lparr>td_files := (td_files st)(p \<mapsto> replace_all old new content)\<rparr> else st))"

definition promote_skill_file :: "bool \<Rightarrow> string option \<Rightarrow> teachd \<Rightarrow> teachd" where
  "promote_skill_file io path st = rewrite_file io ''activation: manual'' ''activation: auto'' path st"

definition retire_skill_file :: "bool \<Rightarrow> string option \<Rightarrow> teachd \<Rightarrow> teachd" where
  "retire_skill_file io path st = rewrite_file io ''activation: auto'' ''activation: retired'' path st"

definition success_fraction :: "nat \<times> nat \<Rightarrow> rat" where
  "success_fraction r = rat_of_nat (fst r) / rat_of_nat (snd r)"

definition min_executions :: nat where
  "min_executions = 5"

definition blended_confidence :: "rat \<Rightarrow> rat \<Rightarrow> rat" where
  "blended_confidence confidence rate = max 0 (min 1 (confidence * (1 - 2 / 5) + rate * (2 / 5)))"

definition verdict :: "skill_status \<Rightarrow> rat \<Rightarrow> skill_status" where
  "verdict s rate =
     (if s = Generated
      then (if 4 / 5 \<le> rate then Promoted else if rate < 3 / 10 then Rejected else Generated)
      else if s = Promoted then (if rate < 2 / 5 then Retired else Promoted) else s)"

definition verdict_event :: "skill_status \<Rightarrow> string" where
  "verdict_event s = (if s = Promoted then ''skill.auto-promoted'' else if s = Rejected then ''skill.auto-rejected''
     else ''skill.retired'')"

text \<open>The names sorted by outcome, and how many had too few executions.\<close>

record verify_result =
  vr_promoted :: "string list"
  vr_rejected :: "string list"
  vr_retired :: "string list"
  vr_updated :: "string list"
  vr_skipped :: nat

definition no_verdicts :: verify_result where
  "no_verdicts = \<lparr>vr_promoted = [], vr_rejected = [], vr_retired = [], vr_updated = [], vr_skipped = 0\<rparr>"

definition note_verdict :: "string \<Rightarrow> skill_status \<Rightarrow> skill_status \<Rightarrow> verify_result \<Rightarrow> verify_result" where
  "note_verdict name old new r =
     (if new = old then r\<lparr>vr_updated := vr_updated r @ [name]\<rparr>
      else if new = Promoted then r\<lparr>vr_promoted := vr_promoted r @ [name]\<rparr>
      else if new = Rejected then r\<lparr>vr_rejected := vr_rejected r @ [name]\<rparr>
      else r\<lparr>vr_retired := vr_retired r @ [name]\<rparr>)"

definition verify_candidate ::
  "bool \<Rightarrow> timestamp \<Rightarrow> teachd \<times> verify_result \<Rightarrow> skill_candidate \<Rightarrow> teachd \<times> verify_result" where
  "verify_candidate io now acc c =
     (let (st, res) = acc; r = skill_success_rate (td_db st) (sk_name c)
      in if snd r < min_executions then (st, res\<lparr>vr_skipped := vr_skipped res + 1\<rparr>)
         else if sk_status c \<noteq> Generated \<and> sk_status c \<noteq> Promoted then (st, res)
         else let rate = success_fraction r; new = verdict (sk_status c) rate;
                  conf = blended_confidence (sk_confidence c) rate;
                  u = c\<lparr>sk_confidence := conf, sk_updated_at := now, sk_status := new\<rparr>;
                  st1 = (if new = sk_status c then st
                         else if new = Promoted then promote_skill_file io (sk_path u) st
                         else if new = Retired then retire_skill_file io (sk_path u) st else st);
                  st2 = st1\<lparr>td_db := insert_skill_candidate u (td_db st1)\<rparr>
              in (if new = sk_status c then st2
                  else log_teach (verdict_event new) (sk_name c)
                    (''rate='' @ fixed 0 (rate * 100) @ ''% ('' @ dec (fst r) @ ''/'' @ dec (snd r) @ ''), confidence='' @
                       fixed 2 (sk_confidence c) @ ''->'' @ fixed 2 conf) st2,
                  note_verdict (sk_name c) (sk_status c) new res))"

definition run_verify_cycle :: "bool \<Rightarrow> timestamp \<Rightarrow> teachd \<Rightarrow> teachd \<times> verify_result" where
  "run_verify_cycle io now st =
     foldl (verify_candidate io now) (st, no_verdicts)
       (list_skill_candidates (td_db st) (Some ''generated'') 100 @
        list_skill_candidates (td_db st) (Some ''promoted'') 100)"

section \<open>Optimizer\<close>

definition suggest_action_for_doc :: "knowledge_doc \<Rightarrow> string \<times> opt_action option" where
  "suggest_action_for_doc d =
     (let title = to_lowercase (kn_title d);
          service = trim (replace_all ''recurring failures'' [] title);
          fallback = (if contains title ''memory'' \<and> kn_category d = ''performance''
            then (''Consider investigating memory usage patterns and potential leaks'',
                  Some (Sysctl ''vm.overcommit_memory'' ''0''))
            else (''Review knowledge doc '' @ [CHR 0x27] @ kn_title d @ [CHR 0x27] @ '' for potential optimizations'', None))
      in if contains title ''recurring failures'' \<and> service \<noteq> []
         then (''Restart '' @ service @ '' to recover from recurring failures'', Some (ServiceRestart service))
         else fallback)"

definition suggestion :: "timestamp \<Rightarrow> knowledge_doc \<Rightarrow> optimization option" where
  "suggestion now d =
     (case suggest_action_for_doc d of
        (description, Some a) \<Rightarrow> Some \<lparr>op_id = ''opt-'' @ kn_id d, op_doc = kn_id d, op_description = description,
          op_action = a, op_status = Suggested, op_switch = None, op_created_at = now\<rparr>
      | (_, None) \<Rightarrow> None)"

definition suggest_optimizations ::
  "(string list \<Rightarrow> string) \<Rightarrow> timestamp \<Rightarrow> teach_db \<Rightarrow> teach_db \<times> optimization list" where
  "suggest_optimizations js now db =
     (let ss = List.map_filter (suggestion now) (filter (\<lambda>d. \<not> kn_applied d) (list_knowledge_docs js db None None 50))
      in (foldl (\<lambda>db x. insert_optimization x db) db ss, ss))"

definition approve_optimization :: "string \<Rightarrow> teach_db \<Rightarrow> teach_db \<times> optimization option" where
  "approve_optimization i db =
     (case get_optimization db i of
        None \<Rightarrow> (db, None)
      | Some x \<Rightarrow> if op_status x \<noteq> Suggested then (db, None)
                 else (update_optimization_status i OptApproved None db, Some (x\<lparr>op_status := OptApproved\<rparr>)))"

text \<open>The process an action starts; a configuration change is only logged.\<close>

fun action_process :: "opt_action \<Rightarrow> (string \<times> string list) option" where
  "action_process (ServiceRestart name) = Some (''systemctl'', [''restart'', name])"
| "action_process (Sysctl k v) = Some (''sysctl'', [''-w'', k @ ''='' @ v])"
| "action_process (NixConfig diff) = None"
| "action_process (Custom cmd) = Some (''sh'', [''-c'', cmd])"

text \<open>What the outside answers to one application: the watch daemon's answer to the new SafeSwitch (\<open>None\<close>:
  no connection or no JSON; else its identifier, if it has one), and whether the process succeeds.\<close>

record apply_env =
  ae_begin :: "string option option"
  ae_process_ok :: bool

definition execute_and_apply :: "apply_env \<Rightarrow> optimization \<Rightarrow> teachd \<Rightarrow> teachd \<times> string option" where
  "execute_and_apply env x st =
     (let st1 = st\<lparr>td_switches := td_switches st @ [RequestSwitch (''teachd optimization: '' @ op_description x) 300]\<rparr>
      in case ae_begin env of
           None \<Rightarrow> (st1, None)
         | Some answer \<Rightarrow>
             (let switch_id = (case answer of None \<Rightarrow> ''unknown'' | Some i \<Rightarrow> i);
                  st2 = st1\<lparr>td_ran := td_ran st1 @ [(op_id x, op_action x)]\<rparr>
              in if action_process (op_action x) = None \<or> ae_process_ok env then (st2, Some switch_id)
                 else (st2\<lparr>td_switches := td_switches st2 @ [RequestRollback switch_id]\<rparr>, None)))"

end
