(* ===== verification/Teachd.thy ===== *)
theory Teachd
  imports TeachSkills
begin

text \<open>
  The endpoints of \<open>crates/osmoda-teachd/src/api.rs\<close> and the daemon's loops as steps. Handlers run
  under the state's mutex; the endpoint that applies an optimization lets go of it while the
  action runs, so it is two steps (\<open>ApplyStart\<close>, \<open>ApplyFinish\<close>), and any other call may come
  between them. \<open>teach_world\<close> holds the parameters that do not change, the calls what clock, UUID
  generator and file system give each of them.
\<close>

section \<open>Endpoints that only read\<close>

definition or_default :: "'a \<Rightarrow> 'a option \<Rightarrow> 'a" where
  "or_default d x = (case x of None \<Rightarrow> d | Some y \<Rightarrow> y)"

record teach_health =
  th_status :: string
  th_counts :: "nat list"
  th_running :: "bool list"

definition teach_health_handler :: "teachd \<Rightarrow> teach_health" where
  "teach_health_handler st =
     (let db = td_db st
      in \<lparr>th_status = ''ok'', th_counts = [observation_count db, pattern_count db, knowledge_count db,
            optimization_count db, agent_action_count db, skill_candidate_count db, skill_execution_count db],
          th_running = [True, True, True, True]\<rparr>)"

definition observations_handler :: "teachd \<Rightarrow> string option \<Rightarrow> timestamp option \<Rightarrow> nat option \<Rightarrow> observation list" where
  "observations_handler st source since limit = list_observations (td_db st) source since (or_default 50 limit)"

definition patterns_handler :: "teachd \<Rightarrow> string option \<Rightarrow> rat option \<Rightarrow> pattern list" where
  "patterns_handler st pattern_type min_confidence =
     list_patterns (td_db st) pattern_type (or_default (1 / 2) min_confidence)"

definition knowledge_list_handler ::
  "(string list \<Rightarrow> string) \<Rightarrow> teachd \<Rightarrow> string option \<Rightarrow> string option \<Rightarrow> nat option \<Rightarrow> knowledge_doc list" where
  "knowledge_list_handler js st category tag limit =
     list_knowledge_docs js (td_db st) category tag (or_default 20 limit)"

definition knowledge_get_handler :: "teachd \<Rightarrow> string \<Rightarrow> knowledge_doc reply" where
  "knowledge_get_handler st i = (case get_knowledge_doc (td_db st) i of None \<Rightarrow> Fail 404 | Some d \<Rightarrow> Reply 200 d)"

definition teach_handler :: "(string list \<Rightarrow> string) \<Rightarrow> teachd \<Rightarrow> string \<Rightarrow> knowledge_doc list \<times> nat" where
  "teach_handler js st context = teach_context js (td_db st) context"

definition optimizations_list_handler :: "teachd \<Rightarrow> string option \<Rightarrow> nat option \<Rightarrow> optimization list" where
  "optimizations_list_handler st status limit = list_optimizations (td_db st) status (or_default 20 limit)"

definition actions_list_handler ::
  "teachd \<Rightarrow> string option \<Rightarrow> string option \<Rightarrow> timestamp option \<Rightarrow> nat option \<Rightarrow> agent_action list" where
  "actions_list_handler st tool session since limit =
     list_agent_actions (td_db st) tool session since (or_default 50 limit)"

definition skill_candidates_handler :: "teachd \<Rightarrow> string option \<Rightarrow> nat option \<Rightarrow> skill_candidate list" where
  "skill_candidates_handler st status limit = list_skill_candidates (td_db st) status (or_default 20 limit)"

definition skill_executions_list_handler :: "teachd \<Rightarrow> string option \<Rightarrow> nat option \<Rightarrow> skill_execution list" where
  "skill_executions_list_handler st skill limit = list_skill_executions (td_db st) skill (or_default 20 limit)"

section \<open>Knowledge\<close>

definition knowledge_create_handler ::
  "string \<Rightarrow> timestamp \<Rightarrow> teachd \<Rightarrow> string \<Rightarrow> string \<Rightarrow> string \<Rightarrow> string list option \<Rightarrow> teachd \<times> knowledge_doc reply" where
  "knowledge_create_handler uuid now st title category content tags =
     (let d = \<lparr>kn_id = ''kd-manual-'' @ uuid, kn_title = title, kn_category = category, kn_content = content,
            kn_source_patterns = [], kn_confidence = 1, kn_created_at = now, kn_updated_at = now,
            kn_applied = False, kn_tags = or_default [] tags\<rparr>
      in (log_teach ''knowledge.create'' (kn_id d) (kn_title d)
            (st\<lparr>td_db := insert_knowledge_doc d (td_db st)\<rparr>), Reply 200 d))"

definition knowledge_update_handler ::
  "timestamp \<Rightarrow> teachd \<Rightarrow> string \<Rightarrow> string option \<Rightarrow> string list option \<Rightarrow> string option \<Rightarrow>
   teachd \<times> knowledge_doc reply" where
  "knowledge_update_handler now st i content tags category =
     (case get_knowledge_doc (td_db st) i of
        None \<Rightarrow> (st, Fail 404)
      | Some d0 \<Rightarrow>
          (let d = d0\<lparr>kn_content := or_default (kn_content d0) content, kn_tags := or_default (kn_tags d0) tags,
                 kn_category := or_default (kn_category d0) category, kn_updated_at := now\<rparr>
           in (log_teach ''knowledge.update'' (kn_id d) (kn_title d)
                 (st\<lparr>td_db := insert_knowledge_doc d (td_db st)\<rparr>), Reply 200 d)))"

section \<open>Optimizations\<close>

definition optimize_suggest_handler ::
  "(string list \<Rightarrow> string) \<Rightarrow> timestamp \<Rightarrow> teachd \<Rightarrow> teachd \<times> optimization list reply" where
  "optimize_suggest_handler js now st =
     (case suggest_optimizations js now (td_db st) of
        (db, ss) \<Rightarrow>
          (let st1 = st\<lparr>td_db := db\<rparr>
           in (if ss = [] then st1
               else log_teach ''optimize.suggest'' ''teachd'' (dec (length ss) @ '' suggestions generated'') st1,
               Reply 200 ss)))"

definition optimize_approve_handler :: "teachd \<Rightarrow> string \<Rightarrow> teachd \<times> optimization reply" where
  "optimize_approve_handler st i =
     (case approve_optimization i (td_db st) of
        (db, None) \<Rightarrow> (st, Fail 400)
      | (db, Some x) \<Rightarrow> (log_teach ''optimize.approve'' i (op_description x) (st\<lparr>td_db := db\<rparr>), Reply 200 x))"

text \<open>The first critical section: look up, check, remember the optimization as read.\<close>

definition apply_start :: "teachd \<Rightarrow> string \<Rightarrow> teachd \<times> unit reply" where
  "apply_start st i =
     (case get_optimization (td_db st) i of
        None \<Rightarrow> (st, Fail 404)
      | Some x \<Rightarrow> if op_status x \<noteq> OptApproved then (st, Fail 400)
                 else (st\<lparr>td_applying := td_applying st @ [x]\<rparr>, Reply 200 ()))"

definition apply_result :: "string option \<Rightarrow> optimization \<Rightarrow> optimization" where
  "apply_result result x =
     (case result of
        Some switch_id \<Rightarrow> x\<lparr>op_status := Applied, op_switch := Some switch_id\<rparr>
      | None \<Rightarrow> x\<lparr>op_status := OptRolledBack\<rparr>)"

text \<open>The action and the second critical section, for the \<open>n\<close>-th optimization being applied.\<close>

definition apply_finish :: "apply_env \<Rightarrow> teachd \<Rightarrow> nat \<Rightarrow> teachd \<times> optimization reply" where
  "apply_finish env st n =
     (if length (td_applying st) \<le> n then (st, Fail 404)
      else let x = td_applying st ! n;
               (st1, result) = execute_and_apply env x
                 (st\<lparr>td_applying := take n (td_applying st) @ drop (Suc n) (td_applying st)\<rparr>);
               y = apply_result result x;
               db = (case result of
                       Some switch_id \<Rightarrow> update_optimization_status (op_id x) Applied (Some switch_id) (td_db st1)
                     | None \<Rightarrow> update_optimization_status (op_id x) OptRolledBack None (td_db st1))
           in (log_teach ''optimize.apply'' (op_id x) (''status='' @ opt_status_text (op_status y)) (st1\<lparr>td_db := db\<rparr>),
               Reply 200 y))"

section \<open>Actions and skills\<close>

definition observe_action_handler ::
  "string \<Rightarrow> timestamp \<Rightarrow> teachd \<Rightarrow> string \<Rightarrow> json option \<Rightarrow> string option \<Rightarrow> string option \<Rightarrow> string option \<Rightarrow>
   bool option \<Rightarrow> teachd \<times> agent_action reply" where
  "observe_action_handler uuid now st tool params result context session succ =
     (if trim tool = [] then (st, Fail 400)
      else let a = \<lparr>aa_id = ''act-'' @ uuid, aa_ts = now, aa_session = or_default ''default'' session, aa_tool = tool,
                 aa_params = or_default (JObj []) params, aa_result = result, aa_context = context,
                 aa_success = or_default True succ\<rparr>
           in (st\<lparr>td_db := insert_agent_action a (td_db st)\<rparr>, Reply 200 a))"

definition skill_detect_handler ::
  "(string list \<Rightarrow> string list) \<Rightarrow> (string list list \<Rightarrow> string list list) \<Rightarrow> timestamp \<Rightarrow> timestamp \<Rightarrow> teachd \<Rightarrow>
   teachd \<times> nat \<times> nat \<times> skill_candidate list" where
  "skill_detect_handler so wo cutoff now st =
     (let st1 = run_skillgen_cycle so wo cutoff now st; cs = list_skill_candidates (td_db st1) None 20
      in (st1, agent_action_count (td_db st1), length (filter (\<lambda>c. sk_status c = SkillPending) cs), cs))"

definition skill_generate_handler ::
  "bool \<Rightarrow> string \<Rightarrow> timestamp \<Rightarrow> teachd \<Rightarrow> string \<Rightarrow> teachd \<times> skill_candidate reply" where
  "skill_generate_handler io today now st i =
     (case get_skill_candidate (td_db st) i of
        None \<Rightarrow> (st, Fail 404)
      | Some c \<Rightarrow>
          (if sk_status c \<noteq> SkillPending then (st, Fail 400)
           else case write_skill_file io today c st of
                  (st1, None) \<Rightarrow> (st1, Fail 500)
                | (st1, Some p) \<Rightarrow>
                    (let c1 = c\<lparr>sk_status := Generated, sk_path := Some p, sk_updated_at := now\<rparr>
                     in (log_teach ''skill.generated'' (sk_name c1) (''path='' @ p)
                           (st1\<lparr>td_db := insert_skill_candidate c1 (td_db st1)\<rparr>), Reply 200 c1))))"

definition skill_promote_handler ::
  "bool \<Rightarrow> timestamp \<Rightarrow> teachd \<Rightarrow> string \<Rightarrow> teachd \<times> skill_candidate reply" where
  "skill_promote_handler io now st i =
     (case get_skill_candidate (td_db st) i of
        None \<Rightarrow> (st, Fail 404)
      | Some c \<Rightarrow>
          (if sk_status c \<noteq> Generated then (st, Fail 400)
           else let st1 = promote_skill_file io (sk_path c) st;
                    c1 = c\<lparr>sk_status := Promoted, sk_updated_at := now\<rparr>
                in (log_teach ''skill.promoted'' (sk_name c1) ''activation set to auto''
                      (st1\<lparr>td_db := insert_skill_candidate c1 (td_db st1)\<rparr>), Reply 200 c1)))"

definition skill_execution_handler ::
  "string \<Rightarrow> timestamp \<Rightarrow> teachd \<Rightarrow> string \<Rightarrow> string option \<Rightarrow> string \<Rightarrow> string option \<Rightarrow>
   teachd \<times> (skill_execution \<times> rat \<times> nat) reply" where
  "skill_execution_handler uuid now st skill session outcome notes =
     (let e = \<lparr>ex_id = ''se-'' @ uuid, ex_skill = skill, ex_session = or_default ''default'' session, ex_ts = now,
            ex_outcome = outcome, ex_notes = notes\<rparr>;
          db = insert_skill_execution e (td_db st);
          r = skill_success_rate db skill;
          rate = (if 0 < snd r then success_fraction r else 0)
      in (log_teach ''skill.executed'' skill
            (''outcome='' @ outcome @ '', rate='' @ fixed 0 (rate * 100) @ ''% ('' @ dec (fst r) @ ''/'' @ dec (snd r) @ '')'')
            (st\<lparr>td_db := db\<rparr>), Reply 200 (e, rate, snd r)))"

section \<open>The daemon\<close>

record teach_world =
  tw_json :: "string list \<Rightarrow> string"
  tw_parse :: "string \<Rightarrow> json option"
  tw_time :: "timestamp \<Rightarrow> int"
  tw_show :: "timestamp \<Rightarrow> string"
  tw_names :: "string list \<Rightarrow> string list"
  tw_seqs :: "string list list \<Rightarrow> string list list"

datatype teach_call =
    Observe observed
  | Learn timestamp timestamp
  | Skillgen timestamp timestamp
  | VerifyCycle bool timestamp
  | CreateDoc string timestamp string string string "string list option"
  | UpdateDoc timestamp string "string option" "string list option" "string option"
  | Suggest timestamp
  | ApproveOpt string
  | ApplyStart string
  | ApplyFinish apply_env nat
  | ObserveAction string timestamp string "json option" "string option" "string option" "string option" "bool option"
  | GenerateSkill bool string timestamp string
  | PromoteSkill bool timestamp string
  | SkillExecuted string timestamp string "string option" string "string option"

fun teach_step :: "teach_world \<Rightarrow> teachd \<Rightarrow> teach_call \<Rightarrow> teachd" where
  "teach_step w st (Observe t) = st\<lparr>td_db := observer_tick (tw_parse w) t (td_db st)\<rparr>"
| "teach_step w st (Learn since now) =
     st\<lparr>td_db := run_learning_cycle (tw_names w) (tw_time w) (tw_show w) since now (td_db st)\<rparr>"
| "teach_step w st (Skillgen cutoff now) = run_skillgen_cycle (tw_names w) (tw_seqs w) cutoff now st"
| "teach_step w st (VerifyCycle io now) = fst (run_verify_cycle io now st)"
| "teach_step w st (CreateDoc u now title cat content tags) = fst (knowledge_create_handler u now st title cat content tags)"
| "teach_step w st (UpdateDoc now i content tags cat) = fst (knowledge_update_handler now st i content tags cat)"
| "teach_step w st (Suggest now) = fst (optimize_suggest_handler (tw_json w) now st)"
| "teach_step w st (ApproveOpt i) = fst (optimize_approve_handler st i)"
| "teach_step w st (ApplyStart i) = fst (apply_start st i)"
| "teach_step w st (ApplyFinish env n) = fst (apply_finish env st n)"
| "teach_step w st (ObserveAction u now tool ps res ctx ses succ) =
     fst (observe_action_handler u now st tool ps res ctx ses succ)"
| "teach_step w st (GenerateSkill io today now i) = fst (skill_generate_handler io today now st i)"
| "teach_step w st (PromoteSkill io now i) = fst (skill_promote_handler io now st i)"
| "teach_step w st (SkillExecuted u now skill ses outcome notes) =
     fst (skill_execution_handler u now st skill ses outcome notes)"

definition start_teachd :: "string \<Rightarrow> teachd" where
  "start_teachd dir = \<lparr>td_db = init_db, td_skills_dir = dir, td_files = (\<lambda>_. None), td_receipts = [],
     td_applying = [], td_ran = [], td_switches = []\<rparr>"


section \<open>What the calls leave alone\<close>

named_theorems teach_frames \<open>parts of the state that an operation leaves alone\<close>

definition opt_part :: "teachd \<Rightarrow> optimization list \<times> optimization list \<times> (string \<times> opt_action) list" where
  "opt_part st = (db_opts (td_db st), td_applying st, td_ran st)"

definition skill_part :: "teachd \<Rightarrow> string \<times> skill_candidate list \<times> (string \<Rightarrow> string option)" where
  "skill_part st = (td_skills_dir st, db_candidates (td_db st), td_files st)"

lemma opt_part_db [simp]: "opt_part (st\<lparr>td_db := db\<rparr>) = (db_opts db, snd (opt_part st))"
  by (simp add: opt_part_def)

lemma opt_part_pair [simp]: "(db_opts (td_db st), snd (opt_part st)) = opt_part st"
  by (simp add: opt_part_def)

lemma insert_frames [simp]:
  "db_opts (insert_skill_candidate c db) = db_opts db" "db_opts (insert_skill_execution e db) = db_opts db"
  "db_opts (insert_agent_action a db) = db_opts db" "db_opts (insert_knowledge_doc d db) = db_opts db"
  "db_candidates (insert_knowledge_doc d db) = db_candidates db"
  "db_candidates (insert_skill_execution e db) = db_candidates db"
  "db_candidates (insert_agent_action a db) = db_candidates db"
  "db_executions (insert_skill_candidate c db) = db_executions db"
  by (simp_all add: insert_skill_candidate_def insert_skill_execution_def insert_agent_action_def insert_knowledge_doc_def)

lemma log_teach_frame [teach_frames, simp]:
  "td_db (log_teach e s d st) = td_db st" "opt_part (log_teach e s d st) = opt_part st"
  "skill_part (log_teach e s d st) = skill_part st" "td_files (log_teach e s d st) = td_files st"
  "td_applying (log_teach e s d st) = td_applying st" "td_ran (log_teach e s d st) = td_ran st"
  "td_skills_dir (log_teach e s d st) = td_skills_dir st"
  by (simp_all add: log_teach_def opt_part_def skill_part_def)

lemma learn_frame [teach_frames]:
  "db_opts (run_learning_cycle ho tm sh since now db) = db_opts db"
  "db_candidates (run_learning_cycle ho tm sh since now db) = db_candidates db"
  "db_executions (run_learning_cycle ho tm sh since now db) = db_executions db"
proof -
  have step: "db_opts (learn_pattern sh now db p) = db_opts db"
    "db_candidates (learn_pattern sh now db p) = db_candidates db"
    "db_executions (learn_pattern sh now db p) = db_executions db" for db p
    by (simp_all add: learn_pattern_def Let_def upsert_pattern_def generate_knowledge_from_pattern_def insert_knowledge_doc_def)
  show "db_opts (run_learning_cycle ho tm sh since now db) = db_opts db"
    "db_candidates (run_learning_cycle ho tm sh since now db) = db_candidates db"
    "db_executions (run_learning_cycle ho tm sh since now db) = db_executions db"
    unfolding run_learning_cycle_def Let_def
    by (simp_all add: foldl_frame [where g = db_opts, OF step(1)] foldl_frame [where g = db_candidates, OF step(2)]
        foldl_frame [where g = db_executions, OF step(3)])
qed

lemma consider_frame: "opt_part (consider_sequence now st q) = opt_part st"
  by (simp add: consider_sequence_def Let_def)

lemma skillgen_frame [teach_frames]: "opt_part (run_skillgen_cycle so wo cutoff now st) = opt_part st"
  unfolding run_skillgen_cycle_def by (rule foldl_frame [where g = opt_part, OF consider_frame])

lemma rewrite_frame [simp]:
  "td_db (rewrite_file io a b p st) = td_db st" "opt_part (rewrite_file io a b p st) = opt_part st"
  "td_skills_dir (rewrite_file io a b p st) = td_skills_dir st"
  by (simp_all add: rewrite_file_def opt_part_def split: option.split)

lemma verify_candidate_opts: "opt_part (fst (verify_candidate io now acc c)) = opt_part (fst acc)"
  by (simp add: verify_candidate_def Let_def promote_skill_file_def retire_skill_file_def split: prod.split)

lemma verify_frame [teach_frames]: "opt_part (fst (run_verify_cycle io now st)) = opt_part st"
proof -
  have "opt_part (fst (foldl (verify_candidate io now) acc cs)) = opt_part (fst acc)" for acc cs
    by (rule foldl_frame [where g = "\<lambda>a. opt_part (fst a)"]) (rule verify_candidate_opts)
  then show ?thesis by (simp add: run_verify_cycle_def del: foldl_append)
qed

lemma write_skill_frame [simp]:
  "td_db (fst (write_skill_file io t c st)) = td_db st" "opt_part (fst (write_skill_file io t c st)) = opt_part st"
  "td_skills_dir (fst (write_skill_file io t c st)) = td_skills_dir st"
  by (simp_all add: write_skill_file_def Let_def opt_part_def)

lemma skill_handlers_frame [teach_frames]:
  "opt_part (fst (skill_generate_handler io today now st i)) = opt_part st"
  "opt_part (fst (skill_promote_handler io now st i)) = opt_part st"
  "opt_part (fst (skill_execution_handler u now st skill ses outcome notes)) = opt_part st"
  "opt_part (fst (observe_action_handler u now st tool ps res ctx ses succ)) = opt_part st"
proof -
  have w: "opt_part st1 = opt_part st \<and> td_db st1 = td_db st" if "write_skill_file io today c st = (st1, r)" for c st1 r
    using write_skill_frame(1,2) [of io today c st] that by simp
  show "opt_part (fst (skill_generate_handler io today now st i)) = opt_part st"
    by (auto simp: skill_generate_handler_def Let_def dest!: w split: option.split prod.split)
qed (simp_all add: skill_promote_handler_def skill_execution_handler_def observe_action_handler_def Let_def
  promote_skill_file_def split: option.split)

lemma knowledge_frame [teach_frames]:
  "opt_part (fst (knowledge_create_handler u now st title cat content tags)) = opt_part st"
  "opt_part (fst (knowledge_update_handler now st i content' tags' cat')) = opt_part st"
  "skill_part (fst (knowledge_create_handler u now st title cat content tags)) = skill_part st"
  "skill_part (fst (knowledge_update_handler now st i content' tags' cat')) = skill_part st"
  by (simp_all add: knowledge_create_handler_def knowledge_update_handler_def Let_def skill_part_def split: option.split)

lemma tick_opt_part [teach_frames]:
  "opt_part (st\<lparr>td_db := observer_tick pj t (td_db st)\<rparr>) = opt_part st"
  "opt_part (st\<lparr>td_db := run_learning_cycle ho tm sh since now (td_db st)\<rparr>) = opt_part st"
  "skill_part (st\<lparr>td_db := observer_tick pj t (td_db st)\<rparr>) = skill_part st"
  "skill_part (st\<lparr>td_db := run_learning_cycle ho tm sh since now (td_db st)\<rparr>) = skill_part st"
  by (simp_all add: skill_part_def observer_tick_frame learn_frame)

text \<open>Only the four calls about optimizations touch them.\<close>

lemma opt_part_step:
  "\<forall>now. c \<noteq> Suggest now \<Longrightarrow> \<forall>i. c \<noteq> ApproveOpt i \<Longrightarrow> \<forall>i. c \<noteq> ApplyStart i \<Longrightarrow> \<forall>env n. c \<noteq> ApplyFinish env n \<Longrightarrow>
   opt_part (teach_step w st c) = opt_part st"
  by (cases c) (simp_all add: teach_frames observer_tick_frame)

section \<open>Optimizations: only what was approved is applied\<close>

definition opt_ready :: "teachd \<Rightarrow> string \<times> opt_action \<Rightarrow> bool" where
  "opt_ready st x =
     ((\<exists>p. get_optimization (td_db st) (fst x) = Some p \<and> op_action p = snd x \<and> op_status p = OptApproved) \<or>
      (\<exists>p \<in> set (td_applying st). op_id p = fst x \<and> op_action p = snd x) \<or> x \<in> set (td_ran st))"

text \<open>An approval of the optimization while it was suggested with this action.\<close>

fun opt_grants :: "teachd \<Rightarrow> teach_call \<Rightarrow> string \<times> opt_action \<Rightarrow> bool" where
  "opt_grants st (ApproveOpt i) x = (i = fst x \<and>
     (case get_optimization (td_db st) i of None \<Rightarrow> False | Some p \<Rightarrow> op_action p = snd x \<and> op_status p = Suggested))"
| "opt_grants st _ x = False"

fun_cases opt_grantsE: "opt_grants st e x"

lemma opt_ready_frame: "opt_part st' = opt_part st \<Longrightarrow> opt_ready st' x = opt_ready st x"
  by (simp add: opt_ready_def opt_part_def get_optimization_def)

lemma suggestion_suggested: "suggestion now d = Some p \<Longrightarrow> op_status p = Suggested"
  by (auto simp: suggestion_def split: prod.splits option.splits)

lemma suggestions_suggested:
  "get_optimization (fst (suggest_optimizations js now db)) i = Some p \<Longrightarrow>
   op_status p = Suggested \<or> get_optimization db i = Some p"
proof -
  let ?ss = "snd (suggest_optimizations js now db)"
  have ss: "\<forall>p \<in> set ?ss. op_status p = Suggested"
    by (auto simp: suggest_optimizations_def Let_def set_map_filter dest: suggestion_suggested)
  have "op_status p = Suggested \<or> get_optimization db i = Some p"
    if "\<forall>p \<in> set ss. op_status p = Suggested" "get_optimization (foldl (\<lambda>db x. insert_optimization x db) db ss) i = Some p" for ss
    using that
  proof (induction ss arbitrary: db)
    case (Cons a ss)
    then have "op_status p = Suggested \<or> get_optimization (insert_optimization a db) i = Some p" by simp
    then show ?case using Cons.prems(1) by (auto simp: opts.get_put split: if_splits)
  qed simp
  from this [OF ss] show "get_optimization (fst (suggest_optimizations js now db)) i = Some p \<Longrightarrow>
      op_status p = Suggested \<or> get_optimization db i = Some p"
    by (simp add: suggest_optimizations_def Let_def)
qed

lemma suggest_handler_state:
  "td_applying (fst (optimize_suggest_handler js now st)) = td_applying st"
  "td_ran (fst (optimize_suggest_handler js now st)) = td_ran st"
  "td_db (fst (optimize_suggest_handler js now st)) = fst (suggest_optimizations js now (td_db st))"
  by (auto simp: optimize_suggest_handler_def Let_def split: prod.split)

lemma approve_handler_cases:
  "optimize_approve_handler st i = (st, Fail 400) \<or>
   (\<exists>p. get_optimization (td_db st) i = Some p \<and> op_status p = Suggested \<and>
      fst (optimize_approve_handler st i) = log_teach ''optimize.approve'' i (op_description p)
        (st\<lparr>td_db := update_optimization_status i OptApproved None (td_db st)\<rparr>))"
  by (auto simp: optimize_approve_handler_def approve_optimization_def split: option.split)

lemma execute_state:
  "td_db (fst (execute_and_apply env x st)) = td_db st"
  "td_applying (fst (execute_and_apply env x st)) = td_applying st"
  "set (td_ran (fst (execute_and_apply env x st))) \<subseteq> insert (op_id x, op_action x) (set (td_ran st))"
  by (auto simp: execute_and_apply_def Let_def split: option.split)

lemma apply_finish_state:
  assumes "n < length (td_applying st)"
  shows "td_applying (fst (apply_finish env st n)) = take n (td_applying st) @ drop (Suc n) (td_applying st)"
    and "set (td_ran (fst (apply_finish env st n))) \<subseteq>
      insert (op_id (td_applying st ! n), op_action (td_applying st ! n)) (set (td_ran st))"
    and "\<exists>s sw. s \<noteq> OptApproved \<and> td_db (fst (apply_finish env st n)) =
      update_optimization_status (op_id (td_applying st ! n)) s sw (td_db st)"
proof -
  let ?x = "td_applying st ! n" and ?st = "st\<lparr>td_applying := take n (td_applying st) @ drop (Suc n) (td_applying st)\<rparr>"
  obtain st1 r where e: "execute_and_apply env ?x ?st = (st1, r)" by (cases "execute_and_apply env ?x ?st")
  note x = execute_state [of env ?x ?st, unfolded e fst_conv]
  show "td_applying (fst (apply_finish env st n)) = take n (td_applying st) @ drop (Suc n) (td_applying st)"
    "set (td_ran (fst (apply_finish env st n))) \<subseteq> insert (op_id ?x, op_action ?x) (set (td_ran st))"
    using assms x by (simp_all add: apply_finish_def Let_def e)
  show "\<exists>s sw. s \<noteq> OptApproved \<and> td_db (fst (apply_finish env st n)) = update_optimization_status (op_id ?x) s sw (td_db st)"
    using assms x by (cases r) (auto simp: apply_finish_def Let_def e)
qed

lemma update_not_approved:
  "s \<noteq> OptApproved \<Longrightarrow> get_optimization (update_optimization_status i s sw db) k = Some p \<Longrightarrow>
   op_status p = OptApproved \<Longrightarrow> get_optimization db k = Some p"
  by (auto simp: get_optimization_update split: if_splits)

lemma opt_ready_step:
  assumes "opt_ready (teach_step w st c) x"
  shows "opt_ready st x \<or> opt_grants st c x"
proof -
  consider (sug) now where "c = Suggest now" | (app) i where "c = ApproveOpt i" | (start) i where "c = ApplyStart i"
    | (fin) env n where "c = ApplyFinish env n"
    | (other) "opt_part (teach_step w st c) = opt_part st"
    using opt_part_step [of c w st] by blast
  then show ?thesis
  proof cases
    case sug
    with assms show ?thesis
      by (fastforce simp: opt_ready_def suggest_handler_state dest: suggestions_suggested)
  next
    case app
    show ?thesis
    proof (cases "optimize_approve_handler st i = (st, Fail 400)")
      case True
      with assms app show ?thesis by simp
    next
      case False
      with approve_handler_cases [of st i] obtain p where p: "get_optimization (td_db st) i = Some p" "op_status p = Suggested"
        and st': "fst (optimize_approve_handler st i) = log_teach ''optimize.approve'' i (op_description p)
          (st\<lparr>td_db := update_optimization_status i OptApproved None (td_db st)\<rparr>)" by blast
      show ?thesis
      proof (cases "fst x = i")
        case True
        with assms p opts.get_key [OF p(1)] show ?thesis
          by (cases "op_action p = snd x") (auto simp: app st' opt_ready_def get_optimization_update)
      next
        case False
        have "get_optimization (update_optimization_status i OptApproved None (td_db st)) (fst x) = get_optimization (td_db st) (fst x)"
          using False by (cases "get_optimization (td_db st) (fst x)") (auto simp: get_optimization_update dest: opts.get_key)
        with assms show ?thesis by (simp add: app st' opt_ready_def)
      qed
    qed
  next
    case start
    with assms show ?thesis
      by (auto simp: opt_ready_def apply_start_def split: option.splits if_splits) (metis opts.get_key)
  next
    case fin
    show ?thesis
    proof (cases "n < length (td_applying st)")
      case True
      note f = apply_finish_state [OF True, of env]
      have y: "td_applying st ! n \<in> set (td_applying st)" using True by simp
      have applying: "set (td_applying (fst (apply_finish env st n))) \<subseteq> set (td_applying st)"
        unfolding f by (auto dest: in_set_takeD in_set_dropD)
      consider p where "get_optimization (td_db (fst (apply_finish env st n))) (fst x) = Some p"
          "op_action p = snd x" "op_status p = OptApproved"
        | p where "p \<in> set (td_applying (fst (apply_finish env st n)))" "op_id p = fst x" "op_action p = snd x"
        | "x \<in> set (td_ran (fst (apply_finish env st n)))"
        using assms fin unfolding opt_ready_def by auto
      then have "opt_ready st x"
      proof cases
        case (1 p)
        obtain s sw where "s \<noteq> OptApproved" and
          db: "td_db (fst (apply_finish env st n)) = update_optimization_status (op_id (td_applying st ! n)) s sw (td_db st)"
          using f(3) by blast
        then have "get_optimization (td_db st) (fst x) = Some p"
          using update_not_approved 1 unfolding db by blast
        with 1 show ?thesis by (simp add: opt_ready_def)
      next
        case (2 p)
        then have "p \<in> set (td_applying st)" using applying by blast
        with 2 show ?thesis unfolding opt_ready_def by blast
      next
        case 3
        then have "x = (op_id (td_applying st ! n), op_action (td_applying st ! n)) \<or> x \<in> set (td_ran st)"
          using f(2) by blast
        with y show ?thesis unfolding opt_ready_def by auto
      qed
      then show ?thesis ..
    next
      case False
      with assms fin show ?thesis by (simp add: apply_finish_def)
    qed
  next
    case other
    with assms show ?thesis by (simp add: opt_ready_frame [OF other])
  qed
qed

interpretation approved_opts: authorised opt_ready opt_grants "\<lambda>_. True" "teach_step w" for w
  by unfold_locales (simp_all add: opt_ready_step)

section \<open>Optimizations: which actions exist\<close>

text \<open>What the optimizer suggests: restarting a service, or one fixed kernel setting.\<close>

fun tame :: "opt_action \<Rightarrow> bool" where
  "tame (ServiceRestart name) = (name \<noteq> [])"
| "tame (Sysctl k v) = (k = ''vm.overcommit_memory'' \<and> v = ''0'')"
| "tame _ = False"

definition opts_tame :: "teachd \<Rightarrow> bool" where
  "opts_tame st =
     (list_all (\<lambda>p. tame (op_action p)) (db_opts (td_db st)) \<and> list_all (\<lambda>p. tame (op_action p)) (td_applying st) \<and>
      list_all (\<lambda>x. tame (snd x)) (td_ran st))"

lemma choice_tame:
  "(if b \<and> s \<noteq> [] then (t1, Some (ServiceRestart s))
    else if m then (t2, Some (Sysctl ''vm.overcommit_memory'' ''0'')) else (t3, None)) = (t, Some a) \<Longrightarrow> tame a"
  by (auto split: if_splits)

lemma suggest_action_tame: "suggest_action_for_doc d = (t, Some a) \<Longrightarrow> tame a"
  unfolding suggest_action_for_doc_def Let_def by (rule choice_tame)

lemma suggestion_tame: "suggestion now d = Some p \<Longrightarrow> tame (op_action p)"
  by (cases "suggest_action_for_doc d") (auto simp: suggestion_def dest: suggest_action_tame split: option.splits)

lemma insert_tame:
  "tame (op_action a) \<Longrightarrow> list_all (\<lambda>p. tame (op_action p)) (db_opts db) \<Longrightarrow>
   list_all (\<lambda>p. tame (op_action p)) (db_opts (insert_optimization a db))"
  by (simp add: insert_optimization_def upsert_def list_all_iff)

lemma suggestions_tame:
  "list_all (\<lambda>p. tame (op_action p)) (db_opts db) \<Longrightarrow>
   list_all (\<lambda>p. tame (op_action p)) (db_opts (fst (suggest_optimizations js now db)))"
proof -
  have "list_all (\<lambda>p. tame (op_action p)) (db_opts (foldl (\<lambda>db x. insert_optimization x db) db ss))"
    if "\<forall>p \<in> set ss. tame (op_action p)" "list_all (\<lambda>p. tame (op_action p)) (db_opts db)" for ss
    using that by (induction ss arbitrary: db) (simp_all add: insert_tame)
  moreover have "\<forall>p \<in> set (List.map_filter (suggestion now) ds). tame (op_action p)" for ds
    by (auto simp: set_map_filter dest: suggestion_tame)
  ultimately show "list_all (\<lambda>p. tame (op_action p)) (db_opts db) \<Longrightarrow>
      list_all (\<lambda>p. tame (op_action p)) (db_opts (fst (suggest_optimizations js now db)))"
    by (simp add: suggest_optimizations_def Let_def)
qed

lemma update_tame:
  "list_all (\<lambda>p. tame (op_action p)) (db_opts db) \<Longrightarrow>
   list_all (\<lambda>p. tame (op_action p)) (db_opts (update_optimization_status i s sw db))"
  by (auto simp: update_optimization_status_def sql_update_rows list_all_iff)

lemma opts_tame_step: "opts_tame st \<Longrightarrow> opts_tame (teach_step w st c)"
proof -
  assume tame: "opts_tame st"
  consider (sug) now where "c = Suggest now" | (app) i where "c = ApproveOpt i" | (start) i where "c = ApplyStart i"
    | (fin) env n where "c = ApplyFinish env n"
    | (other) "opt_part (teach_step w st c) = opt_part st"
    using opt_part_step [of c w st] by blast
  then show ?thesis
  proof cases
    case sug
    with tame show ?thesis by (simp add: opts_tame_def suggest_handler_state suggestions_tame)
  next
    case app
    with tame approve_handler_cases [of st i] show ?thesis by (auto simp: opts_tame_def update_tame)
  next
    case start
    with tame show ?thesis
      by (auto simp: opts_tame_def apply_start_def get_optimization_def list_all_iff dest: find_by_Some
          split: option.split)
  next
    case fin
    show ?thesis
    proof (cases "n < length (td_applying st)")
      case True
      note f = apply_finish_state [OF True, of env]
      have "td_applying st ! n \<in> set (td_applying st)" using True by simp
      then have "tame (op_action (td_applying st ! n))" using tame by (simp add: opts_tame_def list_all_iff)
      moreover have "set (td_applying (fst (apply_finish env st n))) \<subseteq> set (td_applying st)"
        unfolding f by (auto dest: in_set_takeD in_set_dropD)
      moreover have "list_all (\<lambda>p. tame (op_action p)) (db_opts (td_db (fst (apply_finish env st n))))"
        using f(3) tame update_tame by (auto simp: opts_tame_def)
      ultimately show ?thesis using f(2) tame fin by (fastforce simp: opts_tame_def list_all_iff)
    next
      case False
      with tame fin show ?thesis by (simp add: apply_finish_def)
    qed
  next
    case other
    with tame show ?thesis by (simp add: opts_tame_def opt_part_def)
  qed
qed

lemma start_tame: "opts_tame (start_teachd dir)"
  by (simp add: opts_tame_def start_teachd_def init_db_def)

lemma run_tame: "opts_tame (foldl (teach_step w) (start_teachd dir) cs)"
  by (rule foldl_invariant) (auto intro: opts_tame_step start_tame)

text \<open>Suggesting again puts an optimization back to the start, whatever became of it.\<close>

lemma suggest_resets:
  assumes "d \<in> set (list_knowledge_docs js db None None 50)" and "\<not> kn_applied d" and "suggestion now d = Some p"
  shows "\<exists>q. get_optimization (fst (suggest_optimizations js now db)) (op_id p) = Some q \<and> op_status q = Suggested"
proof -
  let ?ss = "snd (suggest_optimizations js now db)"
  have p: "p \<in> set ?ss"
    using assms by (auto simp: suggest_optimizations_def Let_def set_map_filter)
  have ss: "\<forall>q \<in> set ?ss. op_status q = Suggested"
    by (auto simp: suggest_optimizations_def Let_def set_map_filter dest: suggestion_suggested)
  have keep: "\<exists>q. get_optimization (foldl (\<lambda>db x. insert_optimization x db) db qs) i = Some q \<and> op_status q = Suggested"
    if "\<forall>q \<in> set qs. op_status q = Suggested" "i \<in> op_id ` set qs \<or> (\<exists>q. get_optimization db i = Some q \<and> op_status q = Suggested)" for qs i
    using that
  proof (induction qs arbitrary: db)
    case (Cons a qs)
    have "i \<in> op_id ` set qs \<or> (\<exists>q. get_optimization (insert_optimization a db) i = Some q \<and> op_status q = Suggested)"
      using Cons.prems by (auto simp: opts.get_put)
    then show ?case using Cons.IH [of "insert_optimization a db"] Cons.prems(1) by simp
  qed simp
  from keep [OF ss, of "op_id p"] p show ?thesis by (auto simp: suggest_optimizations_def Let_def)
qed

end
