(* ===== verification/SkillLife.thy ===== *)
theory SkillLife
  imports Teachd
begin

text \<open>
  The life of a learned skill over all calls of the learning daemon: what one call may do to a
  skill candidate (\<open>skill_move\<close>), that this refines a small state machine on the statuses alone
  (\<open>life_step\<close>), that only an operator or five executions with a success rate of four fifths
  promote a skill, that a rejected or retired skill stays as it is, and which files are written.
\<close>

section \<open>One key, one row\<close>

definition ids_ok :: "teachd \<Rightarrow> bool" where
  "ids_ok st = distinct (List.map sk_id (db_candidates (td_db st)))"

abbreviation skill_of :: "teachd \<Rightarrow> string \<Rightarrow> skill_candidate option" where
  "skill_of st \<equiv> get_skill_candidate (td_db st)"

lemma ids_ok_frame: "skill_part st' = skill_part st \<Longrightarrow> ids_ok st' = ids_ok st"
  by (simp add: ids_ok_def skill_part_def)

lemma skill_of_frame: "skill_part st' = skill_part st \<Longrightarrow> skill_of st' = skill_of st"
  by (rule ext) (simp add: get_skill_candidate_def skill_part_def)

lemma distinct_upsert: "distinct (List.map key rs) \<Longrightarrow> distinct (List.map key (upsert key r rs))"
  by (auto simp: upsert_def distinct_map inj_on_def)

lemma ids_ok_insert: "ids_ok st \<Longrightarrow> td_db st' = insert_skill_candidate c (td_db st) \<Longrightarrow> ids_ok st'"
  by (simp add: ids_ok_def insert_skill_candidate_def distinct_upsert)

lemma ids_ok_db: "ids_ok st \<Longrightarrow> td_db st' = td_db st \<Longrightarrow> ids_ok st'"
  by (simp add: ids_ok_def)

lemma skill_of_row: "ids_ok st \<Longrightarrow> c \<in> set (db_candidates (td_db st)) \<Longrightarrow> skill_of st (sk_id c) = Some c"
  by (simp add: ids_ok_def get_skill_candidate_def find_by_distinct)

lemma listed_candidates:
  assumes "ids_ok st"
  shows "set (list_skill_candidates (td_db st) s n) \<subseteq> {c \<in> set (db_candidates (td_db st)). opt_eq s (skill_status_text (sk_status c))}"
    and "distinct (List.map sk_id (list_skill_candidates (td_db st) s n))"
proof -
  let ?f = "filter (\<lambda>c. opt_eq s (skill_status_text (sk_status c))) (db_candidates (td_db st))"
  let ?b = "best (\<lambda>c. (sk_confidence c, sk_sessions c)) ?f"
  show "set (list_skill_candidates (td_db st) s n) \<subseteq> {c \<in> set (db_candidates (td_db st)). opt_eq s (skill_status_text (sk_status c))}"
    using set_take_subset [of n ?b] by (auto simp: list_skill_candidates_def)
  have "distinct (List.map sk_id ?f)" using assms by (simp add: ids_ok_def distinct_map_filter)
  then have "distinct (List.map sk_id ?b)" by (auto simp: distinct_map best_def)
  then show "distinct (List.map sk_id (list_skill_candidates (td_db st) s n))"
    unfolding list_skill_candidates_def take_map [symmetric] by (rule distinct_take)
qed

section \<open>What one verification cycle does to a candidate\<close>

definition verified :: "timestamp \<Rightarrow> teach_db \<Rightarrow> skill_candidate \<Rightarrow> skill_candidate" where
  "verified now db c =
     (let r = skill_success_rate db (sk_name c); rate = success_fraction r
      in if snd r < min_executions \<or> sk_status c \<noteq> Generated \<and> sk_status c \<noteq> Promoted then c
         else c\<lparr>sk_confidence := blended_confidence (sk_confidence c) rate, sk_updated_at := now,
                sk_status := verdict (sk_status c) rate\<rparr>)"

lemma success_rate_cong: "db_executions db' = db_executions db \<Longrightarrow> skill_success_rate db' n = skill_success_rate db n"
  by (simp add: skill_success_rate_def)

lemma verified_cong: "db_executions db' = db_executions db \<Longrightarrow> verified now db' c = verified now db c"
  by (simp add: verified_def success_rate_cong [of db' db])

lemma verified_id [simp]: "sk_id (verified now db c) = sk_id c" "sk_path (verified now db c) = sk_path c"
  "sk_name (verified now db c) = sk_name c"
  by (simp_all add: verified_def Let_def)

lemma file_frames [simp]:
  "td_db (promote_skill_file io p st) = td_db st" "td_db (retire_skill_file io p st) = td_db st"
  "td_skills_dir (promote_skill_file io p st) = td_skills_dir st"
  "td_skills_dir (retire_skill_file io p st) = td_skills_dir st"
  by (simp_all add: promote_skill_file_def retire_skill_file_def)

lemma verify_candidate_db:
  "td_db (fst (verify_candidate io now (st, res) c)) = td_db st \<and> verified now (td_db st) c = c \<or>
   td_db (fst (verify_candidate io now (st, res) c)) = insert_skill_candidate (verified now (td_db st) c) (td_db st)"
  by (simp add: verify_candidate_def verified_def Let_def)

lemma verify_candidate_get:
  assumes "skill_of st (sk_id c) = Some c"
  shows "skill_of (fst (verify_candidate io now (st, res) c)) k =
     (if k = sk_id c then Some (verified now (td_db st) c) else skill_of st k)"
  using verify_candidate_db [of io now st res c] assms by (auto simp: candidates.get_put)

lemma verify_candidate_executions:
  "db_executions (td_db (fst (verify_candidate io now (st, res) c))) = db_executions (td_db st)"
  using verify_candidate_db [of io now st res c] by auto

lemma verify_candidate_dir: "td_skills_dir (fst (verify_candidate io now acc c)) = td_skills_dir (fst acc)"
  by (simp add: verify_candidate_def Let_def split: prod.split)

lemma verify_ids_ok: "ids_ok st \<Longrightarrow> ids_ok (fst (verify_candidate io now (st, res) c))"
  using verify_candidate_db [of io now st res c] ids_ok_insert ids_ok_db by blast

lemma verify_fold_get:
  assumes "distinct (List.map sk_id cs)" and "\<And>c. c \<in> set cs \<Longrightarrow> skill_of st (sk_id c) = Some c"
  shows "skill_of (fst (foldl (verify_candidate io now) (st, res) cs)) k =
     map_option (\<lambda>c. if c \<in> set cs then verified now (td_db st) c else c) (skill_of st k)"
  using assms
proof (induction cs arbitrary: st res)
  case Nil
  show ?case by (simp add: option.map_ident)
next
  case (Cons c cs)
  obtain st1 res1 where v: "verify_candidate io now (st, res) c = (st1, res1)" by (meson surj_pair)
  note g = verify_candidate_get [OF Cons.prems(2) [of c, simplified], of io now res, unfolded v fst_conv]
  have e: "db_executions (td_db st1) = db_executions (td_db st)"
    using verify_candidate_executions [of io now st res c] by (simp add: v)
  have "skill_of st1 (sk_id d) = Some d" if d: "d \<in> set cs" for d
  proof -
    have "sk_id d \<noteq> sk_id c" using d Cons.prems(1) by (metis distinct.simps(2) image_eqI image_set list.simps(9))
    then show ?thesis using Cons.prems(2) [of d] d by (simp add: g)
  qed
  then have ih: "skill_of (fst (foldl (verify_candidate io now) (st1, res1) cs)) k =
     map_option (\<lambda>c. if c \<in> set cs then verified now (td_db st1) c else c) (skill_of st1 k)"
    using Cons.IH Cons.prems(1) by simp
  show ?case
  proof (cases "k = sk_id c")
    case True
    have "verified now (td_db st) c \<notin> set cs"
    proof
      assume "verified now (td_db st) c \<in> set cs"
      then have "sk_id (verified now (td_db st) c) \<in> sk_id ` set cs" by (rule imageI)
      then show False using Cons.prems(1) by simp
    qed
    then show ?thesis using True Cons.prems(2) [of c] by (simp add: v ih [unfolded True] g)
  next
    case False
    then show ?thesis
      by (cases "skill_of st k") (auto simp: v ih g verified_cong [OF e] dest: candidates.get_key)
  qed
qed


text \<open>A whole cycle judges the hundred best generated and the hundred best promoted candidates.\<close>

definition judged :: "teachd \<Rightarrow> skill_candidate list" where
  "judged st = list_skill_candidates (td_db st) (Some ''generated'') 100 @
     list_skill_candidates (td_db st) (Some ''promoted'') 100"

lemma judged_status:
  assumes "ids_ok st" and "c \<in> set (judged st)"
  shows "c \<in> set (db_candidates (td_db st))" and "sk_status c = Generated \<or> sk_status c = Promoted"
proof -
  have "c \<in> set (db_candidates (td_db st)) \<and>
      (skill_status_text (sk_status c) = ''generated'' \<or> skill_status_text (sk_status c) = ''promoted'')"
    using assms(2) listed_candidates(1) [OF assms(1)] by (fastforce simp: judged_def opt_eq_def)
  then show "c \<in> set (db_candidates (td_db st))" "sk_status c = Generated \<or> sk_status c = Promoted"
    by (cases "sk_status c"; simp)+
qed

lemma judged_distinct:
  assumes "ids_ok st"
  shows "distinct (List.map sk_id (judged st))"
proof -
  let ?g = "list_skill_candidates (td_db st) (Some ''generated'') 100"
  let ?p = "list_skill_candidates (td_db st) (Some ''promoted'') 100"
  have "sk_id c \<noteq> sk_id d" if "c \<in> set ?g" "d \<in> set ?p" for c d
  proof
    assume same: "sk_id c = sk_id d"
    have c: "c \<in> set (db_candidates (td_db st))" "skill_status_text (sk_status c) = ''generated''"
      and d: "d \<in> set (db_candidates (td_db st))" "skill_status_text (sk_status d) = ''promoted''"
      using that listed_candidates(1) [OF assms] by (fastforce simp: opt_eq_def)+
    then have "c = d" using same skill_of_row [OF assms] by (metis option.inject)
    with c d show False by simp
  qed
  then show ?thesis using listed_candidates(2) [OF assms] by (auto simp: judged_def)
qed

lemma verify_cycle_get:
  assumes "ids_ok st"
  shows "skill_of (fst (run_verify_cycle io now st)) k =
     map_option (\<lambda>c. if c \<in> set (judged st) then verified now (td_db st) c else c) (skill_of st k)"
  unfolding run_verify_cycle_def judged_def [symmetric]
  using judged_distinct [OF assms] judged_status(1) [OF assms]
  by (intro verify_fold_get) (auto intro: skill_of_row [OF assms])

section \<open>What one call does to a candidate\<close>

text \<open>\<open>skill_move st e c d\<close>: call \<open>e\<close> turns row \<open>c\<close> of state \<open>st\<close> into \<open>d\<close>.\<close>

inductive skill_move :: "teachd \<Rightarrow> teach_call \<Rightarrow> skill_candidate \<Rightarrow> skill_candidate \<Rightarrow> bool" for st where
  kept: "skill_move st e c c"
| written: "sk_status c = SkillPending \<Longrightarrow> \<not> bad_skill_name (sk_name c) \<Longrightarrow>
    skill_move st (GenerateSkill io today now (sk_id c)) c
      (c\<lparr>sk_status := Generated, sk_path := Some (skill_file_path (td_skills_dir st) (sk_name c)), sk_updated_at := now\<rparr>)"
| promoted: "sk_status c = Generated \<Longrightarrow>
    skill_move st (PromoteSkill io now (sk_id c)) c (c\<lparr>sk_status := Promoted, sk_updated_at := now\<rparr>)"
| verified: "sk_status c = Generated \<or> sk_status c = Promoted \<Longrightarrow>
    min_executions \<le> snd (skill_success_rate (td_db st) (sk_name c)) \<Longrightarrow>
    rate = success_fraction (skill_success_rate (td_db st) (sk_name c)) \<Longrightarrow>
    skill_move st (VerifyCycle io now) c (c\<lparr>sk_confidence := blended_confidence (sk_confidence c) rate, sk_updated_at := now,
      sk_status := verdict (sk_status c) rate\<rparr>)"

inductive_cases skill_moveE: "skill_move st e c d"

text \<open>Proposed: a row that was not there, pending and with no file.\<close>

definition proposed :: "teachd \<Rightarrow> skill_candidate \<Rightarrow> bool" where
  "proposed st d = (skill_of st (sk_id d) = None \<and> sk_status d = SkillPending \<and> sk_path d = None)"

definition move_or_new :: "teachd \<Rightarrow> teach_call \<Rightarrow> skill_candidate option \<Rightarrow> skill_candidate option \<Rightarrow> bool" where
  "move_or_new st e old new =
     (case old of
        None \<Rightarrow> (case new of None \<Rightarrow> True | Some d \<Rightarrow> proposed st d)
      | Some c \<Rightarrow> (case new of None \<Rightarrow> False | Some d \<Rightarrow> skill_move st e c d))"

lemma move_same [simp]: "move_or_new st e x x"
  by (cases x) (auto simp: move_or_new_def proposed_def intro: kept)

lemma verified_move:
  assumes "ids_ok st" and "c \<in> set (judged st)"
  shows "skill_move st (VerifyCycle io now) c (verified now (td_db st) c)"
proof (cases "snd (skill_success_rate (td_db st) (sk_name c)) < min_executions")
  case True
  then show ?thesis by (simp add: verified_def Let_def kept)
next
  case False
  then show ?thesis
    using skill_move.verified [of c st _ io now] judged_status(2) [OF assms] by (auto simp: verified_def Let_def)
qed

lemma consider_sequence_cases:
  "consider_sequence now st q = st \<or> skill_of st (sk_id (new_candidate now q)) = None \<and>
   (\<exists>e s x. consider_sequence now st q =
      log_teach e s x (st\<lparr>td_db := insert_skill_candidate (new_candidate now q) (td_db st)\<rparr>))"
  unfolding consider_sequence_def Let_def by (simp only: if_True if_False split: if_split) blast

lemma skillgen_rows:
  "(skill_of (run_skillgen_cycle so wo cutoff now st) k = skill_of st k \<or>
    skill_of st k = None \<and> (\<exists>d. skill_of (run_skillgen_cycle so wo cutoff now st) k = Some d \<and>
      sk_status d = SkillPending \<and> sk_path d = None)) \<and>
   td_files (run_skillgen_cycle so wo cutoff now st) = td_files st \<and>
   td_skills_dir (run_skillgen_cycle so wo cutoff now st) = td_skills_dir st \<and>
   (ids_ok st \<longrightarrow> ids_ok (run_skillgen_cycle so wo cutoff now st))"
proof -
  define I where "I st' = ((skill_of st' k = skill_of st k \<or>
      skill_of st k = None \<and> (\<exists>d. skill_of st' k = Some d \<and> sk_status d = SkillPending \<and> sk_path d = None)) \<and>
      td_files st' = td_files st \<and> td_skills_dir st' = td_skills_dir st \<and> (ids_ok st \<longrightarrow> ids_ok st'))" for st'
  have step: "I (consider_sequence now st' q)" if I: "I st'" for st' q
  proof -
    let ?c = "new_candidate now q"
    consider "consider_sequence now st' q = st'"
      | e s x where "skill_of st' (sk_id ?c) = None"
        "consider_sequence now st' q = log_teach e s x (st'\<lparr>td_db := insert_skill_candidate ?c (td_db st')\<rparr>)"
      using consider_sequence_cases [of now st' q] by blast
    then show ?thesis
    proof cases
      case 2
      have "sk_status ?c = SkillPending" "sk_path ?c = None" by (simp_all add: new_candidate_def)
      then show ?thesis using I 2(1) ids_ok_insert [of st' "consider_sequence now st' q" ?c]
        unfolding I_def 2(2) by (auto simp: candidates.get_put)
    qed (simp add: I)
  qed
  have "I (run_skillgen_cycle so wo cutoff now st)"
    unfolding run_skillgen_cycle_def by (rule foldl_invariant [where P = I, OF step]) (simp_all add: I_def)
  then show ?thesis by (simp add: I_def)
qed


lemma suggest_skill_frame: "db_candidates (fst (suggest_optimizations js now db)) = db_candidates db"
  by (simp add: suggest_optimizations_def Let_def foldl_frame [where g = db_candidates] insert_optimization_def)

lemma execute_skill_frame: "skill_part (fst (execute_and_apply env x st)) = skill_part st"
  by (auto simp: execute_and_apply_def Let_def skill_part_def split: option.split)

lemma update_status_candidates [simp]: "db_candidates (update_optimization_status i s sw db) = db_candidates db"
  by (simp add: update_optimization_status_def)

lemma apply_skill_frame: "skill_part (fst (apply_finish env st n)) = skill_part st"
proof (cases "n < length (td_applying st)")
  case True
  let ?x = "td_applying st ! n" and ?st = "st\<lparr>td_applying := take n (td_applying st) @ drop (Suc n) (td_applying st)\<rparr>"
  obtain st1 r where e: "execute_and_apply env ?x ?st = (st1, r)" by (cases "execute_and_apply env ?x ?st")
  have "skill_part st1 = skill_part st"
    using execute_skill_frame [of env ?x ?st] by (simp add: e skill_part_def)
  then show ?thesis using True by (cases r) (simp_all add: apply_finish_def Let_def e, simp_all add: skill_part_def)
qed (simp add: apply_finish_def)

lemma approve_skill_frame: "skill_part (fst (optimize_approve_handler st i)) = skill_part st"
  using approve_handler_cases [of st i] by (auto simp: skill_part_def)

text \<open>Only four calls touch candidates and skill files.\<close>

fun skill_call :: "teach_call \<Rightarrow> bool" where
  "skill_call (Skillgen cutoff now) = True"
| "skill_call (VerifyCycle io now) = True"
| "skill_call (GenerateSkill io today now i) = True"
| "skill_call (PromoteSkill io now i) = True"
| "skill_call _ = False"

lemma skill_part_step: "\<not> skill_call e \<Longrightarrow> skill_part (teach_step w st e) = skill_part st"
proof (cases e)
  case (Suggest now)
  have "td_files (fst (optimize_suggest_handler js now st)) = td_files st \<and>
      td_skills_dir (fst (optimize_suggest_handler js now st)) = td_skills_dir st" for js
    by (simp add: optimize_suggest_handler_def Let_def split: prod.split)
  then show ?thesis by (simp add: Suggest skill_part_def suggest_handler_state suggest_skill_frame)
next
  case (ApplyStart i)
  then show ?thesis by (simp add: apply_start_def skill_part_def split: option.split)
qed (simp_all add: teach_frames apply_skill_frame approve_skill_frame observe_action_handler_def
  skill_execution_handler_def Let_def skill_part_def [of "td_db_update _ _"] skill_part_def [of st])

lemma generate_cases:
  "skill_generate_handler io today now st i = (st1, r) \<Longrightarrow>
   skill_part st1 = skill_part st \<or>
   (\<exists>c. skill_of st i = Some c \<and> sk_status c = SkillPending \<and> \<not> bad_skill_name (sk_name c) \<and>
      td_db st1 = insert_skill_candidate (c\<lparr>sk_status := Generated,
        sk_path := Some (skill_file_path (td_skills_dir st) (sk_name c)), sk_updated_at := now\<rparr>) (td_db st) \<and>
      td_skills_dir st1 = td_skills_dir st \<and>
      td_files st1 = (td_files st)(skill_file_path (td_skills_dir st) (sk_name c) \<mapsto> generate_skill_md today c))"
  by (auto simp: skill_generate_handler_def write_skill_file_def Let_def split: option.splits if_splits)

lemma promote_cases:
  "skill_promote_handler io now st i = (st1, r) \<Longrightarrow>
   skill_part st1 = skill_part st \<or>
   (\<exists>c. skill_of st i = Some c \<and> sk_status c = Generated \<and>
      td_db st1 = insert_skill_candidate (c\<lparr>sk_status := Promoted, sk_updated_at := now\<rparr>) (td_db st) \<and>
      td_skills_dir st1 = td_skills_dir st \<and> td_files st1 = td_files (promote_skill_file io (sk_path c) st))"
  by (auto simp: skill_promote_handler_def Let_def log_teach_def split: option.splits if_splits)

lemma ids_ok_step: "ids_ok st \<Longrightarrow> ids_ok (teach_step w st e)"
proof -
  assume ok: "ids_ok st"
  consider (gen) cutoff now where "e = Skillgen cutoff now" | (ver) io now where "e = VerifyCycle io now"
    | (wri) io today now i where "e = GenerateSkill io today now i" | (prom) io now i where "e = PromoteSkill io now i"
    | (other) "skill_part (teach_step w st e) = skill_part st"
    using skill_part_step [of e w st] by (cases e) simp_all
  then show ?thesis
  proof cases
    case gen
    with ok show ?thesis by (simp add: skillgen_rows)
  next
    case ver
    have "ids_ok (fst (foldl (verify_candidate io now) acc cs))" if "ids_ok (fst acc)" for acc cs
      using that by (rule foldl_invariant [where P = "\<lambda>a. ids_ok (fst a)", rotated]) (metis verify_ids_ok prod.collapse)
    with ok ver show ?thesis by (simp add: run_verify_cycle_def del: foldl_append)
  next
    case wri
    obtain st1 r where h: "skill_generate_handler io today now st i = (st1, r)" by (meson surj_pair)
    have "ids_ok st1" using generate_cases [OF h] ok ids_ok_insert ids_ok_frame by blast
    with wri h show ?thesis by simp
  next
    case prom
    obtain st1 r where h: "skill_promote_handler io now st i = (st1, r)" by (meson surj_pair)
    have "ids_ok st1" using promote_cases [OF h] ok ids_ok_insert ids_ok_frame by blast
    with prom h show ?thesis by simp
  next
    case other
    with ok show ?thesis by (simp add: ids_ok_frame [OF other])
  qed
qed


text \<open>The step relation holds for every call and every identifier.\<close>

lemma skill_step:
  assumes "ids_ok st"
  shows "move_or_new st e (skill_of st k) (skill_of (teach_step w st e) k)"
proof -
  consider (gen) cutoff now where "e = Skillgen cutoff now" | (ver) io now where "e = VerifyCycle io now"
    | (wri) io today now i where "e = GenerateSkill io today now i" | (prom) io now i where "e = PromoteSkill io now i"
    | (other) "skill_part (teach_step w st e) = skill_part st"
    using skill_part_step [of e w st] by (cases e) simp_all
  then show ?thesis
  proof cases
    case gen
    from skillgen_rows [of "tw_names w" "tw_seqs w" cutoff now st k]
    consider "skill_of (teach_step w st e) k = skill_of st k"
      | d where "skill_of st k = None" "skill_of (teach_step w st e) k = Some d" "sk_status d = SkillPending" "sk_path d = None"
      by (auto simp: gen)
    then show ?thesis
    proof cases
      case (2 d)
      then show ?thesis using candidates.get_key [OF 2(2)] by (simp add: move_or_new_def proposed_def)
    qed simp
  next
    case ver
    show ?thesis
    proof (cases "skill_of st k")
      case (Some c)
      then show ?thesis
        using verified_move [OF assms, of c io now] by (auto simp: ver verify_cycle_get [OF assms] move_or_new_def intro: kept)
    qed (simp add: ver verify_cycle_get [OF assms])
  next
    case wri
    obtain st1 r where h: "skill_generate_handler io today now st i = (st1, r)" by (meson surj_pair)
    then have new: "teach_step w st e = st1" by (simp add: wri)
    from generate_cases [OF h] show ?thesis
    proof (elim disjE exE conjE)
      fix c
      assume c: "skill_of st i = Some c" "sk_status c = SkillPending" "\<not> bad_skill_name (sk_name c)"
        and db: "td_db st1 = insert_skill_candidate (c\<lparr>sk_status := Generated,
        sk_path := Some (skill_file_path (td_skills_dir st) (sk_name c)), sk_updated_at := now\<rparr>) (td_db st)"
      have "sk_id c = i" using c(1) by (rule candidates.get_key)
      let ?d = "c\<lparr>sk_status := Generated, sk_path := Some (skill_file_path (td_skills_dir st) (sk_name c)), sk_updated_at := now\<rparr>"
      have "skill_move st e c ?d" using written [OF c(2,3), of st io today now] by (simp add: wri \<open>sk_id c = i\<close>)
      moreover have "skill_of (teach_step w st e) k = (if k = i then Some ?d else skill_of st k)"
        unfolding new db by (simp add: candidates.get_put \<open>sk_id c = i\<close>)
      ultimately show ?thesis using c(1) by (simp add: move_or_new_def [of _ _ "Some c"])
    qed (simp add: new skill_of_frame [of st1 st])
  next
    case prom
    obtain st1 r where h: "skill_promote_handler io now st i = (st1, r)" by (meson surj_pair)
    then have new: "teach_step w st e = st1" by (simp add: prom)
    from promote_cases [OF h] show ?thesis
    proof (elim disjE exE conjE)
      fix c
      assume c: "skill_of st i = Some c" "sk_status c = Generated"
        and db: "td_db st1 = insert_skill_candidate (c\<lparr>sk_status := Promoted, sk_updated_at := now\<rparr>) (td_db st)"
      have "sk_id c = i" using c(1) by (rule candidates.get_key)
      let ?d = "c\<lparr>sk_status := Promoted, sk_updated_at := now\<rparr>"
      have "skill_move st e c ?d" using promoted [OF c(2), of st io now] by (simp add: prom \<open>sk_id c = i\<close>)
      moreover have "skill_of (teach_step w st e) k = (if k = i then Some ?d else skill_of st k)"
        unfolding new db by (simp add: candidates.get_put \<open>sk_id c = i\<close>)
      ultimately show ?thesis using c(1) by (simp add: move_or_new_def [of _ _ "Some c"])
    qed (simp add: new skill_of_frame [of st1 st])
  next
    case other
    then show ?thesis by (simp add: skill_of_frame [OF other])
  qed
qed

section \<open>Refinement of the machine of statuses\<close>

inductive life_edge :: "skill_status \<Rightarrow> skill_status \<Rightarrow> bool" where
  "life_edge SkillPending Generated"
| "life_edge Generated Promoted"
| "life_edge Generated Rejected"
| "life_edge Promoted Retired"

inductive_simps life_edge_simps [simp]:
  "life_edge SkillPending t" "life_edge Generated t" "life_edge Promoted t" "life_edge Rejected t" "life_edge Retired t"

text \<open>The statuses in the order of the life cycle, which every edge climbs.\<close>

fun status_rank :: "skill_status \<Rightarrow> nat" where
  "status_rank SkillPending = 0"
| "status_rank Generated = 1"
| "status_rank Promoted = 2"
| "status_rank Rejected = 3"
| "status_rank Retired = 4"

lemma status_rank_inj: "status_rank s = status_rank t \<Longrightarrow> s = t"
  by (cases s; cases t) simp_all

instantiation skill_status :: linorder
begin

definition less_eq_skill_status :: "skill_status \<Rightarrow> skill_status \<Rightarrow> bool" where
  "less_eq_skill_status s t = (status_rank s \<le> status_rank t)"

definition less_skill_status :: "skill_status \<Rightarrow> skill_status \<Rightarrow> bool" where
  "less_skill_status s t = (status_rank s < status_rank t)"

instance
  by standard (auto simp: less_eq_skill_status_def less_skill_status_def status_rank_inj)

end

lemma edge_climbs: "life_edge s t \<Longrightarrow> s < t"
  by (induction rule: life_edge.induct) (simp_all add: less_skill_status_def)

text \<open>A step of the abstract machine: every skill stays, takes an edge, or appears as pending.\<close>

definition life_step :: "(string \<Rightarrow> skill_status option) \<Rightarrow> (string \<Rightarrow> skill_status option) \<Rightarrow> bool" where
  "life_step m n = (\<forall>k. n k = m k \<or> m k = None \<and> n k = Some SkillPending \<or>
     (\<exists>s t. m k = Some s \<and> n k = Some t \<and> life_edge s t))"

text \<open>In a run of the machine no skill disappears or goes back.\<close>

lemma life_step_climbs: "life_step m n \<Longrightarrow> m k = Some s \<Longrightarrow> \<exists>t. n k = Some t \<and> s \<le> t"
  unfolding life_step_def by (metis edge_climbs less_imp_le option.distinct(1) option.inject order_refl)

lemma life_steps_climb: "life_step\<^sup>*\<^sup>* m n \<Longrightarrow> m k = Some s \<Longrightarrow> \<exists>t. n k = Some t \<and> s \<le> t"
  by (induction rule: rtranclp_induct) (auto dest: life_step_climbs [of _ _ k] intro: order_trans)

definition statuses :: "teachd \<Rightarrow> string \<Rightarrow> skill_status option" where
  "statuses st k = map_option sk_status (skill_of st k)"

lemma verdict_edge: "s = Generated \<or> s = Promoted \<Longrightarrow> verdict s rate = s \<or> life_edge s (verdict s rate)"
  by (auto simp: verdict_def)

lemma move_edge: "skill_move st e c d \<Longrightarrow> sk_status d = sk_status c \<or> life_edge (sk_status c) (sk_status d)"
  by (induction rule: skill_move.induct) (simp_all add: verdict_edge)

lemma life_refined: "ids_ok st \<Longrightarrow> life_step (statuses st) (statuses (teach_step w st e))"
  unfolding life_step_def
proof
  fix k
  assume "ids_ok st"
  then show "statuses (teach_step w st e) k = statuses st k \<or>
      statuses st k = None \<and> statuses (teach_step w st e) k = Some SkillPending \<or>
      (\<exists>s t. statuses st k = Some s \<and> statuses (teach_step w st e) k = Some t \<and> life_edge s t)"
    using skill_step [of st e k w] move_edge
    by (cases "skill_of st k"; cases "skill_of (teach_step w st e) k")
      (auto simp: statuses_def move_or_new_def proposed_def)
qed

section \<open>Nothing is promoted unauthorised, nothing settled changes\<close>

definition is_promoted :: "teachd \<Rightarrow> string \<Rightarrow> bool" where
  "is_promoted st k = (statuses st k = Some Promoted)"

text \<open>A promotion: by the endpoint, or by a verification with enough successful executions.\<close>

fun promotes :: "teachd \<Rightarrow> teach_call \<Rightarrow> string \<Rightarrow> bool" where
  "promotes st (PromoteSkill io now i) k = (i = k \<and> statuses st k = Some Generated)"
| "promotes st (VerifyCycle io now) k =
     (case skill_of st k of
        None \<Rightarrow> False
      | Some c \<Rightarrow> sk_status c = Generated \<and> 5 \<le> snd (skill_success_rate (td_db st) (sk_name c)) \<and>
          4 / 5 \<le> success_fraction (skill_success_rate (td_db st) (sk_name c)))"
| "promotes st _ k = False"

fun_cases promotesE: "promotes st e k"

lemma move_promotes:
  "skill_move st e c d \<Longrightarrow> skill_of st k = Some c \<Longrightarrow> sk_status d = Promoted \<Longrightarrow> sk_status c \<noteq> Promoted \<Longrightarrow> promotes st e k"
  by (induction rule: skill_move.induct)
    (auto simp: statuses_def verdict_def min_executions_def dest: candidates.get_key split: if_splits)

definition skill_settled :: "skill_candidate \<Rightarrow> bool" where
  "skill_settled c = (sk_status c = Rejected \<or> sk_status c = Retired)"

lemma move_settled: "skill_move st e c d \<Longrightarrow> skill_settled c \<Longrightarrow> d = c"
  by (induction rule: skill_move.induct) (auto simp: skill_settled_def)

interpretation skill_store: decision_store skill_of skill_settled ids_ok "\<lambda>_ _. True" "teach_step w" for w
proof
  fix s e
  show "ids_ok s \<Longrightarrow> ids_ok (teach_step w s e)" by (rule ids_ok_step)
next
  fix s e k v
  assume "ids_ok s" and v: "skill_of s k = Some v"
  then obtain d where d: "skill_of (teach_step w s e) k = Some d" "skill_move s e v d"
    using skill_step [of s e k w] by (auto simp: move_or_new_def split: option.splits)
  then show "skill_of (teach_step w s e) k \<noteq> None" by simp
  show "skill_settled v \<Longrightarrow> skill_of (teach_step w s e) k = Some v"
    using d move_settled by auto
qed


interpretation promoted_skills: authorised is_promoted promotes ids_ok "teach_step w" for w
proof
  fix s e k
  assume ok: "ids_ok s" and new: "is_promoted (teach_step w s e) k"
  then obtain d where d: "skill_of (teach_step w s e) k = Some d" "sk_status d = Promoted"
    by (auto simp: is_promoted_def statuses_def)
  show "is_promoted s k \<or> promotes s e k"
  proof (cases "skill_of s k")
    case None
    then show ?thesis using skill_step [OF ok, of e k w] d by (simp add: move_or_new_def proposed_def)
  next
    case (Some c)
    then have "skill_move s e c d" using skill_step [OF ok, of e k w] d by (simp add: move_or_new_def)
    then show ?thesis using Some d(2) move_promotes [of s e c d k] by (cases "sk_status c = Promoted") (simp_all add: is_promoted_def statuses_def)
  qed
qed (rule ids_ok_step)

section \<open>Which files are written\<close>

definition confined_path :: "string \<Rightarrow> string \<Rightarrow> bool" where
  "confined_path dir p = (\<exists>name. \<not> bad_skill_name name \<and> p = skill_file_path dir name)"

definition paths_ok :: "teachd \<Rightarrow> bool" where
  "paths_ok st = (\<forall>k c p. skill_of st k = Some c \<longrightarrow> sk_path c = Some p \<longrightarrow> confined_path (td_skills_dir st) p)"

lemma verify_dir: "td_skills_dir (fst (foldl (verify_candidate io now) acc cs)) = td_skills_dir (fst acc)"
  by (rule foldl_frame [where g = "\<lambda>a. td_skills_dir (fst a)"]) (rule verify_candidate_dir)

lemma dir_step: "td_skills_dir (teach_step w st e) = td_skills_dir st"
proof -
  consider (gen) cutoff now where "e = Skillgen cutoff now" | (ver) io now where "e = VerifyCycle io now"
    | (wri) io today now i where "e = GenerateSkill io today now i" | (prom) io now i where "e = PromoteSkill io now i"
    | (other) "skill_part (teach_step w st e) = skill_part st"
    using skill_part_step [of e w st] by (cases e) simp_all
  then show ?thesis
  proof cases
    case ver
    then show ?thesis by (simp add: run_verify_cycle_def verify_dir del: foldl_append)
  next
    case wri
    obtain st1 r where h: "skill_generate_handler io today now st i = (st1, r)" by (meson surj_pair)
    with generate_cases [OF h] wri show ?thesis by (auto simp: skill_part_def)
  next
    case prom
    obtain st1 r where h: "skill_promote_handler io now st i = (st1, r)" by (meson surj_pair)
    with promote_cases [OF h] prom show ?thesis by (auto simp: skill_part_def)
  qed (simp_all add: skillgen_rows skill_part_def)
qed

lemma move_path:
  "skill_move st e c d \<Longrightarrow> sk_path d = sk_path c \<or>
   \<not> bad_skill_name (sk_name c) \<and> sk_path d = Some (skill_file_path (td_skills_dir st) (sk_name c))"
  by (induction rule: skill_move.induct) simp_all

lemma paths_ok_step:
  assumes "ids_ok st" and "paths_ok st"
  shows "paths_ok (teach_step w st e)"
  unfolding paths_ok_def dir_step
proof (intro allI impI)
  fix k d p
  assume d: "skill_of (teach_step w st e) k = Some d" "sk_path d = Some p"
  show "confined_path (td_skills_dir st) p"
  proof (cases "skill_of st k")
    case None
    then show ?thesis using skill_step [OF assms(1), of e k w] d by (simp add: move_or_new_def proposed_def)
  next
    case (Some c)
    then have "skill_move st e c d" using skill_step [OF assms(1), of e k w] d by (simp add: move_or_new_def)
    from move_path [OF this] show ?thesis
      using Some d assms(2) unfolding paths_ok_def confined_path_def by auto
  qed
qed

lemma rewrite_files: "td_files (rewrite_file io a b path st) p = td_files st p \<or> path = Some p"
  by (auto simp: rewrite_file_def split: option.split)

lemma verify_candidate_files: "td_files (fst (verify_candidate io now acc c)) p = td_files (fst acc) p \<or> sk_path c = Some p"
  using rewrite_files by (simp add: verify_candidate_def Let_def promote_skill_file_def retire_skill_file_def
      log_teach_def split: prod.split)

lemma verify_files:
  "(\<And>c. c \<in> set cs \<Longrightarrow> sk_path c = Some p \<Longrightarrow> Q) \<Longrightarrow>
   td_files (fst (foldl (verify_candidate io now) acc cs)) p = td_files (fst acc) p \<or> Q"
proof (induction cs arbitrary: acc)
  case (Cons c cs)
  have "td_files (fst (foldl (verify_candidate io now) (verify_candidate io now acc c) cs)) p =
      td_files (fst (verify_candidate io now acc c)) p \<or> Q"
    by (rule Cons.IH) (rule Cons.prems, simp_all)
  then show ?case using verify_candidate_files [of io now acc c p] Cons.prems [of c] by auto
qed simp

lemma files_step:
  assumes "ids_ok st" and "paths_ok st"
  shows "td_files (teach_step w st e) p = td_files st p \<or> confined_path (td_skills_dir st) p"
proof -
  consider (gen) cutoff now where "e = Skillgen cutoff now" | (ver) io now where "e = VerifyCycle io now"
    | (wri) io today now i where "e = GenerateSkill io today now i" | (prom) io now i where "e = PromoteSkill io now i"
    | (other) "skill_part (teach_step w st e) = skill_part st"
    using skill_part_step [of e w st] by (cases e) simp_all
  then show ?thesis
  proof cases
    case ver
    have conf: "confined_path (td_skills_dir st) p" if "c \<in> set (judged st)" "sk_path c = Some p" for c
      using that judged_status(1) [OF assms(1)] skill_of_row [OF assms(1)] assms(2) unfolding paths_ok_def by blast
    have "td_files (fst (foldl (verify_candidate io now) (st, no_verdicts) (judged st))) p = td_files st p \<or>
        confined_path (td_skills_dir st) p"
      using verify_files [of "judged st" p "confined_path (td_skills_dir st) p" io now "(st, no_verdicts)"] conf by simp
    then show ?thesis unfolding ver teach_step.simps run_verify_cycle_def judged_def .
  next
    case wri
    obtain st1 r where h: "skill_generate_handler io today now st i = (st1, r)" by (meson surj_pair)
    with generate_cases [OF h] wri show ?thesis by (auto simp: skill_part_def confined_path_def)
  next
    case prom
    obtain st1 r where h: "skill_promote_handler io now st i = (st1, r)" by (meson surj_pair)
    from promote_cases [OF h] have "td_files st1 p = td_files st p \<or> confined_path (td_skills_dir st) p"
    proof (elim disjE exE conjE)
      fix c
      assume "skill_of st i = Some c" and "td_files st1 = td_files (promote_skill_file io (sk_path c) st)"
      then show ?thesis
        using rewrite_files [of io _ _ "sk_path c" st p] assms(2) unfolding paths_ok_def promote_skill_file_def by metis
    qed (simp add: skill_part_def)
    with prom h show ?thesis by simp
  qed (simp_all add: skillgen_rows skill_part_def)
qed

text \<open>Over a whole run, whatever the directory held before.\<close>

lemma teachd_start_ok: "ids_ok (start_teachd dir\<lparr>td_files := F\<rparr>)" "paths_ok (start_teachd dir\<lparr>td_files := F\<rparr>)"
  "td_skills_dir (start_teachd dir\<lparr>td_files := F\<rparr>) = dir"
  by (simp_all add: ids_ok_def paths_ok_def start_teachd_def init_db_def get_skill_candidate_def)

lemma files_run:
  "td_files (foldl (teach_step w) (start_teachd dir\<lparr>td_files := F\<rparr>) es) p = F p \<or> confined_path dir p"
proof -
  define I where "I st = (ids_ok st \<and> paths_ok st \<and> td_skills_dir st = dir \<and> (td_files st p = F p \<or> confined_path dir p))" for st
  have "I (teach_step w st e)" if "I st" for st e
    using that files_step [of st w e p] by (auto simp: I_def ids_ok_step paths_ok_step dir_step)
  moreover have "I (start_teachd dir\<lparr>td_files := F\<rparr>)"
    unfolding I_def using teachd_start_ok by simp
  ultimately have "I (foldl (teach_step w) (start_teachd dir\<lparr>td_files := F\<rparr>) es)"
    by (rule foldl_invariant [where P = I])
  then show ?thesis by (simp add: I_def)
qed

end
