(* ===== verification/Egress.thy ===== *)
theory Egress
  imports Decimal "HOL-Library.Word"
begin

text \<open>
  \<open>crates/osmoda-egress/src/main.rs\<close>: the proxy that confines outgoing connections to a list of
  domains. \<open>egress_step\<close> is one event of the accept loop, of a connection or of a tunnel task. Name
  resolution and whether an address can be reached are arguments; the parts hyper reads off a
  request's authority (text, host, port) are fields of \<open>authority\<close>.
\<close>

section \<open>Addresses\<close>

datatype ip = V4 "8 word" "8 word" "8 word" "8 word" | V6 "128 word"

record sockaddr =
  sa_ip :: ip
  sa_port :: "16 word"

text \<open>The standard library's predicates on addresses, in the order the code asks them.\<close>

fun is_internal_ip :: "ip \<Rightarrow> bool" where
  "is_internal_ip (V4 a b c d) =
     (a = 127 \<or>
      (a = 10 \<or> a = 172 \<and> 16 \<le> b \<and> b \<le> 31 \<or> a = 192 \<and> b = 168) \<or>
      a = 169 \<and> b = 254 \<or>
      a = 169 \<and> b = 254 \<or>
      a = 255 \<and> b = 255 \<and> c = 255 \<and> d = 255 \<or>
      a = 0 \<and> b = 0 \<and> c = 0 \<and> d = 0)"
| "is_internal_ip (V6 w) = (w = 1 \<or> w = 0)"

section \<open>Requests\<close>

record authority =
  au_text :: string
  au_host :: string
  au_port :: "nat option"

datatype proxy_request = ConnectTo "authority option" | OtherMethod

datatype proxy_answer = Denied nat string | TunnelTo string

definition allowed_domains :: "string \<Rightarrow> string list" where
  "allowed_domains default_allow =
     filter (\<lambda>s. s \<noteq> []) (List.map (\<lambda>s. to_lowercase (trim s)) (split_on (CHR '','') default_allow))"

definition handle_proxy_request :: "string list \<Rightarrow> proxy_request \<Rightarrow> proxy_answer" where
  "handle_proxy_request allowed req =
     (case req of
        ConnectTo a \<Rightarrow>
          (let host = map_option (\<lambda>a. to_lowercase (au_host a)) a;
               port = (case Option.bind a au_port of None \<Rightarrow> 443 | Some p \<Rightarrow> p)
           in if port \<noteq> 443 then Denied 403 (''Only port 443 allowed, got port '' @ dec port)
              else case host of
                     Some d \<Rightarrow>
                       if d \<in> set allowed then TunnelTo (au_text (the a))
                       else Denied 403 (''Domain '' @ [CHR 0x27] @ d @ [CHR 0x27] @ '' not in egress allowlist'')
                   | None \<Rightarrow> Denied 400 ''Missing host in CONNECT request'')
      | OtherMethod \<Rightarrow> Denied 405 ''Only CONNECT method is supported. This is an egress proxy.'')"

section \<open>Tunnels\<close>

datatype tunnel_error = DnsFailed | NoAddress | InternalAddress ip | ConnectFailed

text \<open>The addresses dialled, in order, up to the first that answers.\<close>

fun dial :: "(sockaddr \<Rightarrow> bool) \<Rightarrow> sockaddr list \<Rightarrow> sockaddr list \<times> sockaddr option" where
  "dial up [] = ([], None)"
| "dial up (a # as) = (if up a then ([a], Some a) else case dial up as of (ds, r) \<Rightarrow> (a # ds, r))"

definition tunnel :: "(string \<Rightarrow> sockaddr list option) \<Rightarrow> (sockaddr \<Rightarrow> bool) \<Rightarrow> string \<Rightarrow>
    sockaddr list \<times> (tunnel_error + sockaddr)" where
  "tunnel resolve up target =
     (case resolve target of
        None \<Rightarrow> ([], Inl DnsFailed)
      | Some addrs \<Rightarrow>
          (if addrs = [] then ([], Inl NoAddress)
           else case List.find (\<lambda>a. is_internal_ip (sa_ip a)) addrs of
                  Some a \<Rightarrow> ([], Inl (InternalAddress (sa_ip a)))
                | None \<Rightarrow>
                    (case dial up addrs of
                       (ds, None) \<Rightarrow> (ds, Inl ConnectFailed)
                     | (ds, Some a) \<Rightarrow> (ds, Inr a))))"

section \<open>The proxy\<close>

text \<open>\<open>eg_open\<close> counts the connections that hold a permit, \<open>eg_waiting\<close> those accepted and waiting for one,
  \<open>eg_upgrading\<close> the targets of spawned tunnel tasks that have not resolved yet, \<open>eg_tunnels\<close> the
  open tunnels; \<open>eg_dialled\<close> records every address a connection was attempted to.\<close>

record egress =
  eg_allowed :: "string list"
  eg_open :: nat
  eg_waiting :: nat
  eg_upgrading :: "string list"
  eg_tunnels :: "(string \<times> sockaddr) list"
  eg_dialled :: "(string \<times> sockaddr) list"

definition max_concurrent_tunnels :: nat where
  "max_concurrent_tunnels = 100"

definition start_egress :: "string \<Rightarrow> egress" where
  "start_egress default_allow = \<lparr>eg_allowed = allowed_domains default_allow, eg_open = 0, eg_waiting = 0,
     eg_upgrading = [], eg_tunnels = [], eg_dialled = []\<rparr>"

definition release_permit :: "egress \<Rightarrow> egress" where
  "release_permit st =
     (if 0 < eg_waiting st then st\<lparr>eg_waiting := eg_waiting st - 1\<rparr> else st\<lparr>eg_open := eg_open st - 1\<rparr>)"

definition without_nth :: "nat \<Rightarrow> 'a list \<Rightarrow> 'a list" where
  "without_nth n xs = take n xs @ drop (Suc n) xs"

datatype egress_event =
    Accepted
  | ConnClosed
  | Requested proxy_request
  | UpgradeFailed nat
  | Dial "string \<Rightarrow> sockaddr list option" "sockaddr \<Rightarrow> bool" nat
  | TunnelClosed nat

text \<open>The permit belongs to the task that serves the HTTP connection, which ends with the upgrade; the
  tunnel runs in a task of its own.\<close>

fun egress_step :: "egress \<Rightarrow> egress_event \<Rightarrow> egress" where
  "egress_step st Accepted =
     (if eg_open st < max_concurrent_tunnels then st\<lparr>eg_open := eg_open st + 1\<rparr>
      else st\<lparr>eg_waiting := eg_waiting st + 1\<rparr>)"
| "egress_step st ConnClosed = (if eg_open st = 0 then st else release_permit st)"
| "egress_step st (Requested req) =
     (if eg_open st = 0 then st
      else case handle_proxy_request (eg_allowed st) req of
             Denied c m \<Rightarrow> st
           | TunnelTo t \<Rightarrow> release_permit (st\<lparr>eg_upgrading := eg_upgrading st @ [t]\<rparr>))"
| "egress_step st (UpgradeFailed n) = st\<lparr>eg_upgrading := without_nth n (eg_upgrading st)\<rparr>"
| "egress_step st (Dial resolve up n) =
     (if length (eg_upgrading st) \<le> n then st
      else let t = eg_upgrading st ! n; st1 = st\<lparr>eg_upgrading := without_nth n (eg_upgrading st)\<rparr>
           in case tunnel resolve up t of
                (ds, r) \<Rightarrow> st1\<lparr>eg_dialled := eg_dialled st @ List.map (Pair t) ds,
                  eg_tunnels := (case r of Inl e \<Rightarrow> eg_tunnels st | Inr a \<Rightarrow> eg_tunnels st @ [(t, a)])\<rparr>)"
| "egress_step st (TunnelClosed n) = st\<lparr>eg_tunnels := without_nth n (eg_tunnels st)\<rparr>"

section \<open>Which addresses are internal\<close>

text \<open>The blocks as ranges of the 32-bit address: loopback, the three private ones, link-local, broadcast,
  unspecified.\<close>

definition v4_value :: "8 word \<Rightarrow> 8 word \<Rightarrow> 8 word \<Rightarrow> 8 word \<Rightarrow> nat" where
  "v4_value a b c d = unat a * 2 ^ 24 + unat b * 2 ^ 16 + unat c * 2 ^ 8 + unat d"

definition internal_blocks :: "(nat \<times> nat) list" where
  "internal_blocks =
     [(v4_value 127 0 0 0, 24), (v4_value 10 0 0 0, 24), (v4_value 172 16 0 0, 20), (v4_value 192 168 0 0, 16),
      (v4_value 169 254 0 0, 16), (v4_value 255 255 255 255, 0), (v4_value 0 0 0 0, 0)]"

definition in_block :: "nat \<Rightarrow> nat \<times> nat \<Rightarrow> bool" where
  "in_block x p = (case p of (base, bits) \<Rightarrow> base \<le> x \<and> x < base + 2 ^ bits)"

lemma unat_byte: "unat (a :: 8 word) < 256"
  using unsigned_less [of a, where ?'a = nat] by simp

lemma byte_eq: "(a :: 8 word) = b \<longleftrightarrow> unat a = unat b"
  by (simp add: word_eq_iff_unsigned)

text \<open>A block with all but the first, the first two, or no byte free.\<close>

lemma block_8: "b < 256 \<Longrightarrow> c < 256 \<Longrightarrow> d < 256 \<Longrightarrow>
    k * 16777216 \<le> a * 16777216 + b * 65536 + c * 256 + d \<and> a * 16777216 + b * 65536 + c * 256 + d < k * 16777216 + 16777216
    \<longleftrightarrow> (a :: nat) = k"
proof -
  assume r: "b < 256" "c < 256" "d < 256"
  have "k \<le> a \<and> a \<le> k" if "k * 16777216 \<le> a * 16777216 + b * 65536 + c * 256 + d"
    "a * 16777216 + b * 65536 + c * 256 + d < k * 16777216 + 16777216"
    using that r by linarith
  then show ?thesis using r by auto
qed

lemma block_16: "b < 256 \<Longrightarrow> c < 256 \<Longrightarrow> d < 256 \<Longrightarrow> j < 256 \<Longrightarrow> j + n \<le> 256 \<Longrightarrow>
    k * 16777216 + j * 65536 \<le> a * 16777216 + b * 65536 + c * 256 + d \<and>
    a * 16777216 + b * 65536 + c * 256 + d < k * 16777216 + j * 65536 + n * 65536
    \<longleftrightarrow> (a :: nat) = k \<and> j \<le> b \<and> b < j + n"
proof -
  assume r: "b < 256" "c < 256" "d < 256" "j < 256" "j + n \<le> 256"
  have "a = k \<and> j \<le> b \<and> b < j + n" if h: "k * 16777216 + j * 65536 \<le> a * 16777216 + b * 65536 + c * 256 + d"
    "a * 16777216 + b * 65536 + c * 256 + d < k * 16777216 + j * 65536 + n * 65536"
  proof -
    have a: "a = k" using h r by linarith
    have "j \<le> b" using h(1) r(2,3) unfolding a by linarith
    moreover have "b < j + n" using h(2) unfolding a by linarith
    ultimately show ?thesis using a by simp
  qed
  moreover have "k * 16777216 + j * 65536 \<le> a * 16777216 + b * 65536 + c * 256 + d \<and>
    a * 16777216 + b * 65536 + c * 256 + d < k * 16777216 + j * 65536 + n * 65536" if "a = k" "j \<le> b" "b < j + n"
    using that r by linarith
  ultimately show ?thesis by blast
qed

lemma block_32: "b < 256 \<Longrightarrow> c < 256 \<Longrightarrow> d < 256 \<Longrightarrow> j < 256 \<Longrightarrow> l < 256 \<Longrightarrow> m < 256 \<Longrightarrow>
    a * 16777216 + b * 65536 + c * 256 + d = k * 16777216 + j * 65536 + l * 256 + m \<longleftrightarrow>
    (a :: nat) = k \<and> b = j \<and> c = l \<and> d = m"
proof -
  assume r: "b < 256" "c < 256" "d < 256" "j < 256" "l < 256" "m < 256"
  have "a = k \<and> b = j \<and> c = l \<and> d = m" if e: "a * 16777216 + b * 65536 + c * 256 + d = k * 16777216 + j * 65536 + l * 256 + m"
  proof -
    have a: "a = k" using e r by linarith
    have b: "b = j" using e r unfolding a by linarith
    have "c = l" using e r unfolding a b by linarith
    with e a b show ?thesis by simp
  qed
  then show ?thesis by blast
qed

lemma in_block_24: "in_block (v4_value a b c d) (v4_value k 0 0 0, 24) \<longleftrightarrow> a = k"
  using block_8 [where a = "unat a" and b = "unat b" and c = "unat c" and d = "unat d" and k = "unat k", OF unat_byte unat_byte unat_byte]
  by (simp add: in_block_def v4_value_def byte_eq)

lemma in_block_20: "in_block (v4_value a b c d) (v4_value k 16 0 0, 20) \<longleftrightarrow> a = k \<and> 16 \<le> b \<and> b \<le> 31"
  using block_16 [where a = "unat a" and b = "unat b" and c = "unat c" and d = "unat d" and k = "unat k" and j = 16 and n = 16,
      OF unat_byte unat_byte unat_byte]
  by (auto simp: in_block_def v4_value_def byte_eq word_le_nat_alt)

lemma in_block_16: "in_block (v4_value a b c d) (v4_value k j 0 0, 16) \<longleftrightarrow> a = k \<and> b = j"
  using block_16 [where a = "unat a" and b = "unat b" and c = "unat c" and d = "unat d" and k = "unat k" and j = "unat j" and n = 1,
      OF unat_byte unat_byte unat_byte unat_byte] unat_byte [of j]
  by (auto simp: in_block_def v4_value_def byte_eq)

lemma in_block_0: "in_block (v4_value a b c d) (v4_value k j l m, 0) \<longleftrightarrow> a = k \<and> b = j \<and> c = l \<and> d = m"
  using block_32 [where a = "unat a" and b = "unat b" and c = "unat c" and d = "unat d" and k = "unat k" and j = "unat j"
      and l = "unat l" and m = "unat m", OF unat_byte unat_byte unat_byte unat_byte unat_byte unat_byte]
  by (auto simp: in_block_def v4_value_def byte_eq)

text \<open>The test agrees with membership in the blocks.\<close>

lemma internal_v4: "is_internal_ip (V4 a b c d) \<longleftrightarrow> (\<exists>p \<in> set internal_blocks. in_block (v4_value a b c d) p)"
  by (simp only: internal_blocks_def list.set bex_simps(5,7) in_block_24 in_block_20 in_block_16 in_block_0
      is_internal_ip.simps) blast


section \<open>What the proxy connects to\<close>

lemma dial_set: "set (fst (dial up as)) \<subseteq> set as"
  by (induction up as rule: dial.induct) (auto split: prod.split)

lemma dial_result: "snd (dial up as) = List.find up as"
  by (induction up as rule: dial.induct) (auto split: prod.split)

lemma tunnel_external:
  assumes "a \<in> set (fst (tunnel resolve up t))"
  shows "\<not> is_internal_ip (sa_ip a) \<and> (\<exists>addrs. resolve t = Some addrs \<and> a \<in> set addrs)"
  using assms dial_set [of up "the (resolve t)"]
  by (auto simp: tunnel_def find_None_iff split: option.splits if_splits prod.splits)

text \<open>A tunnel may be started to a target once a request for it has passed the filter.\<close>

definition tunnel_ready :: "egress \<Rightarrow> string \<Rightarrow> bool" where
  "tunnel_ready st t = (t \<in> set (eg_upgrading st) \<or> t \<in> fst ` set (eg_dialled st) \<or> t \<in> fst ` set (eg_tunnels st))"

fun permits_target :: "egress \<Rightarrow> egress_event \<Rightarrow> string \<Rightarrow> bool" where
  "permits_target st (Requested (ConnectTo (Some a))) t =
     (t = au_text a \<and> to_lowercase (au_host a) \<in> set (eg_allowed st) \<and> (au_port a = None \<or> au_port a = Some 443))"
| "permits_target st _ t = False"

fun_cases permits_targetE: "permits_target st e t"

lemma set_without_nth: "set (without_nth n xs) \<subseteq> set xs"
  by (auto simp: without_nth_def dest: in_set_takeD in_set_dropD)

lemma release_frame [simp]:
  "eg_allowed (release_permit st) = eg_allowed st" "eg_upgrading (release_permit st) = eg_upgrading st"
  "eg_dialled (release_permit st) = eg_dialled st" "eg_tunnels (release_permit st) = eg_tunnels st"
  by (simp_all add: release_permit_def)

lemma handled_target:
  "handle_proxy_request (eg_allowed st) req = TunnelTo t \<Longrightarrow> permits_target st (Requested req) t"
  by (cases req; cases "case req of ConnectTo a \<Rightarrow> a | OtherMethod \<Rightarrow> None")
    (auto simp: handle_proxy_request_def Let_def split: option.splits if_splits)

lemma tunnel_dialled: "a \<in> set (eg_dialled (egress_step st e)) \<Longrightarrow> a \<in> set (eg_dialled st) \<or>
    (\<exists>resolve up n. e = Dial resolve up n \<and> n < length (eg_upgrading st) \<and> fst a = eg_upgrading st ! n \<and>
       snd a \<in> set (fst (tunnel resolve up (fst a))))"
  by (cases e) (auto simp: Let_def split: proxy_answer.splits prod.splits if_splits)

lemma tunnel_opened: "a \<in> set (eg_tunnels (egress_step st e)) \<Longrightarrow> a \<in> set (eg_tunnels st) \<or>
    (\<exists>resolve up n. e = Dial resolve up n \<and> n < length (eg_upgrading st) \<and> fst a = eg_upgrading st ! n \<and>
       snd (tunnel resolve up (fst a)) = Inr (snd a))"
  using set_without_nth
  by (cases e) (fastforce simp: Let_def split: proxy_answer.splits prod.splits if_splits sum.splits)+

lemma tunnel_ready_step: "tunnel_ready (egress_step st e) t \<Longrightarrow> tunnel_ready st t \<or> permits_target st e t"
proof -
  assume "tunnel_ready (egress_step st e) t"
  then consider (up) "t \<in> set (eg_upgrading (egress_step st e))"
    | (dial) a where "(t, a) \<in> set (eg_dialled (egress_step st e))" | (tun) a where "(t, a) \<in> set (eg_tunnels (egress_step st e))"
    by (auto simp: tunnel_ready_def)
  then show ?thesis
  proof cases
    case up
    then show ?thesis using set_without_nth handled_target
      by (cases e) (fastforce simp: tunnel_ready_def Let_def split: proxy_answer.splits prod.splits if_splits)+
  next
    case dial
    then show ?thesis using tunnel_dialled [OF dial] by (auto simp: tunnel_ready_def rev_image_eqI)
  next
    case tun
    then show ?thesis using tunnel_opened [OF tun] by (auto simp: tunnel_ready_def rev_image_eqI)
  qed
qed

lemma allowed_step [simp]: "eg_allowed (egress_step st e) = eg_allowed st"
  by (cases e) (auto simp: Let_def split: proxy_answer.split prod.split)

lemma allowed_run [simp]: "eg_allowed (foldl egress_step st es) = eg_allowed st"
  by (rule foldl_frame) simp

interpretation allowed_tunnels: authorised tunnel_ready permits_target "\<lambda>_. True" egress_step
  by unfold_locales (simp_all add: tunnel_ready_step)

lemma start_not_ready: "\<not> tunnel_ready (start_egress d) t"
  by (simp add: tunnel_ready_def start_egress_def)

lemma external_run:
  assumes "(t, a) \<in> set (eg_dialled (foldl egress_step (start_egress d) es))"
  shows "\<not> is_internal_ip (sa_ip a)"
proof -
  have "\<forall>x \<in> set (eg_dialled (foldl egress_step (start_egress d) es)). \<not> is_internal_ip (sa_ip (snd x))"
  proof (rule foldl_invariant)
    fix st :: egress and e
    assume old: "\<forall>x \<in> set (eg_dialled st). \<not> is_internal_ip (sa_ip (snd x))"
    show "\<forall>x \<in> set (eg_dialled (egress_step st e)). \<not> is_internal_ip (sa_ip (snd x))"
    proof
      fix x
      assume "x \<in> set (eg_dialled (egress_step st e))"
      then consider "x \<in> set (eg_dialled st)" | resolve up where "snd x \<in> set (fst (tunnel resolve up (fst x)))"
        using tunnel_dialled [of x st e] by auto
      then show "\<not> is_internal_ip (sa_ip (snd x))"
        by cases (use old tunnel_external in blast)+
    qed
  qed (simp add: start_egress_def)
  then show ?thesis using assms by force
qed

section \<open>Permits\<close>

lemma permits_run: "eg_open (foldl egress_step (start_egress d) es) \<le> 100"
proof (rule foldl_invariant [where P = "\<lambda>st. eg_open st \<le> 100"])
  fix st :: egress and e
  assume "eg_open st \<le> 100"
  then show "eg_open (egress_step st e) \<le> 100"
    by (cases e) (auto simp: release_permit_def max_concurrent_tunnels_def Let_def split: proxy_answer.split prod.split)
qed (simp add: start_egress_def)

text \<open>The permits do not bound the tunnels: a client can open any number of them, one connection each.\<close>

definition one_tunnel :: "authority \<Rightarrow> sockaddr \<Rightarrow> egress_event list" where
  "one_tunnel a addr = [Accepted, Requested (ConnectTo (Some a)), Dial (\<lambda>_. Some [addr]) (\<lambda>_. True) 0]"

lemma one_tunnel_opens:
  assumes "eg_open st = 0" "eg_waiting st = 0" "eg_upgrading st = []" and "to_lowercase (au_host a) \<in> set (eg_allowed st)"
    and "au_port a = None" and "\<not> is_internal_ip (sa_ip addr)"
  shows "foldl egress_step st (one_tunnel a addr) =
    st\<lparr>eg_tunnels := eg_tunnels st @ [(au_text a, addr)], eg_dialled := eg_dialled st @ [(au_text a, addr)]\<rparr>"
  using assms
  by (simp add: one_tunnel_def max_concurrent_tunnels_def handle_proxy_request_def Let_def release_permit_def
      tunnel_def without_nth_def)

lemma tunnels_unbounded:
  fixes a :: authority and addr :: sockaddr
  assumes "to_lowercase (au_host a) \<in> set (allowed_domains d)" and "au_port a = None" and "\<not> is_internal_ip (sa_ip addr)"
  shows "\<exists>es. length (eg_tunnels (foldl egress_step (start_egress d) es)) = n"
proof -
  have "\<exists>es ts ds. foldl egress_step (start_egress d) es = (start_egress d)\<lparr>eg_tunnels := ts, eg_dialled := ds\<rparr> \<and> length ts = n"
  proof (induction n)
    case 0
    have "foldl egress_step (start_egress d) [] = (start_egress d)\<lparr>eg_tunnels := [], eg_dialled := []\<rparr>"
      by (simp add: start_egress_def)
    then show ?case by blast
  next
    case (Suc n)
    then obtain es ts ds where run: "foldl egress_step (start_egress d) es = (start_egress d)\<lparr>eg_tunnels := ts, eg_dialled := ds\<rparr>"
      and n: "length ts = n" by blast
    let ?st = "(start_egress d)\<lparr>eg_tunnels := ts, eg_dialled := ds\<rparr>"
    have "foldl egress_step ?st (one_tunnel a addr) =
        ?st\<lparr>eg_tunnels := ts @ [(au_text a, addr)], eg_dialled := ds @ [(au_text a, addr)]\<rparr>"
      using one_tunnel_opens [of ?st a addr] assms by (simp add: start_egress_def)
    then have "foldl egress_step (start_egress d) (es @ one_tunnel a addr) =
        (start_egress d)\<lparr>eg_tunnels := ts @ [(au_text a, addr)], eg_dialled := ds @ [(au_text a, addr)]\<rparr>"
      by (simp add: run)
    then show ?case using n by (metis length_append_singleton)
  qed
  then obtain es ts ds where "foldl egress_step (start_egress d) es = (start_egress d)\<lparr>eg_tunnels := ts, eg_dialled := ds\<rparr>"
    and "length ts = n" by blast
  then have "length (eg_tunnels (foldl egress_step (start_egress d) es)) = n" by simp
  then show ?thesis ..
qed

text \<open>An IPv4 address written as an IPv6 one passes the test.\<close>

lemma mapped_address_passes: "\<not> is_internal_ip (V6 0xFFFF7F000001)"
  by simp

end
