(* ===== verification/Mcpd.thy ===== *)
theory Mcpd
  imports Decimal
begin

text \<open>
  \<open>crates/osmoda-mcpd\<close>: the manager of MCP servers. A child process is known by the position of
  its start in the list of all starts; \<open>pr_live\<close> lists those that the operating system still runs.
  Handlers and the ten-second tick run under the mutex of the state and are one step each, and a
  process may exit between any two of them (\<open>ProcExited\<close>).
\<close>

section \<open>Servers\<close>

record server_config =
  sc_name :: string
  sc_command :: string
  sc_args :: "string list"
  sc_env :: "(string \<times> string) list"
  sc_transport :: string
  sc_domains :: "string list"
  sc_secret :: "string option"

datatype server_status = Stopped | Starting | Running | ServerFailed | Restarting

fun server_status_text :: "server_status \<Rightarrow> string" where
  "server_status_text Stopped = ''stopped''"
| "server_status_text Starting = ''starting''"
| "server_status_text Running = ''running''"
| "server_status_text ServerFailed = ''failed''"
| "server_status_text Restarting = ''restarting''"

record managed_server =
  ms_config :: server_config
  ms_status :: server_status
  ms_pid :: "nat option"
  ms_started :: "timestamp option"
  ms_restarts :: nat
  ms_error :: "string option"
  ms_child :: "nat option"

definition from_config :: "server_config \<Rightarrow> managed_server" where
  "from_config c = \<lparr>ms_config = c, ms_status = Stopped, ms_pid = None, ms_started = None, ms_restarts = 0,
     ms_error = None, ms_child = None\<rparr>"

abbreviation ms_name :: "managed_server \<Rightarrow> string" where
  "ms_name s \<equiv> sc_name (ms_config s)"

section \<open>Starting and stopping a process\<close>

record spawned =
  sp_config :: server_config
  sp_env :: "(string \<times> string) list"

record procs =
  pr_spawned :: "spawned list"
  pr_live :: "nat list"

text \<open>What a start meets: the secret file's text, if it can be read, and the spawn's error or the child's pid.\<close>

record start_env =
  se_secret :: "string option"
  se_spawn :: "string + nat"
  se_now :: timestamp

definition env_insert :: "string \<Rightarrow> string \<Rightarrow> (string \<times> string) list \<Rightarrow> (string \<times> string) list" where
  "env_insert k v env = filter (\<lambda>p. fst p \<noteq> k) env @ [(k, v)]"

definition proxy_url :: "nat \<Rightarrow> string" where
  "proxy_url port = ''http://127.0.0.1:'' @ dec port"

definition proxy_env :: "nat \<Rightarrow> server_config \<Rightarrow> (string \<times> string) list \<Rightarrow> (string \<times> string) list" where
  "proxy_env port c env =
     (if sc_domains c = [] then env
      else env_insert ''HTTPS_PROXY'' (proxy_url port) (env_insert ''HTTP_PROXY'' (proxy_url port) env))"

definition secret_key :: "string \<Rightarrow> string" where
  "secret_key name = List.map (\<lambda>c. if c = CHR ''-'' then CHR ''_'' else c) (to_uppercase name) @ ''_SECRET''"

definition server_env :: "nat \<Rightarrow> string option \<Rightarrow> server_config \<Rightarrow> (string \<times> string) list" where
  "server_env port secret c =
     (let env = proxy_env port c (sc_env c)
      in case sc_secret c of
           None \<Rightarrow> env
         | Some path \<Rightarrow>
             (case secret of None \<Rightarrow> env | Some s \<Rightarrow> env_insert (secret_key (sc_name c)) (trim s) env))"

definition start_server ::
  "nat \<Rightarrow> start_env \<Rightarrow> managed_server \<Rightarrow> procs \<Rightarrow> managed_server \<times> procs \<times> (string + unit)" where
  "start_server port env s ps =
     (let s1 = s\<lparr>ms_status := Starting\<rparr>
      in case se_spawn env of
           Inl e \<Rightarrow> (s1, ps, Inl e)
         | Inr pid \<Rightarrow>
             (s1\<lparr>ms_pid := Some pid, ms_started := Some (se_now env), ms_status := Running, ms_error := None,
                 ms_child := Some (length (pr_spawned ps))\<rparr>,
              ps\<lparr>pr_spawned := pr_spawned ps @ [\<lparr>sp_config = ms_config s, sp_env = server_env port (se_secret env) (ms_config s)\<rparr>],
                 pr_live := pr_live ps @ [length (pr_spawned ps)]\<rparr>,
              Inr ()))"

definition kill :: "nat option \<Rightarrow> procs \<Rightarrow> procs" where
  "kill child ps = (case child of None \<Rightarrow> ps | Some h \<Rightarrow> ps\<lparr>pr_live := removeAll h (pr_live ps)\<rparr>)"

definition stop_server :: "managed_server \<Rightarrow> procs \<Rightarrow> managed_server \<times> procs" where
  "stop_server s ps = (s\<lparr>ms_child := None, ms_pid := None, ms_status := Stopped\<rparr>, kill (ms_child s) ps)"

text \<open>\<open>tw\<close>: what \<open>try_wait\<close> would say of each process: an error, or the exit status once it is gone.\<close>

definition check_server :: "(nat \<Rightarrow> string + string) \<Rightarrow> procs \<Rightarrow> managed_server \<Rightarrow> managed_server" where
  "check_server tw ps s =
     (case ms_child s of
        Some h \<Rightarrow>
          (case tw h of
             Inl e \<Rightarrow> s\<lparr>ms_status := ServerFailed, ms_error := Some (''failed to check process: '' @ e)\<rparr>
           | Inr st \<Rightarrow>
               if h \<in> set (pr_live ps) then s
               else s\<lparr>ms_status := ServerFailed, ms_error := Some (''process exited with '' @ st),
                      ms_child := None, ms_pid := None\<rparr>)
      | None \<Rightarrow>
          if ms_status s = Running
          then s\<lparr>ms_status := ServerFailed, ms_error := Some ''child process handle lost''\<rparr> else s)"

section \<open>The generated configuration\<close>

definition json_object :: "(string \<times> json) list \<Rightarrow> json" where
  "json_object kvs = JObj (sort_key fst kvs)"

definition json_insert :: "string \<Rightarrow> json \<Rightarrow> (string \<times> json) list \<Rightarrow> (string \<times> json) list" where
  "json_insert k v kvs = filter (\<lambda>p. fst p \<noteq> k) kvs @ [(k, v)]"

definition published_server :: "managed_server \<Rightarrow> bool" where
  "published_server s = (ms_status s = Running \<or> ms_status s = Starting)"

definition config_entry :: "nat \<Rightarrow> server_config \<Rightarrow> json" where
  "config_entry port c =
     json_object [(''command'', JStr (sc_command c)), (''args'', JArr (List.map JStr (sc_args c))),
       (''env'', json_object (List.map (\<lambda>(k, v). (k, JStr v)) (proxy_env port c (sc_env c)))),
       (''transport'', JStr (sc_transport c))]"

definition openclaw_entries :: "managed_server list \<Rightarrow> nat \<Rightarrow> (string \<times> json) list" where
  "openclaw_entries servers port =
     foldl (\<lambda>m s. if published_server s then json_insert (ms_name s) (config_entry port (ms_config s)) m else m) [] servers"

definition generate_openclaw_config :: "managed_server list \<Rightarrow> nat \<Rightarrow> json" where
  "generate_openclaw_config servers port = json_object (openclaw_entries servers port)"

section \<open>The daemon\<close>

record mcpd =
  mc_servers :: "managed_server list"
  mc_procs :: procs
  mc_port :: nat
  mc_published :: "json option"
  mc_receipts :: "(string \<times> string \<times> string) list"

definition log_mcp :: "string \<Rightarrow> string \<Rightarrow> string \<Rightarrow> mcpd \<Rightarrow> mcpd" where
  "log_mcp event name detail st = st\<lparr>mc_receipts := mc_receipts st @ [(event, name, detail)]\<rparr>"

text \<open>\<open>io\<close>: whether the file could be written.\<close>

definition write_openclaw_config :: "bool \<Rightarrow> mcpd \<Rightarrow> mcpd" where
  "write_openclaw_config io st =
     (if io then st\<lparr>mc_published := Some (generate_openclaw_config (mc_servers st) (mc_port st))\<rparr> else st)"

text \<open>\<open>file\<close>: the text of the configuration file, if it exists and can be read.\<close>

definition load_server_configs :: "(string \<Rightarrow> server_config list option) \<Rightarrow> string option \<Rightarrow> server_config list" where
  "load_server_configs parse file =
     (case file of
        None \<Rightarrow> []
      | Some text \<Rightarrow> (case parse text of None \<Rightarrow> [] | Some cs \<Rightarrow> cs))"

text \<open>The first server of a name, changed together with the processes.\<close>

fun with_server :: "string \<Rightarrow> (managed_server \<Rightarrow> procs \<Rightarrow> managed_server \<times> procs \<times> 'r) \<Rightarrow> managed_server list \<Rightarrow> procs \<Rightarrow>
    (managed_server list \<times> procs \<times> 'r) option" where
  "with_server name f [] ps = None"
| "with_server name f (s # ss) ps =
     (if ms_name s = name then (case f s ps of (s', ps', r) \<Rightarrow> Some (s' # ss, ps', r))
      else map_option (\<lambda>(ss', ps', r). (s # ss', ps', r)) (with_server name f ss ps))"

record server_entry =
  sl_name :: string
  sl_command :: string
  sl_transport :: string
  sl_status :: server_status
  sl_pid :: "nat option"
  sl_started :: "timestamp option"
  sl_restarts :: nat
  sl_error :: "string option"
  sl_domains :: "string list"

definition server_entry_of :: "managed_server \<Rightarrow> server_entry" where
  "server_entry_of s =
     \<lparr>sl_name = ms_name s, sl_command = sc_command (ms_config s), sl_transport = sc_transport (ms_config s),
      sl_status = ms_status s, sl_pid = ms_pid s, sl_started = ms_started s, sl_restarts = ms_restarts s,
      sl_error = ms_error s, sl_domains = sc_domains (ms_config s)\<rparr>"

definition servers_list_handler :: "mcpd \<Rightarrow> server_entry list" where
  "servers_list_handler st = List.map server_entry_of (mc_servers st)"

definition server_detail_handler :: "mcpd \<Rightarrow> string \<Rightarrow> server_entry reply" where
  "server_detail_handler st name =
     (case find_by ms_name name (mc_servers st) of None \<Rightarrow> Fail 404 | Some s \<Rightarrow> Reply 200 (server_entry_of s))"

record mcp_health =
  mh_status :: string
  mh_count :: nat
  mh_running :: nat
  mh_servers :: "(string \<times> server_status \<times> nat option \<times> string option) list"

text \<open>\<open>elapsed\<close>: the seconds since a start, if its time can be read.\<close>

definition mcp_health_handler :: "(timestamp \<Rightarrow> int option) \<Rightarrow> mcpd \<Rightarrow> mcp_health" where
  "mcp_health_handler elapsed st =
     \<lparr>mh_status = ''ok'', mh_count = length (mc_servers st),
      mh_running = length (filter (\<lambda>s. ms_status s = Running) (mc_servers st)),
      mh_servers = List.map (\<lambda>s. (ms_name s, ms_status s, ms_pid s,
        map_option (\<lambda>n. dec_int n @ ''s'') (Option.bind (ms_started s) elapsed))) (mc_servers st)\<rparr>"

definition server_start_handler :: "start_env \<Rightarrow> mcpd \<Rightarrow> string \<Rightarrow> mcpd \<times> string reply" where
  "server_start_handler env st name =
     (case with_server name (\<lambda>s ps. if ms_status s = Running then (s, ps, Inr False)
             else case start_server (mc_port st) env s ps of (s', ps', r) \<Rightarrow> (s', ps', and_then r (\<lambda>_. Inr True)))
           (mc_servers st) (mc_procs st) of
        None \<Rightarrow> (st, Fail 404)
      | Some (ss, ps, r) \<Rightarrow>
          (let st1 = st\<lparr>mc_servers := ss, mc_procs := ps\<rparr>
           in case r of
                Inl e \<Rightarrow> (st1, Fail 500)
              | Inr False \<Rightarrow> (st1, Reply 200 ''already_running'')
              | Inr True \<Rightarrow> (log_mcp ''server.start'' name ''started via API'' st1, Reply 200 ''started'')))"

definition server_stop_handler :: "mcpd \<Rightarrow> string \<Rightarrow> mcpd \<times> string reply" where
  "server_stop_handler st name =
     (case with_server name (\<lambda>s ps. case stop_server s ps of (s', ps') \<Rightarrow> (s', ps', ())) (mc_servers st) (mc_procs st) of
        None \<Rightarrow> (st, Fail 404)
      | Some (ss, ps, _) \<Rightarrow>
          (log_mcp ''server.stop'' name ''stopped via API'' (st\<lparr>mc_servers := ss, mc_procs := ps\<rparr>), Reply 200 ''stopped''))"

definition restart_server :: "nat \<Rightarrow> start_env \<Rightarrow> managed_server \<Rightarrow> procs \<Rightarrow> managed_server \<times> procs \<times> (string + unit)" where
  "restart_server port env s ps =
     (case stop_server s ps of
        (s1, ps1) \<Rightarrow>
          (case start_server port env s1 ps1 of
             (s2, ps2, Inl e) \<Rightarrow> (s2, ps2, Inl e)
           | (s2, ps2, Inr _) \<Rightarrow> (s2\<lparr>ms_restarts := wrapping_add_w 32 (ms_restarts s2) 1\<rparr>, ps2, Inr ())))"

definition server_restart_handler :: "start_env \<Rightarrow> mcpd \<Rightarrow> string \<Rightarrow> mcpd \<times> string reply" where
  "server_restart_handler env st name =
     (case with_server name (restart_server (mc_port st) env) (mc_servers st) (mc_procs st) of
        None \<Rightarrow> (st, Fail 404)
      | Some (ss, ps, r) \<Rightarrow>
          (let st1 = st\<lparr>mc_servers := ss, mc_procs := ps\<rparr>
           in case r of
                Inl e \<Rightarrow> (st1, Fail 500)
              | Inr _ \<Rightarrow> (log_mcp ''server.restart'' name ''restarted via API'' st1, Reply 200 ''restarted'')))"

definition remove_server :: "mcpd \<Rightarrow> string \<Rightarrow> mcpd" where
  "remove_server st name =
     (case with_server name (\<lambda>s ps. case stop_server s ps of (s', ps') \<Rightarrow> (s', ps', ())) (mc_servers st) (mc_procs st) of
        None \<Rightarrow> st
      | Some (ss, ps, _) \<Rightarrow> log_mcp ''server.stop'' name ''removed during reload'' (st\<lparr>mc_servers := ss, mc_procs := ps\<rparr>))"

definition add_server :: "string list \<Rightarrow> mcpd \<times> nat \<Rightarrow> start_env \<times> server_config \<Rightarrow> mcpd \<times> nat" where
  "add_server existing acc p =
     (let (st, started) = acc; (env, c) = p
      in if sc_name c \<in> set existing then acc
         else case start_server (mc_port st) env (from_config c) (mc_procs st) of
                (s, ps, Inl e) \<Rightarrow> (st\<lparr>mc_servers := mc_servers st @ [s], mc_procs := ps\<rparr>, started)
              | (s, ps, Inr _) \<Rightarrow>
                  (log_mcp ''server.start'' (sc_name c) ''started during reload''
                     (st\<lparr>mc_servers := mc_servers st @ [s], mc_procs := ps\<rparr>), started + 1))"

text \<open>\<open>envs i\<close> is what the start of the \<open>i\<close>-th server of the new configuration meets.\<close>

definition reload_handler ::
  "bool \<Rightarrow> (nat \<Rightarrow> start_env) \<Rightarrow> server_config list \<Rightarrow> mcpd \<Rightarrow> mcpd \<times> nat \<times> nat \<times> nat" where
  "reload_handler io envs configs st =
     (let new_names = List.map sc_name configs; existing = List.map ms_name (mc_servers st);
          to_remove = filter (\<lambda>n. n \<notin> set new_names) existing;
          st1 = foldl remove_server st to_remove;
          st2 = st1\<lparr>mc_servers := filter (\<lambda>s. ms_name s \<notin> set to_remove) (mc_servers st1)\<rparr>;
          (st3, started) = foldl (add_server existing) (st2, 0) (zip (List.map envs [0..<length configs]) configs);
          st4 = write_openclaw_config io st3
      in (st4, length to_remove, started, length (mc_servers st4)))"

section \<open>The manager loop, start-up and shutdown\<close>

definition check_running :: "(nat \<Rightarrow> string + string) \<Rightarrow> procs \<Rightarrow> managed_server \<Rightarrow> managed_server" where
  "check_running tw ps s = (if ms_status s = Running then check_server tw ps s else s)"

definition crashed :: "(nat \<Rightarrow> string + string) \<Rightarrow> procs \<Rightarrow> managed_server \<Rightarrow> bool" where
  "crashed tw ps s = (ms_status s = Running \<and> ms_status (check_server tw ps s) = ServerFailed)"

definition revive :: "nat \<Rightarrow> start_env \<Rightarrow> managed_server \<Rightarrow> procs \<Rightarrow> managed_server \<times> procs \<times> (string \<times> string \<times> string) list" where
  "revive port env s ps =
     (let crash = (''server.crash'', ms_name s, ''process exited unexpectedly'')
      in case start_server port env (s\<lparr>ms_status := Restarting\<rparr>) ps of
           (s1, ps1, Inl e) \<Rightarrow> (s1\<lparr>ms_status := ServerFailed, ms_error := Some e\<rparr>, ps1, [crash])
         | (s1, ps1, Inr _) \<Rightarrow>
             (s1\<lparr>ms_restarts := wrapping_add_w 32 (ms_restarts s1) 1\<rparr>, ps1,
              [crash, (''server.restart'', ms_name s, ''restarted after crash'')]))"

text \<open>One tick: every running server is checked first, then the crashed ones are started again.\<close>

fun revive_crashed :: "nat \<Rightarrow> (nat \<Rightarrow> start_env) \<Rightarrow> nat \<Rightarrow> (bool \<times> managed_server) list \<Rightarrow> procs \<Rightarrow>
    managed_server list \<times> procs \<times> (string \<times> string \<times> string) list" where
  "revive_crashed port envs i [] ps = ([], ps, [])"
| "revive_crashed port envs i ((c, s) # cs) ps =
     (let (s1, ps1, l1) = (if c then revive port (envs i) s ps else (s, ps, []));
          (ss, ps2, l2) = revive_crashed port envs (Suc i) cs ps1
      in (s1 # ss, ps2, l1 @ l2))"

definition manager_tick :: "(nat \<Rightarrow> string + string) \<Rightarrow> (nat \<Rightarrow> start_env) \<Rightarrow> mcpd \<Rightarrow> mcpd" where
  "manager_tick tw envs st =
     (case revive_crashed (mc_port st) envs 0
             (List.map (\<lambda>s. (crashed tw (mc_procs st) s, check_running tw (mc_procs st) s)) (mc_servers st)) (mc_procs st) of
        (ss, ps, log) \<Rightarrow> st\<lparr>mc_servers := ss, mc_procs := ps, mc_receipts := mc_receipts st @ log\<rparr>)"

definition start_one :: "mcpd \<Rightarrow> start_env \<times> server_config \<Rightarrow> mcpd" where
  "start_one st p =
     (let (env, c) = p
      in case start_server (mc_port st) env (from_config c) (mc_procs st) of
           (s, ps, Inl e) \<Rightarrow> log_mcp ''server.start_failed'' (sc_name c) e (st\<lparr>mc_servers := mc_servers st @ [s], mc_procs := ps\<rparr>)
         | (s, ps, Inr _) \<Rightarrow>
             log_mcp ''server.start'' (sc_name c) ''started successfully'' (st\<lparr>mc_servers := mc_servers st @ [s], mc_procs := ps\<rparr>))"

definition start_mcpd :: "bool \<Rightarrow> (nat \<Rightarrow> start_env) \<Rightarrow> nat \<Rightarrow> server_config list \<Rightarrow> mcpd" where
  "start_mcpd io envs port configs =
     write_openclaw_config io (foldl start_one
       \<lparr>mc_servers = [], mc_procs = \<lparr>pr_spawned = [], pr_live = []\<rparr>, mc_port = port, mc_published = None, mc_receipts = []\<rparr>
       (zip (List.map envs [0..<length configs]) configs))"

fun stop_all :: "managed_server list \<Rightarrow> procs \<Rightarrow> managed_server list \<times> procs" where
  "stop_all [] ps = ([], ps)"
| "stop_all (s # ss) ps = (case stop_server s ps of (s1, ps1) \<Rightarrow> (case stop_all ss ps1 of (ss1, ps2) \<Rightarrow> (s1 # ss1, ps2)))"

definition shutdown_mcpd :: "mcpd \<Rightarrow> mcpd" where
  "shutdown_mcpd st = (case stop_all (mc_servers st) (mc_procs st) of (ss, ps) \<Rightarrow> st\<lparr>mc_servers := ss, mc_procs := ps\<rparr>)"

datatype mcp_event =
    StartServer start_env string
  | StopServer string
  | RestartServer start_env string
  | Reload bool "nat \<Rightarrow> start_env" "server_config list"
  | ManagerTick "nat \<Rightarrow> string + string" "nat \<Rightarrow> start_env"
  | ProcExited nat

fun mcp_step :: "mcpd \<Rightarrow> mcp_event \<Rightarrow> mcpd" where
  "mcp_step st (StartServer env name) = fst (server_start_handler env st name)"
| "mcp_step st (StopServer name) = fst (server_stop_handler st name)"
| "mcp_step st (RestartServer env name) = fst (server_restart_handler env st name)"
| "mcp_step st (Reload io envs configs) = fst (reload_handler io envs configs st)"
| "mcp_step st (ManagerTick tw envs) = manager_tick tw envs st"
| "mcp_step st (ProcExited h) = st\<lparr>mc_procs := kill (Some h) (mc_procs st)\<rparr>"


section \<open>Every process is some server's child\<close>

definition well_spawned :: "nat \<Rightarrow> spawned \<Rightarrow> bool" where
  "well_spawned port sp = (\<exists>secret. sp_env sp = server_env port secret (sp_config sp))"

definition srv_ok :: "managed_server \<Rightarrow> bool" where
  "srv_ok s = ((ms_child s \<noteq> None) = (ms_status s = Running))"

definition children :: "managed_server list \<Rightarrow> nat list" where
  "children ss = List.map_filter ms_child ss"

definition managed :: "nat \<Rightarrow> managed_server list \<Rightarrow> procs \<Rightarrow> bool" where
  "managed port ss ps =
     (list_all srv_ok ss \<and> set (pr_live ps) \<subseteq> set (children ss) \<and> list_all (well_spawned port) (pr_spawned ps))"

text \<open>A change of one server: whatever lives after it lived before and was not its child, or is its child.\<close>

definition change_ok :: "nat \<Rightarrow> managed_server \<Rightarrow> procs \<Rightarrow> managed_server \<Rightarrow> procs \<Rightarrow> bool" where
  "change_ok port s ps s' ps' =
     (srv_ok s' \<and> ms_config s' = ms_config s \<and>
      set (pr_live ps') \<subseteq> (set (pr_live ps) - set_option (ms_child s)) \<union> set_option (ms_child s') \<and>
      (list_all (well_spawned port) (pr_spawned ps) \<longrightarrow> list_all (well_spawned port) (pr_spawned ps')))"

lemma set_children: "set (children ss) = (\<Union>s \<in> set ss. set_option (ms_child s))"
  by (induction ss) (auto simp: children_def List.map_filter_simps split: option.splits)

lemma managed_change:
  assumes "managed port (pre @ s # post) ps" and "change_ok port s ps s' ps'"
  shows "managed port (pre @ s' # post) ps'"
  using assms unfolding managed_def change_ok_def set_children by auto

lemma change_refl: "srv_ok s \<Longrightarrow> change_ok port s ps s ps"
  by (auto simp: change_ok_def)

lemma start_change:
  assumes "start_server port env s ps = (s', ps', r)" and "ms_child s = None"
  shows "change_ok port s ps s' ps'"
  using assms by (auto simp: start_server_def Let_def change_ok_def srv_ok_def well_spawned_def split: sum.splits)

lemma stop_change: "stop_server s ps = (s', ps') \<Longrightarrow> change_ok port s ps s' ps'"
  by (auto simp: stop_server_def change_ok_def srv_ok_def kill_def split: option.splits)

lemma stop_child: "stop_server s ps = (s', ps') \<Longrightarrow> ms_child s' = None \<and> ms_config s' = ms_config s"
  by (auto simp: stop_server_def)

lemma change_trans:
  assumes "change_ok port s ps s1 ps1" and "change_ok port s1 ps1 s2 ps2"
  shows "change_ok port s ps s2 ps2"
  using assms unfolding change_ok_def by auto

lemma with_server_split:
  "with_server name f ss ps = Some (ss', ps', r) \<Longrightarrow>
   \<exists>pre s post s'. ss = pre @ s # post \<and> ss' = pre @ s' # post \<and> f s ps = (s', ps', r) \<and> ms_name s = name \<and>
     name \<notin> ms_name ` set pre"
proof (induction name f ss ps arbitrary: ss' rule: with_server.induct)
  case (2 name f s ss ps)
  show ?case
  proof (cases "ms_name s = name")
    case True
    with 2(2) show ?thesis by (intro exI [of _ "[]"]) (auto split: prod.splits)
  next
    case False
    with 2(2) obtain ss1 where w: "with_server name f ss ps = Some (ss1, ps', r)" and ss': "ss' = s # ss1" by auto
    from 2(1) [OF False w] obtain pre t post t' where
      "ss = pre @ t # post \<and> ss1 = pre @ t' # post \<and> f t ps = (t', ps', r) \<and> ms_name t = name \<and> name \<notin> ms_name ` set pre"
      by blast
    then show ?thesis using False ss' by (intro exI [of _ "s # pre"]) auto
  qed
qed simp

lemma with_server_None: "with_server name f ss ps = None \<longleftrightarrow> name \<notin> ms_name ` set ss"
  by (induction name f ss ps rule: with_server.induct) (auto split: prod.split)

lemma with_server_managed:
  assumes "with_server name f ss ps = Some (ss', ps', r)" and "managed port ss ps"
    and "\<And>s s' ps' r. s \<in> set ss \<Longrightarrow> srv_ok s \<Longrightarrow> f s ps = (s', ps', r) \<Longrightarrow> change_ok port s ps s' ps'"
  shows "managed port ss' ps' \<and> List.map ms_name ss' = List.map ms_name ss"
proof -
  from with_server_split [OF assms(1)] obtain pre s post s' where ss: "ss = pre @ s # post" "ss' = pre @ s' # post"
    and f: "f s ps = (s', ps', r)" by blast
  have "srv_ok s" using assms(2) by (simp add: managed_def ss)
  then have c: "change_ok port s ps s' ps'" using assms(3) [of s] f ss by simp
  then have "ms_name s' = ms_name s" by (simp add: change_ok_def)
  then show ?thesis using managed_change [OF _ c, of pre post] assms(2) by (simp add: ss)
qed

text \<open>The state between two events: as above, and no two servers share a name.\<close>

definition mcp_ok :: "mcpd \<Rightarrow> bool" where
  "mcp_ok st = (managed (mc_port st) (mc_servers st) (mc_procs st) \<and> distinct (List.map ms_name (mc_servers st)))"

lemma log_mcp_frame [simp]:
  "mc_servers (log_mcp e n d st) = mc_servers st" "mc_procs (log_mcp e n d st) = mc_procs st"
  "mc_port (log_mcp e n d st) = mc_port st" "mcp_ok (log_mcp e n d st) = mcp_ok st"
  by (simp_all add: log_mcp_def mcp_ok_def)

lemma write_config_frame [simp]:
  "mc_servers (write_openclaw_config io st) = mc_servers st" "mc_procs (write_openclaw_config io st) = mc_procs st"
  "mc_port (write_openclaw_config io st) = mc_port st" "mcp_ok (write_openclaw_config io st) = mcp_ok st"
  by (simp_all add: write_openclaw_config_def mcp_ok_def)

lemma mcp_ok_update:
  assumes "mcp_ok st" and "with_server name f (mc_servers st) (mc_procs st) = Some (ss, ps, r)"
    and "\<And>s s' ps' r. s \<in> set (mc_servers st) \<Longrightarrow> srv_ok s \<Longrightarrow> f s (mc_procs st) = (s', ps', r) \<Longrightarrow>
      change_ok (mc_port st) s (mc_procs st) s' ps'"
  shows "mcp_ok (st\<lparr>mc_servers := ss, mc_procs := ps\<rparr>)"
  using with_server_managed [OF assms(2) _ assms(3)] assms(1) by (simp add: mcp_ok_def)

lemma start_handler_ok: "mcp_ok st \<Longrightarrow> mcp_ok (fst (server_start_handler env st name))"
proof -
  assume ok: "mcp_ok st"
  let ?f = "\<lambda>s ps. if ms_status s = Running then (s, ps, Inr False)
     else case start_server (mc_port st) env s ps of (s', ps', r) \<Rightarrow> (s', ps', and_then r (\<lambda>_. Inr True))"
  have change: "change_ok (mc_port st) s (mc_procs st) s' ps'" if "srv_ok s" "?f s (mc_procs st) = (s', ps', r)" for s s' ps' r
    using that start_change [of "mc_port st" env s "mc_procs st"]
    by (auto simp: srv_ok_def intro: change_refl split: if_splits prod.splits)
  show ?thesis
  proof (cases "with_server name ?f (mc_servers st) (mc_procs st)")
    case (Some x)
    obtain ss ps r where x: "x = (ss, ps, r)" by (cases x)
    have "mcp_ok (st\<lparr>mc_servers := ss, mc_procs := ps\<rparr>)"
      by (rule mcp_ok_update [OF ok Some [unfolded x]]) (rule change)
    then show ?thesis
      using Some by (auto simp: server_start_handler_def Let_def x split: sum.split bool.split)
  qed (simp add: server_start_handler_def ok)
qed

lemma stop_handler_ok: "mcp_ok st \<Longrightarrow> mcp_ok (fst (server_stop_handler st name))"
proof -
  assume ok: "mcp_ok st"
  let ?f = "\<lambda>s ps. case stop_server s ps of (s', ps') \<Rightarrow> (s', ps', ())"
  show ?thesis
  proof (cases "with_server name ?f (mc_servers st) (mc_procs st)")
    case (Some x)
    obtain ss ps r where x: "x = (ss, ps, r)" by (cases x)
    have "mcp_ok (st\<lparr>mc_servers := ss, mc_procs := ps\<rparr>)"
      by (rule mcp_ok_update [OF ok Some [unfolded x]]) (auto intro: stop_change split: prod.splits)
    then show ?thesis using Some by (simp add: server_stop_handler_def x)
  qed (simp add: server_stop_handler_def ok)
qed

lemma restart_change:
  assumes "restart_server port env s ps = (s', ps', r)"
  shows "change_ok port s ps s' ps'"
proof -
  obtain s1 ps1 where stop: "stop_server s ps = (s1, ps1)" by (meson surj_pair)
  obtain s2 ps2 r2 where start: "start_server port env s1 ps1 = (s2, ps2, r2)" by (meson prod_cases3)
  have c1: "change_ok port s ps s1 ps1" by (rule stop_change [OF stop])
  have c2: "change_ok port s1 ps1 s2 ps2" using start_change [OF start] stop_child [OF stop] by simp
  note c = change_trans [OF c1 c2]
  moreover have "change_ok port s ps (s2\<lparr>ms_restarts := n\<rparr>) ps2" for n
    using c by (simp add: change_ok_def srv_ok_def)
  ultimately show ?thesis using assms by (auto simp: restart_server_def stop start split: sum.splits)
qed

lemma restart_handler_ok: "mcp_ok st \<Longrightarrow> mcp_ok (fst (server_restart_handler env st name))"
proof -
  assume ok: "mcp_ok st"
  show ?thesis
  proof (cases "with_server name (restart_server (mc_port st) env) (mc_servers st) (mc_procs st)")
    case (Some x)
    obtain ss ps r where x: "x = (ss, ps, r)" by (cases x)
    have "mcp_ok (st\<lparr>mc_servers := ss, mc_procs := ps\<rparr>)"
      by (rule mcp_ok_update [OF ok Some [unfolded x]]) (rule restart_change)
    then show ?thesis using Some by (auto simp: server_restart_handler_def Let_def x split: sum.split)
  qed (simp add: server_restart_handler_def ok)
qed


text \<open>Reload: the servers of removed names have no child when they are dropped.\<close>

lemma remove_server_step:
  assumes "mcp_ok st"
  shows "mcp_ok (remove_server st name)"
    and "List.map ms_name (mc_servers (remove_server st name)) = List.map ms_name (mc_servers st)"
    and "mc_port (remove_server st name) = mc_port st"
    and "s \<in> set (mc_servers (remove_server st name)) \<Longrightarrow>
      ms_child s = None \<or> s \<in> set (mc_servers st) \<and> ms_name s \<noteq> name"
proof -
  let ?f = "\<lambda>s ps. case stop_server s ps of (s', ps') \<Rightarrow> (s', ps', ())"
  have all: "mcp_ok (remove_server st name) \<and>
      List.map ms_name (mc_servers (remove_server st name)) = List.map ms_name (mc_servers st) \<and>
      mc_port (remove_server st name) = mc_port st \<and>
      (s \<in> set (mc_servers (remove_server st name)) \<longrightarrow> ms_child s = None \<or> s \<in> set (mc_servers st) \<and> ms_name s \<noteq> name)"
  proof (cases "with_server name ?f (mc_servers st) (mc_procs st)")
    case None
    have "remove_server st name = st" unfolding remove_server_def None by simp
    moreover have "name \<notin> ms_name ` set (mc_servers st)" using None unfolding with_server_None .
    ultimately show ?thesis using assms by auto
  next
    case (Some x)
    obtain ss ps r where x: "x = (ss, ps, r)" by (cases x)
    note w = Some [unfolded x]
    have c: "change_ok (mc_port st) s (mc_procs st) s' ps'" if "?f s (mc_procs st) = (s', ps', r)" for s s' ps' r
      using that by (auto intro: stop_change split: prod.splits)
    have m: "managed (mc_port st) ss ps \<and> List.map ms_name ss = List.map ms_name (mc_servers st)"
      using with_server_managed [OF w, of "mc_port st"] assms c by (simp add: mcp_ok_def)
    from with_server_split [OF w] obtain pre t post t' where split: "mc_servers st = pre @ t # post" "ss = pre @ t' # post"
      and t: "?f t (mc_procs st) = (t', ps, r)" "ms_name t = name" by blast
    have child: "ms_child t' = None" using t(1) stop_child by (auto split: prod.splits)
    have "name \<notin> ms_name ` set (pre @ post)"
      using assms t(2) by (auto simp: mcp_ok_def split)
    then have "s \<in> set ss \<longrightarrow> ms_child s = None \<or> s \<in> set (mc_servers st) \<and> ms_name s \<noteq> name"
      using child by (auto simp: split)
    then show ?thesis using m assms by (simp add: remove_server_def w mcp_ok_def)
  qed
  then show "mcp_ok (remove_server st name)"
    "List.map ms_name (mc_servers (remove_server st name)) = List.map ms_name (mc_servers st)"
    "mc_port (remove_server st name) = mc_port st" by blast+
  show "s \<in> set (mc_servers (remove_server st name)) \<Longrightarrow> ms_child s = None \<or> s \<in> set (mc_servers st) \<and> ms_name s \<noteq> name"
    using all by blast
qed

lemma remove_servers:
  assumes "mcp_ok st"
  shows "mcp_ok (foldl remove_server st names) \<and>
      List.map ms_name (mc_servers (foldl remove_server st names)) = List.map ms_name (mc_servers st) \<and>
      mc_port (foldl remove_server st names) = mc_port st \<and>
      (\<forall>s \<in> set (mc_servers (foldl remove_server st names)). ms_name s \<in> set names \<longrightarrow> ms_child s = None)"
  using assms
proof (induction names rule: rev_induct)
  case (snoc n names)
  note r = remove_server_step [where st = "foldl remove_server st names" and name = n]
  from snoc have ih: "mcp_ok (foldl remove_server st names)"
    "List.map ms_name (mc_servers (foldl remove_server st names)) = List.map ms_name (mc_servers st)"
    "mc_port (foldl remove_server st names) = mc_port st"
    "\<forall>s \<in> set (mc_servers (foldl remove_server st names)). ms_name s \<in> set names \<longrightarrow> ms_child s = None" by simp_all
  have "ms_child s = None" if "s \<in> set (mc_servers (remove_server (foldl remove_server st names) n))" "ms_name s \<in> set (names @ [n])" for s
    using r(4) [of s] ih(1) that ih(4) by auto
  then show ?case using r(1-3) [OF ih(1)] ih(2,3) by simp
qed simp

lemma managed_filter:
  assumes "managed port ss ps" and "\<forall>s \<in> set ss. \<not> P s \<longrightarrow> ms_child s = None"
  shows "managed port (filter P ss) ps"
proof -
  have "set (children ss) \<subseteq> set (children (filter P ss))"
    using assms(2) unfolding set_children by force
  then show ?thesis using assms(1) by (auto simp: managed_def list_all_iff)
qed

lemma managed_add:
  assumes "managed port ss ps" and "start_server port env (from_config c) ps = (s, ps', r)"
  shows "managed port (ss @ [s]) ps' \<and> ms_config s = c"
proof -
  have "srv_ok (from_config c)" "ms_child (from_config c) = None" by (simp_all add: srv_ok_def from_config_def)
  moreover have "managed port (ss @ from_config c # []) ps"
    using assms(1) calculation by (auto simp: managed_def set_children)
  moreover note ch = start_change [OF assms(2)]
  ultimately have "managed port (ss @ s # []) ps'" using managed_change by blast
  moreover have "ms_config s = c" using ch by (simp add: change_ok_def from_config_def)
  ultimately show ?thesis by simp
qed

lemma add_servers:
  assumes "mcp_ok st" and "distinct (List.map (\<lambda>p. sc_name (snd p)) ps)"
    and "\<forall>p \<in> set ps. sc_name (snd p) \<notin> set existing \<longrightarrow> sc_name (snd p) \<notin> ms_name ` set (mc_servers st)"
  shows "mcp_ok (fst (foldl (add_server existing) (st, n) ps)) \<and> mc_port (fst (foldl (add_server existing) (st, n) ps)) = mc_port st"
  using assms
proof (induction ps arbitrary: st n)
  case (Cons p ps)
  obtain env c where p: "p = (env, c)" by (cases p)
  show ?case
  proof (cases "sc_name c \<in> set existing")
    case True
    then show ?thesis using Cons by (simp add: p add_server_def)
  next
    case False
    obtain s pr r where s: "start_server (mc_port st) env (from_config c) (mc_procs st) = (s, pr, r)" by (meson prod_cases3)
    let ?st = "st\<lparr>mc_servers := mc_servers st @ [s], mc_procs := pr\<rparr>"
    have m: "managed (mc_port st) (mc_servers st @ [s]) pr \<and> ms_config s = c"
      using managed_add [OF _ s, of "mc_servers st"] Cons.prems(1) by (simp add: mcp_ok_def)
    have "sc_name c \<notin> ms_name ` set (mc_servers st)" using Cons.prems(3) False by (simp add: p)
    then have ok: "mcp_ok ?st" using m Cons.prems(1) by (simp add: mcp_ok_def)
    have fresh: "\<forall>q \<in> set ps. sc_name (snd q) \<notin> set existing \<longrightarrow> sc_name (snd q) \<notin> ms_name ` set (mc_servers st @ [s])"
    proof (intro ballI impI)
      fix q
      assume q: "q \<in> set ps" "sc_name (snd q) \<notin> set existing"
      have "sc_name (snd q) \<in> (\<lambda>p. sc_name (snd p)) ` set ps" using q(1) by (rule imageI)
      moreover have "sc_name c \<notin> (\<lambda>p. sc_name (snd p)) ` set ps" using Cons.prems(2) by (simp add: p)
      ultimately have "sc_name (snd q) \<noteq> sc_name c" by metis
      then show "sc_name (snd q) \<notin> ms_name ` set (mc_servers st @ [s])" using Cons.prems(3) q m by auto
    qed
    have d: "distinct (List.map (\<lambda>p. sc_name (snd p)) ps)" using Cons.prems(2) by simp
    obtain st1 n1 where a: "add_server existing (st, n) (env, c) = (st1, n1)" by (meson surj_pair)
    then have "st1 = ?st \<or> (\<exists>e x y. st1 = log_mcp e x y ?st)"
      using False by (auto simp: add_server_def s split: sum.splits)
    then have st1: "mcp_ok st1" "mc_servers st1 = mc_servers st @ [s]" "mc_port st1 = mc_port st" using ok by auto
    show ?thesis
      using Cons.IH [OF st1(1) d, of n1] fresh by (simp add: p a st1(2,3))
  qed
qed simp

lemma zip_names: "List.map (\<lambda>p. sc_name (snd p)) (zip (List.map envs [0..<length configs]) configs) = List.map sc_name configs"
  by (rule nth_equalityI) simp_all

lemma reload_ok:
  assumes "mcp_ok st" and "distinct (List.map sc_name configs)"
  shows "mcp_ok (fst (reload_handler io envs configs st)) \<and> mc_port (fst (reload_handler io envs configs st)) = mc_port st"
proof -
  let ?existing = "List.map ms_name (mc_servers st)"
  let ?remove = "filter (\<lambda>n. n \<notin> set (List.map sc_name configs)) ?existing"
  let ?st1 = "foldl remove_server st ?remove"
  let ?st2 = "?st1\<lparr>mc_servers := filter (\<lambda>s. ms_name s \<notin> set ?remove) (mc_servers ?st1)\<rparr>"
  note r = remove_servers [OF assms(1), of ?remove]
  have "managed (mc_port st) (filter (\<lambda>s. ms_name s \<notin> set ?remove) (mc_servers ?st1)) (mc_procs ?st1)"
    by (rule managed_filter) (use r in \<open>auto simp: mcp_ok_def\<close>)
  moreover have "distinct (List.map ms_name (filter (\<lambda>s. ms_name s \<notin> set ?remove) (mc_servers ?st1)))"
    by (rule distinct_map_filter) (use r assms(1) in \<open>simp add: mcp_ok_def\<close>)
  ultimately have ok: "mcp_ok ?st2" using r by (simp add: mcp_ok_def)
  have "set (List.map ms_name (mc_servers ?st1)) = set ?existing" using r by presburger
  then have "ms_name ` set (mc_servers ?st2) \<subseteq> set ?existing" by auto
  then have fresh: "\<forall>p \<in> set (zip (List.map envs [0..<length configs]) configs).
      sc_name (snd p) \<notin> set ?existing \<longrightarrow> sc_name (snd p) \<notin> ms_name ` set (mc_servers ?st2)" by blast
  obtain st3 n where a: "foldl (add_server ?existing) (?st2, 0) (zip (List.map envs [0..<length configs]) configs) = (st3, n)"
    by (meson surj_pair)
  have "mcp_ok st3 \<and> mc_port st3 = mc_port ?st2"
    using add_servers [OF ok _ fresh, of 0] assms(2) by (simp only: zip_names a fst_conv)
  then show ?thesis using r a by (simp add: reload_handler_def Let_def)
qed


section \<open>The tick, start-up and shutdown\<close>

text \<open>Without a failing \<open>try_wait\<close> a crashed server has no child any more when it is started again.\<close>

definition waits_ok :: "(nat \<Rightarrow> string + string) \<Rightarrow> bool" where
  "waits_ok tw = (\<forall>h. is_ok (tw h))"

lemma waits_okD: "waits_ok tw \<Longrightarrow> tw h \<noteq> Inl e"
  by (metis is_ok_simps(2) waits_ok_def)

lemma checked_server:
  assumes "waits_ok tw" and "srv_ok s"
  shows "srv_ok (check_running tw ps s)" and "ms_config (check_running tw ps s) = ms_config s"
    and "crashed tw ps s \<Longrightarrow> ms_child (check_running tw ps s) = None"
    and "set_option (ms_child s) \<inter> set (pr_live ps) \<subseteq> set_option (ms_child (check_running tw ps s))"
    and "\<not> crashed tw ps s \<Longrightarrow> check_running tw ps s = s"
    and "ms_status s = Running \<Longrightarrow> crashed tw ps s \<or> (\<exists>h. ms_child s = Some h \<and> h \<in> set (pr_live ps))"
  using assms(2) by (auto simp: srv_ok_def check_running_def crashed_def check_server_def
      waits_okD [OF assms(1)] split: option.splits sum.splits if_splits)

lemma revive_change:
  assumes "revive port env s ps = (s', ps', l)" and "ms_child s = None"
  shows "change_ok port s ps s' ps'"
proof -
  obtain s1 ps1 r where st: "start_server port env (s\<lparr>ms_status := Restarting\<rparr>) ps = (s1, ps1, r)" by (meson prod_cases3)
  have "change_ok port (s\<lparr>ms_status := Restarting\<rparr>) ps s1 ps1" using start_change [OF st] assms(2) by simp
  then have c: "change_ok port s ps s1 ps1" by (simp add: change_ok_def)
  show ?thesis
  proof (cases r)
    case (Inl e)
    then have "ms_child s1 = None" using st assms(2) by (auto simp: start_server_def Let_def split: sum.splits)
    then show ?thesis using c assms(1) by (auto simp: revive_def st Inl change_ok_def srv_ok_def)
  next
    case (Inr u)
    then show ?thesis using c assms(1) by (auto simp: revive_def st change_ok_def srv_ok_def)
  qed
qed

lemma revive_crashed_ok:
  assumes "revive_crashed port envs i cs ps = (ss, ps', l)" and "managed port (pre @ List.map snd cs) ps"
    and "\<And>c s. (c, s) \<in> set cs \<Longrightarrow> c \<Longrightarrow> ms_child s = None"
  shows "managed port (pre @ ss) ps' \<and> List.map ms_name ss = List.map (ms_name \<circ> snd) cs"
  using assms
proof (induction port envs i cs ps arbitrary: ss ps' l pre rule: revive_crashed.induct)
  case (2 port envs i c s cs ps ss ps' l)
  obtain s1 ps1 l1 where one: "(if c then revive port (envs i) s ps else (s, ps, [])) = (s1, ps1, l1)" by (meson prod_cases3)
  obtain ss2 ps2 l2 where rest: "revive_crashed port envs (Suc i) cs ps1 = (ss2, ps2, l2)" by (meson prod_cases3)
  have ss: "ss = s1 # ss2" "ps' = ps2" using 2(2) by (simp_all add: one rest)
  have ok: "srv_ok s" using 2(3) by (simp add: managed_def)
  have ch: "change_ok port s ps s1 ps1"
  proof (cases c)
    case True
    then show ?thesis using one revive_change [of port "envs i" s ps s1 ps1 l1] 2(4) [of True s] by simp
  next
    case False
    then show ?thesis using one ok change_refl by auto
  qed
  have "managed port (pre @ s1 # List.map snd cs) ps1" using managed_change [OF _ ch] 2(3) by simp
  then have "managed port ((pre @ [s1]) @ ss2) ps2 \<and> List.map ms_name ss2 = List.map (ms_name \<circ> snd) cs"
    using 2(1) [OF one [symmetric] refl refl rest, of "pre @ [s1]"] 2(4) by simp
  then show ?case using ss ch by (simp add: change_ok_def)
qed simp

lemma tick_ok:
  assumes "mcp_ok st" and "waits_ok tw"
  shows "mcp_ok (manager_tick tw envs st)"
proof -
  let ?cs = "List.map (\<lambda>s. (crashed tw (mc_procs st) s, check_running tw (mc_procs st) s)) (mc_servers st)"
  obtain ss ps l where r: "revive_crashed (mc_port st) envs 0 ?cs (mc_procs st) = (ss, ps, l)" by (meson prod_cases3)
  have ok: "\<And>s. s \<in> set (mc_servers st) \<Longrightarrow> srv_ok s" using assms(1) by (simp add: mcp_ok_def managed_def list_all_iff)
  note c = checked_server [OF assms(2) ok]
  have "managed (mc_port st) ([] @ List.map snd ?cs) (mc_procs st)"
    using assms(1) c(1,4) by (fastforce simp: mcp_ok_def managed_def list_all_iff set_children)
  then have "managed (mc_port st) ([] @ ss) ps \<and> List.map ms_name ss = List.map (ms_name \<circ> snd) ?cs"
    by (rule revive_crashed_ok [OF r]) (use c(3) in auto)
  moreover have "List.map (ms_name \<circ> snd) ?cs = List.map ms_name (mc_servers st)" using c(2) by simp
  ultimately have "managed (mc_port st) ss ps \<and> List.map ms_name ss = List.map ms_name (mc_servers st)" by (simp only: append_Nil)
  then show ?thesis using assms(1) by (simp add: manager_tick_def r mcp_ok_def)
qed

lemma exit_ok: "mcp_ok st \<Longrightarrow> mcp_ok (st\<lparr>mc_procs := kill (Some h) (mc_procs st)\<rparr>)"
  by (auto simp: mcp_ok_def managed_def kill_def)

text \<open>What the theorems assume of a run: configurations name every server once, and the state of a
  process can be asked for.\<close>

fun mcp_enabled :: "mcpd \<Rightarrow> mcp_event \<Rightarrow> bool" where
  "mcp_enabled st (Reload io envs configs) = distinct (List.map sc_name configs)"
| "mcp_enabled st (ManagerTick tw envs) = waits_ok tw"
| "mcp_enabled st _ = True"

lemma mcp_ok_step: "mcp_ok st \<Longrightarrow> mcp_enabled st e \<Longrightarrow> mcp_ok (mcp_step st e)"
  by (cases e) (simp_all add: start_handler_ok stop_handler_ok restart_handler_ok reload_ok tick_ok exit_ok)

lemma start_ones_ok:
  assumes "mcp_ok st" and "distinct (List.map ms_name (mc_servers st) @ List.map (\<lambda>p. sc_name (snd p)) ps)"
  shows "mcp_ok (foldl start_one st ps)"
  using assms
proof (induction ps arbitrary: st)
  case (Cons p ps)
  obtain env c where p: "p = (env, c)" by (cases p)
  obtain s pr r where s: "start_server (mc_port st) env (from_config c) (mc_procs st) = (s, pr, r)" by (meson prod_cases3)
  let ?st = "st\<lparr>mc_servers := mc_servers st @ [s], mc_procs := pr\<rparr>"
  have m: "managed (mc_port st) (mc_servers st @ [s]) pr \<and> ms_config s = c"
    using managed_add [OF _ s, of "mc_servers st"] Cons.prems(1) by (simp add: mcp_ok_def)
  then have ok: "mcp_ok ?st" using Cons.prems by (auto simp: mcp_ok_def p)
  have "start_one st p = ?st \<or> (\<exists>e x y. start_one st p = log_mcp e x y ?st)"
    by (auto simp: start_one_def p s split: sum.splits)
  then have "mcp_ok (start_one st p)" "mc_servers (start_one st p) = mc_servers st @ [s]" using ok by auto
  then show ?case using Cons.IH [of "start_one st p"] Cons.prems(2) m by (simp add: p)
qed simp

lemma start_mcpd_ok: "distinct (List.map sc_name configs) \<Longrightarrow> mcp_ok (start_mcpd io envs port configs)"
  unfolding start_mcpd_def write_config_frame
  by (rule start_ones_ok) (simp_all add: mcp_ok_def managed_def zip_names)

lemmas mcp_run = run_invariant [where I = mcp_ok and enabled = mcp_enabled and step = mcp_step, OF mcp_ok_step]

lemma stop_all_children:
  "stop_all ss ps = (ss', ps') \<Longrightarrow> set (pr_live ps') \<subseteq> set (pr_live ps) - set (children ss) \<and> list_all (\<lambda>s. ms_status s = Stopped) ss'"
  by (induction ss ps arbitrary: ss' ps' rule: stop_all.induct)
    (fastforce simp: stop_server_def kill_def set_children split: prod.splits option.splits)+

lemma shutdown_kills_all: "mcp_ok st \<Longrightarrow> pr_live (mc_procs (shutdown_mcpd st)) = []"
proof -
  assume ok: "mcp_ok st"
  obtain ss ps where s: "stop_all (mc_servers st) (mc_procs st) = (ss, ps)" by (meson surj_pair)
  have "set (pr_live ps) \<subseteq> {}" using stop_all_children [OF s] ok unfolding mcp_ok_def managed_def by blast
  then show ?thesis by (simp add: shutdown_mcpd_def s)
qed


section \<open>Domain-restricted servers get the proxy\<close>

lemma map_of_env_insert: "map_of (env_insert k v env) = (map_of env)(k \<mapsto> v)"
proof
  fix x
  show "map_of (env_insert k v env) x = ((map_of env)(k \<mapsto> v)) x"
    by (induction env) (auto simp: env_insert_def map_add_def)
qed

lemma secret_key_fresh: "secret_key name \<noteq> ''HTTP_PROXY''" "secret_key name \<noteq> ''HTTPS_PROXY''"
proof -
  have "last (secret_key name) = CHR ''T''" by (simp add: secret_key_def)
  then show "secret_key name \<noteq> ''HTTP_PROXY''" "secret_key name \<noteq> ''HTTPS_PROXY''" by auto
qed

lemma server_env_proxied:
  assumes "sc_domains c \<noteq> []" and "k = ''HTTP_PROXY'' \<or> k = ''HTTPS_PROXY''"
  shows "map_of (server_env port secret c) k = Some (proxy_url port)"
proof -
  have "k \<noteq> secret_key n" for n using assms(2) secret_key_fresh [of n] by metis
  moreover have "map_of (proxy_env port c env) k = Some (proxy_url port)" for env
    using assms by (auto simp: proxy_env_def map_of_env_insert)
  ultimately show ?thesis by (simp add: server_env_def Let_def map_of_env_insert split: option.split)
qed

lemma mcp_port_step: "mcp_enabled st e \<Longrightarrow> mcp_ok st \<Longrightarrow> mc_port (mcp_step st e) = mc_port st"
proof (cases e)
  case (Reload io envs configs)
  then show "mcp_enabled st e \<Longrightarrow> mcp_ok st \<Longrightarrow> mc_port (mcp_step st e) = mc_port st" by (simp add: reload_ok)
qed (auto simp: server_start_handler_def server_stop_handler_def server_restart_handler_def manager_tick_def Let_def
  split: option.split sum.split bool.split prod.split)

lemma start_port: "mc_port (start_mcpd io envs port configs) = port"
proof -
  have "mc_port (foldl start_one st ps) = mc_port st" for st ps
    by (rule foldl_frame) (auto simp: start_one_def split: prod.split sum.split)
  then show ?thesis by (simp add: start_mcpd_def)
qed

lemma mcp_run_port:
  assumes "enabled_run mcp_enabled mcp_step st es" and "mcp_ok st"
  shows "mcp_ok (foldl mcp_step st es) \<and> mc_port (foldl mcp_step st es) = mc_port st"
  using run_invariant [where I = "\<lambda>s. mcp_ok s \<and> mc_port s = mc_port st" and enabled = mcp_enabled and step = mcp_step and es = es and s = st]
    assms mcp_ok_step mcp_port_step by simp

section \<open>The tick restarts what crashed\<close>

lemma start_succeeds:
  assumes "is_ok (se_spawn env)" and "start_server port env s ps = (s', ps', r)"
  shows "r = Inr () \<and> ms_status s' = Running \<and> ms_child s' = Some (length (pr_spawned ps)) \<and>
    pr_live ps' = pr_live ps @ [length (pr_spawned ps)]"
  using assms by (auto simp: start_server_def Let_def is_ok_def split: sum.splits)

definition alive :: "procs \<Rightarrow> managed_server \<Rightarrow> bool" where
  "alive ps s = (ms_status s = Running \<and> (\<exists>h. ms_child s = Some h \<and> h \<in> set (pr_live ps)))"

lemma revive_alive:
  assumes "is_ok (se_spawn env)" and "revive port env s ps = (s', ps', l)"
  shows "alive ps' s' \<and> set (pr_live ps) \<subseteq> set (pr_live ps')"
proof -
  obtain s1 ps1 r where st: "start_server port env (s\<lparr>ms_status := Restarting\<rparr>) ps = (s1, ps1, r)" by (meson prod_cases3)
  from start_succeeds [OF assms(1) st] show ?thesis
    using assms(2) by (auto simp: revive_def st alive_def)
qed

lemma alive_mono: "alive ps s \<Longrightarrow> set (pr_live ps) \<subseteq> set (pr_live ps') \<Longrightarrow> alive ps' s"
  by (auto simp: alive_def)

lemma revived:
  assumes "revive_crashed port envs i cs ps = (ss, ps', l)" and "\<And>i. is_ok (se_spawn (envs i))"
  shows "set (pr_live ps) \<subseteq> set (pr_live ps') \<and>
    list_all2 (\<lambda>p s. (if fst p then alive ps' s else s = snd p)) cs ss"
  using assms
proof (induction port envs i cs ps arbitrary: ss ps' l rule: revive_crashed.induct)
  case (2 port envs i c s cs ps ss ps' l)
  obtain s1 ps1 l1 where one: "(if c then revive port (envs i) s ps else (s, ps, [])) = (s1, ps1, l1)" by (meson prod_cases3)
  obtain ss2 ps2 l2 where rest: "revive_crashed port envs (Suc i) cs ps1 = (ss2, ps2, l2)" by (meson prod_cases3)
  have ss: "ss = s1 # ss2" "ps' = ps2" using 2(2) by (simp_all add: one rest)
  have ih: "set (pr_live ps1) \<subseteq> set (pr_live ps2) \<and> list_all2 (\<lambda>p s. if fst p then alive ps2 s else s = snd p) cs ss2"
    by (rule 2(1) [OF one [symmetric] refl refl rest]) (rule 2(3))
  have "(if c then alive ps1 s1 else s1 = s) \<and> set (pr_live ps) \<subseteq> set (pr_live ps1)"
    using one revive_alive [OF 2(3) [of i], of port s ps s1 ps1 l1] by (auto split: if_splits)
  then have "(if c then alive ps2 s1 else s1 = s) \<and> set (pr_live ps) \<subseteq> set (pr_live ps2)"
    using ih alive_mono [of ps1 s1 ps2] by auto
  then show ?case using ih unfolding ss by simp
qed simp

lemma tick_heals:
  assumes "mcp_ok st" and "waits_ok tw" and "\<And>i. is_ok (se_spawn (envs i))" and "i < length (mc_servers st)"
  shows "if ms_status (mc_servers st ! i) = Running then alive (mc_procs (manager_tick tw envs st)) (mc_servers (manager_tick tw envs st) ! i)
    else mc_servers (manager_tick tw envs st) ! i = mc_servers st ! i"
proof -
  let ?cs = "List.map (\<lambda>s. (crashed tw (mc_procs st) s, check_running tw (mc_procs st) s)) (mc_servers st)"
  let ?s = "mc_servers st ! i"
  obtain ss ps l where r: "revive_crashed (mc_port st) envs 0 ?cs (mc_procs st) = (ss, ps, l)" by (meson prod_cases3)
  have ok: "srv_ok ?s" using assms(1,4) by (simp add: mcp_ok_def managed_def list_all_length)
  note c = checked_server [OF assms(2) ok, of "mc_procs st"]
  from revived [OF r assms(3)] have live: "set (pr_live (mc_procs st)) \<subseteq> set (pr_live ps)"
    and "if fst (?cs ! i) then alive ps (ss ! i) else ss ! i = snd (?cs ! i)"
    using assms(4) by (auto simp: list_all2_conv_all_nth)
  then have one: "if crashed tw (mc_procs st) ?s then alive ps (ss ! i) else ss ! i = ?s"
    using assms(4) c(5) by (auto split: if_splits)
  show ?thesis
  proof (cases "ms_status ?s = Running")
    case True
    have "alive ps (ss ! i)"
    proof (cases "crashed tw (mc_procs st) ?s")
      case False
      then have "alive (mc_procs st) (ss ! i)" using one c(6) True by (auto simp: alive_def)
      then show ?thesis using live by (rule alive_mono)
    qed (use one in simp)
    then show ?thesis using True by (simp add: manager_tick_def r)
  next
    case False
    then have "ss ! i = ?s" using one by (simp add: crashed_def)
    then show ?thesis using False by (simp add: manager_tick_def r)
  qed
qed

section \<open>A server that could not be started\<close>

text \<open>It keeps the status \<open>Starting\<close>: the configuration lists it as if it ran, and no tick tries it again.\<close>

lemma failed_start_published:
  assumes "se_spawn env = Inl e"
  shows "ms_status (fst (start_server port env (from_config c) ps)) = Starting"
    and "published_server (fst (start_server port env (from_config c) ps))"
    and "\<not> crashed tw ps' (fst (start_server port env (from_config c) ps))"
  using assms by (simp_all add: start_server_def Let_def published_server_def crashed_def)

text \<open>When the state of a child cannot be read, the server is started a second time and nobody holds the
  first process any more.\<close>

lemma unreadable_child_leaks:
  assumes "ms_child s = Some h" "ms_status s = Running" and "tw h = Inl e" and "h \<in> set (pr_live ps)" and "h < length (pr_spawned ps)"
    and "is_ok (se_spawn env)" and "revive port env (check_running tw ps s) ps = (s', ps', l)"
  shows "h \<in> set (pr_live ps') \<and> ms_child s' \<noteq> Some h"
proof -
  let ?s = "check_running tw ps s"
  obtain s1 ps1 r where st: "start_server port env (?s\<lparr>ms_status := Restarting\<rparr>) ps = (s1, ps1, r)" by (meson prod_cases3)
  from start_succeeds [OF assms(6) st] show ?thesis
    using assms(4,5,7) by (auto simp: revive_def st)
qed

end
