(* ===== verification/Voice.thy ===== *)
theory Voice
  imports Decimal
begin

text \<open>
  \<open>crates/osmoda-voice\<close>: speech to text, text to speech and recording by external programs. Every
  program started is appended to \<open>vo_runs\<close> with its arguments; how it ends is the argument \<open>run\<close>.
  Durations in milliseconds are what the clock gives and are arguments.
\<close>

section \<open>Processes\<close>

datatype run_end = RunTimedOut | RunFailed string | RunExited "int option" string string

text \<open>Program, arguments, and what is written to its input.\<close>

type_synonym run_fun = "string \<Rightarrow> string list \<Rightarrow> string \<Rightarrow> run_end"

record voice =
  vo_listening :: bool
  vo_whisper_bin :: string
  vo_whisper_model :: string
  vo_piper_bin :: string
  vo_piper_model :: string
  vo_data_dir :: string
  vo_runs :: "(string \<times> string list) list"
  vo_posts :: "json list"

definition note_run :: "string \<Rightarrow> string list \<Rightarrow> voice \<Rightarrow> voice" where
  "note_run prog args st = st\<lparr>vo_runs := vo_runs st @ [(prog, args)]\<rparr>"

definition cache_file :: "string \<Rightarrow> string \<Rightarrow> string \<Rightarrow> string" where
  "cache_file dir kind uuid = dir @ ''/cache/'' @ kind @ ''_'' @ uuid @ ''.wav''"

section \<open>Transcription\<close>

definition whisper_args :: "string \<Rightarrow> string \<Rightarrow> string list" where
  "whisper_args model audio = [''--model'', model, ''--file'', audio, ''--language'', ''en'', ''--output-txt'',
     ''--no-timestamps'', ''--threads'', ''4'']"

definition transcribe :: "run_fun \<Rightarrow> string \<Rightarrow> string \<Rightarrow> string \<Rightarrow> string + string" where
  "transcribe run bin model audio =
     (case run bin (whisper_args model audio) [] of
        RunTimedOut \<Rightarrow> Inl ''whisper.cpp transcription timed out after 120s''
      | RunFailed e \<Rightarrow> Inl ''failed to execute whisper.cpp''
      | RunExited code out err \<Rightarrow>
          if code = Some 0 then Inr (trim out) else Inl (''whisper.cpp exited with '' @ err))"

text \<open>\<open>speak\<close>: Piper reads the text from its input; on success the file is played by a task of its own.\<close>

definition piper_args :: "string \<Rightarrow> string \<Rightarrow> string list" where
  "piper_args model file = [''--model'', model, ''--output_file'', file]"

definition speak :: "run_fun \<Rightarrow> string \<Rightarrow> voice \<Rightarrow> string \<Rightarrow> voice \<times> (string + string)" where
  "speak run uuid st words =
     (let file = cache_file (vo_data_dir st) ''tts'' uuid; args = piper_args (vo_piper_model st) file;
          st1 = note_run (vo_piper_bin st) args st
      in case run (vo_piper_bin st) args words of
           RunTimedOut \<Rightarrow> (st1, Inl ''piper-tts synthesis timed out after 30s'')
         | RunFailed e \<Rightarrow> (st1, Inl ''failed to start piper-tts'')
         | RunExited code out err \<Rightarrow>
             if code = Some 0 then (note_run ''pw-play'' [file] st1, Inr file)
             else (st1, Inl (''piper-tts exited with '' @ err)))"

section \<open>Recording\<close>

definition record_args :: "nat \<Rightarrow> string \<Rightarrow> string list" where
  "record_args secs file = [dec secs, ''pw-record'', ''--format'', ''s16'', ''--rate'', ''16000'', ''--channels'', ''1'', file]"

text \<open>\<open>timeout\<close> exits with 124 when it ends the recording, as it should.\<close>

definition record_clip :: "run_fun \<Rightarrow> string \<Rightarrow> nat \<Rightarrow> voice \<Rightarrow> voice \<times> (string + string)" where
  "record_clip run uuid secs st =
     (let file = cache_file (vo_data_dir st) ''clip'' uuid; args = record_args secs file; st1 = note_run ''timeout'' args st
      in case run ''timeout'' args [] of
           RunTimedOut \<Rightarrow> (st1, Inl ''recording timed out'')
         | RunFailed e \<Rightarrow> (st1, Inl ''failed to execute recording command'')
         | RunExited code out err \<Rightarrow>
             if code = Some 0 \<or> code = Some 124 then (st1, Inr file) else (st1, Inl ''recording failed with status''))"

text \<open>\<open>record_segment\<close>, kept for continuous listening and not called yet.\<close>

definition record_segment :: "run_fun \<Rightarrow> string \<Rightarrow> nat \<Rightarrow> voice \<Rightarrow> voice \<times> (string + string)" where
  "record_segment run uuid secs st =
     (let file = cache_file (vo_data_dir st) ''vad'' uuid; args = record_args secs file; st1 = note_run ''timeout'' args st
      in case run ''timeout'' args [] of
           RunTimedOut \<Rightarrow> (st1, Inl (''recording timed out after '' @ dec secs @ ''s''))
         | RunFailed e \<Rightarrow> (st1, Inl ''failed to execute pw-record'')
         | RunExited code out err \<Rightarrow>
             if code = Some 0 \<or> code = Some 124 then (st1, Inr file) else (st1, Inl ''pw-record exited with status''))"

section \<open>Endpoints\<close>

definition transcription_post :: "string \<Rightarrow> string list \<Rightarrow> json" where
  "transcription_post text tags = JObj [(''source'', JStr ''osmoda-voice''), (''content'', JStr text),
     (''category'', JStr ''voice.transcription''), (''tags'', JArr (List.map JStr tags))]"

record voice_status =
  vs_listening :: bool
  vs_whisper_loaded :: bool
  vs_piper_loaded :: bool
  vs_whisper_model :: string
  vs_piper_model :: string

definition voice_status_handler :: "(string \<Rightarrow> bool) \<Rightarrow> voice \<Rightarrow> voice_status" where
  "voice_status_handler ex st = \<lparr>vs_listening = vo_listening st, vs_whisper_loaded = ex (vo_whisper_model st),
     vs_piper_loaded = ex (vo_piper_model st), vs_whisper_model = vo_whisper_model st, vs_piper_model = vo_piper_model st\<rparr>"

definition voice_transcribe_handler :: "run_fun \<Rightarrow> voice \<Rightarrow> string \<Rightarrow> voice \<times> string reply" where
  "voice_transcribe_handler run st audio =
     (let st1 = note_run (vo_whisper_bin st) (whisper_args (vo_whisper_model st) audio) st
      in case transcribe run (vo_whisper_bin st) (vo_whisper_model st) audio of
           Inl e \<Rightarrow> (st1, Fail 500)
         | Inr text \<Rightarrow> (st1\<lparr>vo_posts := vo_posts st1 @ [transcription_post text [''voice'', ''transcription'']]\<rparr>, Reply 200 text))"

definition voice_speak_handler :: "run_fun \<Rightarrow> string \<Rightarrow> voice \<Rightarrow> string \<Rightarrow> voice \<times> string reply" where
  "voice_speak_handler run uuid st words =
     (case speak run uuid st words of (st1, Inl e) \<Rightarrow> (st1, Fail 500) | (st1, Inr file) \<Rightarrow> (st1, Reply 200 file))"

record record_response =
  rr_path :: string
  rr_secs :: nat
  rr_text :: "string option"

definition record_secs :: "nat option \<Rightarrow> nat" where
  "record_secs d = max (min (case d of None \<Rightarrow> 5 | Some n \<Rightarrow> n) 30) 1"

definition voice_record_handler ::
  "run_fun \<Rightarrow> string \<Rightarrow> voice \<Rightarrow> nat option \<Rightarrow> bool option \<Rightarrow> voice \<times> record_response reply" where
  "voice_record_handler run uuid st duration want =
     (let secs = record_secs duration
      in case record_clip run uuid secs st of
           (st1, Inl e) \<Rightarrow> (st1, Fail 500)
         | (st1, Inr file) \<Rightarrow>
             (let resp = \<lparr>rr_path = file, rr_secs = secs, rr_text = None\<rparr>
              in if want = Some False then (st1, Reply 200 resp)
                 else let st2 = note_run (vo_whisper_bin st) (whisper_args (vo_whisper_model st) file) st1
                      in case transcribe run (vo_whisper_bin st) (vo_whisper_model st) file of
                           Inr text \<Rightarrow>
                             (st2\<lparr>vo_posts := vo_posts st2 @ [transcription_post text [''voice'', ''transcription'', ''record'']]\<rparr>,
                              Reply 200 (resp\<lparr>rr_text := Some text\<rparr>))
                         | Inl e \<Rightarrow> (st2, Reply 200 (resp\<lparr>rr_text := Some (''[transcription error: '' @ e @ '']'')\<rparr>))))"

definition voice_listen_handler :: "voice \<Rightarrow> bool \<Rightarrow> voice \<times> json" where
  "voice_listen_handler st enabled =
     (st\<lparr>vo_listening := enabled\<rparr>, JObj [(''listening'', JBool enabled), (''previous'', JBool (vo_listening st))])"

datatype voice_call =
    Transcribe run_fun string
  | Speak run_fun string string
  | Record run_fun string "nat option" "bool option"
  | Listen bool

fun voice_step :: "voice \<Rightarrow> voice_call \<Rightarrow> voice" where
  "voice_step st (Transcribe run audio) = fst (voice_transcribe_handler run st audio)"
| "voice_step st (Speak run uuid words) = fst (voice_speak_handler run uuid st words)"
| "voice_step st (Record run uuid duration want) = fst (voice_record_handler run uuid st duration want)"
| "voice_step st (Listen enabled) = fst (voice_listen_handler st enabled)"

section \<open>Which programs run\<close>

lemma record_secs_bounds: "1 \<le> record_secs d \<and> record_secs d \<le> 30"
  by (auto simp: record_secs_def)

definition voice_config :: "voice \<Rightarrow> string list" where
  "voice_config st = [vo_whisper_bin st, vo_whisper_model st, vo_piper_bin st, vo_piper_model st, vo_data_dir st]"

text \<open>The configured transcriber and synthesiser, the player, and recordings of one to thirty seconds.\<close>

definition voice_run_ok :: "voice \<Rightarrow> string \<times> string list \<Rightarrow> bool" where
  "voice_run_ok st r =
     ((\<exists>audio. r = (vo_whisper_bin st, whisper_args (vo_whisper_model st) audio)) \<or>
      (\<exists>uuid. r = (vo_piper_bin st, piper_args (vo_piper_model st) (cache_file (vo_data_dir st) ''tts'' uuid))) \<or>
      (\<exists>uuid. r = (''pw-play'', [cache_file (vo_data_dir st) ''tts'' uuid])) \<or>
      (\<exists>uuid secs. 1 \<le> secs \<and> secs \<le> 30 \<and> r = (''timeout'', record_args secs (cache_file (vo_data_dir st) ''clip'' uuid))))"

lemma note_run_fields [simp]:
  "vo_runs (note_run p as st) = vo_runs st @ [(p, as)]" "voice_config (note_run p as st) = voice_config st"
  by (simp_all add: note_run_def voice_config_def)

lemma voice_config_posts [simp]: "voice_config (st\<lparr>vo_posts := ps\<rparr>) = voice_config st"
  "voice_config (st\<lparr>vo_listening := b\<rparr>) = voice_config st"
  by (simp_all add: voice_config_def)

lemma voice_run_ok_cong: "voice_config st' = voice_config st \<Longrightarrow> voice_run_ok st' r = voice_run_ok st r"
  by (simp add: voice_config_def voice_run_ok_def)

lemma run_ok_intros:
  "voice_run_ok st (vo_whisper_bin st, whisper_args (vo_whisper_model st) audio)"
  "voice_run_ok st (vo_piper_bin st, piper_args (vo_piper_model st) (cache_file (vo_data_dir st) ''tts'' uuid))"
  "voice_run_ok st (''pw-play'', [cache_file (vo_data_dir st) ''tts'' uuid])"
  "voice_run_ok st (''timeout'', record_args (record_secs d) (cache_file (vo_data_dir st) ''clip'' uuid))"
  unfolding voice_run_ok_def using record_secs_bounds by blast+

lemma voice_step_ok:
  "voice_config (voice_step st c) = voice_config st \<and>
   (\<exists>rs. vo_runs (voice_step st c) = vo_runs st @ rs \<and> list_all (voice_run_ok st) rs)"
proof (cases c)
  case (Record run uuid d want)
  then show ?thesis
    by (auto simp: voice_record_handler_def record_clip_def Let_def run_ok_intros [simplified]
        split: run_end.split sum.split)
next
  case (Speak run uuid words)
  then show ?thesis
    by (auto simp: voice_speak_handler_def speak_def Let_def run_ok_intros split: run_end.split)
next
  case (Transcribe run audio)
  then show ?thesis
    by (auto simp: voice_transcribe_handler_def Let_def run_ok_intros split: sum.split)
next
  case (Listen b)
  then show ?thesis by (simp add: voice_listen_handler_def)
qed

lemma voice_run:
  assumes "vo_runs st = []"
  shows "list_all (voice_run_ok st) (vo_runs (foldl voice_step st cs))"
proof -
  have "voice_config (foldl voice_step st cs) = voice_config st \<and> list_all (voice_run_ok st) (vo_runs (foldl voice_step st cs))"
  proof (rule foldl_invariant [where P = "\<lambda>s. voice_config s = voice_config st \<and> list_all (voice_run_ok st) (vo_runs s)"])
    fix s :: voice and c
    assume I: "voice_config s = voice_config st \<and> list_all (voice_run_ok st) (vo_runs s)"
    from voice_step_ok [of s c] obtain rs where "vo_runs (voice_step s c) = vo_runs s @ rs" "list_all (voice_run_ok s) rs"
      and "voice_config (voice_step s c) = voice_config s" by blast
    moreover have "voice_run_ok s = voice_run_ok st" using I voice_run_ok_cong [of s st] by blast
    ultimately show "voice_config (voice_step s c) = voice_config st \<and> list_all (voice_run_ok st) (vo_runs (voice_step s c))"
      using I by simp
  qed (simp add: assms)
  then show ?thesis ..
qed

end
