(* ===== verification/Daemons.thy ===== *)
theory Daemons
  imports AgentdRecords Wallet MeshNode Fleet Teachd Mcpd Voice "HOL-Library.Sublist"
begin

text \<open>
  The calls between the daemons. Every other daemon posts what it did to agentd's
  \<open>/memory/ingest\<close> (the \<open>receipt.rs\<close> files, \<open>post_to_agentd\<close> of the mesh, \<open>agentd_post_event\<close> of the
  watch daemon, \<open>agentd_post\<close> of the voice daemon), and the learning daemon opens and rolls back
  SafeSwitches of the watch daemon (\<open>optimizer.rs\<close>). Here the JSON that one side writes is read by the
  other: the bodies are those of the senders, the request types those of the receivers. Request
  bodies are objects with distinct keys, which is what the senders write.
\<close>

section \<open>Reading requests\<close>

text \<open>An optional field: absent and \<open>null\<close> are \<open>None\<close>, a wrong type is an error.\<close>

fun opt_string :: "json option \<Rightarrow> string option option" where
  "opt_string None = Some None"
| "opt_string (Some JNull) = Some None"
| "opt_string (Some v) = (case as_str v of None \<Rightarrow> None | Some s \<Rightarrow> Some (Some s))"

fun json_list :: "(json \<Rightarrow> 'a option) \<Rightarrow> json list \<Rightarrow> 'a list option" where
  "json_list f [] = Some []"
| "json_list f (v # vs) =
     (case f v of None \<Rightarrow> None | Some x \<Rightarrow> (case json_list f vs of None \<Rightarrow> None | Some xs \<Rightarrow> Some (x # xs)))"

fun opt_strings :: "json option \<Rightarrow> string list option option" where
  "opt_strings None = Some None"
| "opt_strings (Some JNull) = Some None"
| "opt_strings (Some v) =
     (case as_array v of None \<Rightarrow> None
      | Some vs \<Rightarrow> (case json_list as_str vs of None \<Rightarrow> None | Some ss \<Rightarrow> Some (Some ss)))"

definition need :: "string \<Rightarrow> (json \<Rightarrow> 'a option) \<Rightarrow> json \<Rightarrow> 'a option" where
  "need k f v = (case jget k v of None \<Rightarrow> None | Some x \<Rightarrow> f x)"

lemma json_list_strings [simp]: "json_list as_str (List.map JStr ss) = Some ss"
  by (induction ss) simp_all

section \<open>The ingest endpoint\<close>

record ingest_request =
  ig_source :: "string option"
  ig_content :: string
  ig_category :: "string option"
  ig_tags :: "string list option"
  ig_metadata :: json

definition parse_ingest :: "json \<Rightarrow> ingest_request option" where
  "parse_ingest v =
     (case (opt_string (jget ''source'' v), need ''content'' as_str v, opt_string (jget ''category'' v),
            opt_strings (jget ''tags'' v)) of
        (Some s, Some c, Some k, Some t) \<Rightarrow>
          Some \<lparr>ig_source = s, ig_content = c, ig_category = k, ig_tags = t,
                ig_metadata = (case jget ''metadata'' v of None \<Rightarrow> JNull | Some m \<Rightarrow> m)\<rparr>
      | _ \<Rightarrow> None)"

text \<open>One POST with the text of a body: no JSON is 400, a body of another shape 422.\<close>

definition ingest_call ::
  "world \<Rightarrow> (string \<Rightarrow> json option) \<Rightarrow> call_env \<Rightarrow> app \<Rightarrow> string \<Rightarrow> app \<times> int reply" where
  "ingest_call w parse env st body =
     (case parse body of
        None \<Rightarrow> (st, Fail 400)
      | Some v \<Rightarrow>
          (case parse_ingest v of
             None \<Rightarrow> (st, Fail 422)
           | Some r \<Rightarrow> memory_ingest_handler (w_hash w) (w_json w) env st (ig_source r) (ig_content r)
                         (ig_category r) (ig_tags r) (ig_metadata r)))"

section \<open>What the daemons post\<close>

definition ingest_body :: "string \<Rightarrow> string \<Rightarrow> string \<Rightarrow> string list \<Rightarrow> json" where
  "ingest_body source content category tags =
     JObj [(''source'', JStr source), (''content'', JStr content), (''category'', JStr category),
       (''tags'', JArr (List.map JStr tags))]"

definition decision_text :: "(deny_reason \<Rightarrow> string) \<Rightarrow> policy_decision \<Rightarrow> string" where
  "decision_text why d = (case d of Allowed \<Rightarrow> ''allowed'' | Denied_by r \<Rightarrow> ''denied: '' @ why r)"

definition wallet_receipt_json :: "(deny_reason \<Rightarrow> string) \<Rightarrow> timestamp \<Rightarrow> wallet_receipt \<Rightarrow> json" where
  "wallet_receipt_json why now r =
     JObj [(''wallet_id'', JStr (wr_wallet r)), (''action'', JStr (wr_action r)), (''chain'', JStr (wr_chain r)),
       (''to'', jopt (wr_to r)), (''amount'', jopt (wr_amount r)),
       (''policy_decision'', JStr (decision_text why (wr_decision r))), (''timestamp'', JStr now)]"

definition keyd_body :: "(json \<Rightarrow> string) \<Rightarrow> (deny_reason \<Rightarrow> string) \<Rightarrow> timestamp \<Rightarrow> wallet_receipt \<Rightarrow> json" where
  "keyd_body js why now r =
     ingest_body ''osmoda-keyd'' (js (wallet_receipt_json why now r)) (''wallet.'' @ wr_action r)
       [''wallet'', wr_chain r, wr_action r]"

definition mesh_body :: "(json \<Rightarrow> string) \<Rightarrow> mesh_post \<Rightarrow> json" where
  "mesh_body js p = ingest_body ''osmoda-mesh'' (js (po_content p)) (po_category p) (po_tags p)"

text \<open>\<open>agentd_post_event\<close> and the payloads handed to it.\<close>

definition watch_body :: "string \<Rightarrow> string \<Rightarrow> json" where
  "watch_body event_type payload = ingest_body ''osmoda-watch'' payload event_type [''watch'', event_type]"

definition escalation_event :: "string \<Rightarrow> string list \<Rightarrow> string \<times> json" where
  "escalation_event name actions =
     (''watch.watcher.escalation'', JObj [(''watcher'', JStr name), (''actions'', JArr (List.map JStr actions))])"

definition triggered_event :: "string \<Rightarrow> string \<Rightarrow> string list \<Rightarrow> string \<times> json" where
  "triggered_event i why failures =
     (''watch.rollback.triggered'', JObj [(''switch_id'', JStr i), (''reason'', JStr why),
        (''failures'', JArr (List.map JStr failures))])"

definition result_event :: "string \<Rightarrow> bool \<Rightarrow> string \<Rightarrow> string \<times> json" where
  "result_event i succ generation =
     (''watch.rollback.result'', JObj [(''switch_id'', JStr i), (''success'', JBool succ),
        (''generation'', JStr generation)])"

fun watch_event :: "Switch.post \<Rightarrow> string \<times> json" where
  "watch_event (Escalation name actions) = escalation_event name actions"
| "watch_event (RollbackTriggered i why failures) = triggered_event i why failures"
| "watch_event (RollbackResult i succ generation) = result_event i succ generation"

definition propose_event :: "fleet_switch \<Rightarrow> string \<times> json" where
  "propose_event f = (''fleet.propose'', JObj [(''fleet_switch_id'', JStr (fs_id f)), (''plan'', JStr (fs_plan f)),
     (''participants'', JNum (int (participant_count f)))])"

definition vote_event :: "string \<Rightarrow> string \<Rightarrow> bool \<Rightarrow> string \<times> json" where
  "vote_event i peer yes = (''fleet.vote'', JObj [(''fleet_switch_id'', JStr i), (''peer_id'', JStr peer),
     (''approve'', JBool yes)])"

definition fleet_rollback_event :: "string \<Rightarrow> string \<times> json" where
  "fleet_rollback_event i = (''fleet.rollback'', JObj [(''fleet_switch_id'', JStr i), (''reason'', JStr ''manual_rollback'')])"

text \<open>\<open>log_event\<close> of the learning daemon and of the MCP manager.\<close>

definition teach_body :: "(json \<Rightarrow> string) \<Rightarrow> timestamp \<Rightarrow> string \<times> string \<times> string \<Rightarrow> json" where
  "teach_body js now x = (case x of (event_type, subject, detail) \<Rightarrow>
     ingest_body ''osmoda-teachd'' (js (JObj [(''event_type'', JStr event_type), (''subject'', JStr subject),
         (''detail'', JStr detail), (''timestamp'', JStr now)])) (''teach.'' @ event_type)
       [''teach'', event_type, subject])"

definition mcp_body :: "(json \<Rightarrow> string) \<Rightarrow> timestamp \<Rightarrow> string \<times> string \<times> string \<Rightarrow> json" where
  "mcp_body js now x = (case x of (event_type, name, detail) \<Rightarrow>
     ingest_body ''osmoda-mcpd'' (js (JObj [(''event_type'', JStr event_type), (''server_name'', JStr name),
         (''detail'', JStr detail), (''timestamp'', JStr now)])) (''mcp.'' @ event_type)
       [''mcp'', event_type, name])"

datatype daemon_post =
    KeydPost timestamp wallet_receipt
  | MeshPost mesh_post
  | WatchPost Switch.post
  | FleetPost "string \<times> json"
  | TeachPost timestamp "string \<times> string \<times> string"
  | McpPost timestamp "string \<times> string \<times> string"
  | VoicePost string "string list"

fun post_body :: "(json \<Rightarrow> string) \<Rightarrow> (deny_reason \<Rightarrow> string) \<Rightarrow> daemon_post \<Rightarrow> json" where
  "post_body js why (KeydPost now r) = keyd_body js why now r"
| "post_body js why (MeshPost p) = mesh_body js p"
| "post_body js why (WatchPost p) = (case watch_event p of (t, v) \<Rightarrow> watch_body t (js v))"
| "post_body js why (FleetPost e) = (case e of (t, v) \<Rightarrow> watch_body t (js v))"
| "post_body js why (TeachPost now x) = teach_body js now x"
| "post_body js why (McpPost now x) = mcp_body js now x"
| "post_body js why (VoicePost text tags) = transcription_post text tags"

section \<open>agentd with its clients\<close>

text \<open>agentd serves its API (\<open>AgentCall\<close>) and the posts of the other daemons; a post that does not get
  through (\<open>up = False\<close>) is dropped by its sender. \<open>why\<close> prints a policy refusal.\<close>

datatype hub_event = AgentCall agent_call | Deliver call_env bool daemon_post

fun hub_step :: "world \<Rightarrow> (string \<Rightarrow> json option) \<Rightarrow> (deny_reason \<Rightarrow> string) \<Rightarrow> app \<Rightarrow> hub_event \<Rightarrow> app" where
  "hub_step w parse why st (AgentCall c) = agent_step w st c"
| "hub_step w parse why st (Deliver env up p) =
     (if up then fst (ingest_call w parse env st (w_json w (post_body (w_json w) why p))) else st)"

text \<open>The row that agentd writes for a body: its type, actor and payload.\<close>

definition source_of :: "json \<Rightarrow> string" where
  "source_of v = (case need ''source'' as_str v of None \<Rightarrow> ''unknown'' | Some s \<Rightarrow> s)"

definition body_row :: "(json \<Rightarrow> string) \<Rightarrow> json \<Rightarrow> string \<times> string \<times> string" where
  "body_row js v = (''memory.ingest'', source_of v,
     js (case v of JObj fs \<Rightarrow> JObj (fs @ [(''metadata'', JNull)]) | _ \<Rightarrow> v))"

definition row_of :: "event \<Rightarrow> string \<times> string \<times> string" where
  "row_of e = (ev_type e, ev_actor e, ev_payload e)"

fun delivered :: "hub_event list \<Rightarrow> daemon_post list" where
  "delivered [] = []"
| "delivered (Deliver env up p # es) = (if up then [p] else []) @ delivered es"
| "delivered (AgentCall c # es) = delivered es"

text \<open>Every body the daemons write has the shape \<open>ingest_body\<close>, which agentd reads back.\<close>

lemma parse_ingest_body:
  "parse_ingest (ingest_body s c k ts) =
     Some \<lparr>ig_source = Some s, ig_content = c, ig_category = Some k, ig_tags = Some ts, ig_metadata = JNull\<rparr>"
  by (simp add: parse_ingest_def ingest_body_def need_def)

lemma transcription_is_ingest:
  "transcription_post text tags = ingest_body ''osmoda-voice'' text ''voice.transcription'' tags"
  by (simp add: transcription_post_def ingest_body_def)

lemma post_is_ingest_body: "\<exists>s c k ts. post_body js why p = ingest_body s c k ts"
  by (cases p)
    (auto simp: keyd_body_def mesh_body_def watch_body_def teach_body_def mcp_body_def
      transcription_is_ingest split: prod.split)

lemma ingest_body_row:
  "body_row js (ingest_body s c k ts) = (''memory.ingest'', s, js (JObj [(''source'', jopt (Some s)),
     (''content'', JStr c), (''category'', jopt (Some k)), (''tags'', jarr (Some ts)), (''metadata'', JNull)]))"
  by (simp add: body_row_def ingest_body_def source_of_def need_def jopt_def jarr_def)

text \<open>The codec reads back the bodies that are sent.\<close>

definition reads_back :: "world \<Rightarrow> (string \<Rightarrow> json option) \<Rightarrow> (deny_reason \<Rightarrow> string) \<Rightarrow> daemon_post \<Rightarrow> bool" where
  "reads_back w parse why p =
     (parse (w_json w (post_body (w_json w) why p)) = Some (post_body (w_json w) why p))"

lemma deliver_logs:
  assumes "reads_back w parse why p"
  shows "app_ledger (hub_step w parse why st (Deliver env up p)) =
    (if up then log_event (w_hash w) (app_ledger st) (case body_row (w_json w) (post_body (w_json w) why p) of
       (t, a, x) \<Rightarrow> \<lparr>le_now = ce_sql_now env, le_type = t, le_actor = a, le_payload = x\<rparr>) else app_ledger st)"
proof -
  obtain s c k ts where b: "post_body (w_json w) why p = ingest_body s c k ts" using post_is_ingest_body by blast
  show ?thesis using assms unfolding reads_back_def hub_step.simps b
    by (simp add: ingest_call_def parse_ingest_body ingest_body_row memory_ingest_handler_def log_event_def
        split: sum.split)
qed

section \<open>Every receipt is in the ledger\<close>

lemma log_event_row:
  assumes "last_rowid l < max_rowid"
  shows "\<exists>e. events (log_event H l x) = events l @ [e] \<and> row_of e = (le_type x, le_actor x, le_payload x)"
  using assms by (simp add: log_event_def append_event_def Let_def row_of_def)

lemma log_event_rowid: "last_rowid (log_event H l x) \<le> last_rowid l + 1"
  by (simp add: log_event_def append_event_def Let_def)

lemma logs_rowid: "logs H l l' \<Longrightarrow> last_rowid l' \<le> last_rowid l + 1"
proof -
  have "length es \<le> 1 \<Longrightarrow> last_rowid (foldl (log_event H) l0 es) \<le> last_rowid l0 + 1" for l0 es
    using log_event_rowid by (cases es) auto
  then show "logs H l l' \<Longrightarrow> ?thesis" by (auto simp: logs_def same_chain_def) metis
qed

lemma ingest_call_is_agent_step:
  obtains "fst (ingest_call w parse env st body) = st"
    | s c k t m where "fst (ingest_call w parse env st body) = agent_step w st (MemoryIngest env s c k t m)"
proof (cases "parse body")
  case None
  then show thesis using that(1) by (simp add: ingest_call_def)
next
  case (Some v)
  then show thesis using that by (cases "parse_ingest v") (auto simp: ingest_call_def)
qed

lemma hub_step_logs: "logs (w_hash w) (app_ledger st) (app_ledger (hub_step w parse why st e))"
proof (cases e)
  case (Deliver env up p)
  then show ?thesis
    using ingest_call_is_agent_step [of w parse env st "w_json w (post_body (w_json w) why p)"]
    by (metis agent_step_logs fst_conv hub_step.simps(2) logs_refl same_chain_refl)
qed (simp add: agent_step_logs)

interpretation hub: audit_log "hub_step w parse why" "\<lambda>st. events (app_ledger st)"
  "\<lambda>st. ledger_ok (w_hash w) (app_ledger st)" for w parse why
  using logs_extends [OF hub_step_logs] logs_ok [OF hub_step_logs]
  by unfold_locales blast+

lemma hub_step_rows:
  assumes "list_all (reads_back w parse why) (delivered [e])" and "last_rowid (app_ledger st) < max_rowid"
  obtains rows where "events (app_ledger (hub_step w parse why st e)) = events (app_ledger st) @ rows"
    and "subseq (List.map (\<lambda>p. body_row (w_json w) (post_body (w_json w) why p)) (delivered [e])) (List.map row_of rows)"
proof (cases e)
  case (AgentCall c)
  then show thesis using logs_extends [OF agent_step_logs [of w st c]] that by auto
next
  case (Deliver env up p)
  show thesis
  proof (cases up)
    case True
    obtain t a x where r: "body_row (w_json w) (post_body (w_json w) why p) = (t, a, x)" by (metis prod.exhaust)
    have "reads_back w parse why p" using assms(1) Deliver True by simp
    from deliver_logs [OF this, of st env True]
    have "app_ledger (hub_step w parse why st e) = log_event (w_hash w) (app_ledger st)
        \<lparr>le_now = ce_sql_now env, le_type = t, le_actor = a, le_payload = x\<rparr>"
      using Deliver True r by simp
    then obtain ev where "events (app_ledger (hub_step w parse why st e)) = events (app_ledger st) @ [ev]"
      "row_of ev = (t, a, x)"
      using log_event_row [OF assms(2)] by (metis log_entry.select_convs(2-4))
    then show thesis using that [of "[ev]"] Deliver True r by simp
  qed (use that Deliver in simp)
qed

text \<open>Whatever agentd serves in between, the receipts that got through are rows of the ledger, in the
  order in which they arrived.\<close>

lemma receipts_ledgered:
  assumes "list_all (reads_back w parse why) (delivered es)"
    and "last_rowid (app_ledger st) + int (length es) \<le> max_rowid"
  shows "\<exists>rows. events (app_ledger (foldl (hub_step w parse why) st es)) = events (app_ledger st) @ rows \<and>
    subseq (List.map (\<lambda>p. body_row (w_json w) (post_body (w_json w) why p)) (delivered es)) (List.map row_of rows)"
  using assms
proof (induction es arbitrary: st)
  case (Cons e es)
  have d: "delivered (e # es) = delivered [e] @ delivered es" by (cases e) simp_all
  let ?s = "hub_step w parse why st e"
  have e: "list_all (reads_back w parse why) (delivered [e])" and es: "list_all (reads_back w parse why) (delivered es)"
    using Cons.prems(1) unfolding d by simp_all
  have "last_rowid (app_ledger st) < max_rowid" using Cons.prems(2) by simp
  from hub_step_rows [OF e this] obtain rows1 where r1: "events (app_ledger ?s) = events (app_ledger st) @ rows1"
    "subseq (List.map (\<lambda>p. body_row (w_json w) (post_body (w_json w) why p)) (delivered [e])) (List.map row_of rows1)" .
  have "last_rowid (app_ledger ?s) + int (length es) \<le> max_rowid"
    using logs_rowid [OF hub_step_logs [of w st parse why e]] Cons.prems(2) by simp
  from Cons.IH [OF es this] obtain rows2
    where r2: "events (app_ledger (foldl (hub_step w parse why) ?s es)) = events (app_ledger ?s) @ rows2"
      "subseq (List.map (\<lambda>p. body_row (w_json w) (post_body (w_json w) why p)) (delivered es)) (List.map row_of rows2)"
    by blast
  show ?case unfolding d using r1 r2 by (auto intro!: exI [of _ "rows1 @ rows2"] list_emb_append_mono)
qed simp

section \<open>Nothing is signed without a row in the ledger\<close>

text \<open>Requests that keyd serves, each with what it posts, among everything else that agentd serves.\<close>

datatype audit_event = KeydServes call_env timestamp keyd_call | Other hub_event

definition new_receipts :: "keyd_world \<Rightarrow> keyd \<Rightarrow> keyd_call \<Rightarrow> wallet_receipt list" where
  "new_receipts kw k c = drop (length (kd_receipts k)) (kd_receipts (keyd_step kw k c))"

fun keyd_traffic :: "keyd_world \<Rightarrow> keyd \<Rightarrow> audit_event list \<Rightarrow> hub_event list" where
  "keyd_traffic kw k [] = []"
| "keyd_traffic kw k (KeydServes env now c # es) =
     List.map (\<lambda>r. Deliver env True (KeydPost now r)) (new_receipts kw k c) @ keyd_traffic kw (keyd_step kw k c) es"
| "keyd_traffic kw k (Other e # es) = e # keyd_traffic kw k es"

fun keyd_after :: "keyd_world \<Rightarrow> keyd \<Rightarrow> audit_event list \<Rightarrow> keyd" where
  "keyd_after kw k [] = k"
| "keyd_after kw k (KeydServes env now c # es) = keyd_after kw (keyd_step kw k c) es"
| "keyd_after kw k (Other e # es) = keyd_after kw k es"

text \<open>The receipt that an answered call leaves.\<close>

fun receipt_for :: "keyd_call \<Rightarrow> wallet_receipt \<Rightarrow> bool" where
  "receipt_for (CreateCall env ch label) r = (wr_action r = ''create'' \<and> wr_chain r = chain_text ch \<and> wr_decision r = Allowed)"
| "receipt_for (SignCall env i payload) r = (wr_action r = ''sign'' \<and> wr_wallet r = i \<and> wr_decision r = Allowed)"
| "receipt_for (SendCall env i to amount) r = (wr_action r = ''send'' \<and> wr_wallet r = i \<and> wr_to r = Some to \<and>
     wr_amount r = Some amount \<and> wr_decision r = Allowed)"
| "receipt_for (BuildCall env i to amount bp) r = (wr_action r = ''build_tx'' \<and> wr_wallet r = i \<and> wr_to r = Some to \<and>
     wr_amount r = Some amount \<and> wr_decision r = Allowed)"
| "receipt_for (DeleteCall env i) r = (wr_action r = ''delete'' \<and> wr_wallet r = i \<and> wr_decision r = Allowed)"

lemma created_chain: "create_wallet cy i now nonce gen b ch label = (b', Inr w) \<Longrightarrow> wi_chain w = ch"
  by (auto simp: create_wallet_def Let_def split: if_splits prod.splits)

lemma answered_receipt:
  assumes "snd (keyd_call_result kw k c)"
  shows "\<exists>r. kd_receipts (keyd_step kw k c) = kd_receipts k @ [r] \<and> receipt_for c r"
proof (cases c)
  case (CreateCall env ch label)
  then show ?thesis using assms
    by (auto simp: keyd_step_def wallet_create_handler_def Wallet.log_receipt_def dest!: created_chain
        split: prod.splits sum.splits)
next
  case (DeleteCall env i)
  then show ?thesis using assms
    by (auto simp: keyd_step_def wallet_delete_handler_def Wallet.log_receipt_def split: prod.splits sum.splits)
next
  case (SignCall env i payload)
  then show ?thesis using assms
    by (auto simp: keyd_step_def wallet_sign_handler_def Let_def Wallet.log_receipt_def
        split: prod.splits sum.splits option.splits policy_decision.splits)
next
  case (SendCall env i to amount)
  then show ?thesis using assms
    by (auto simp: keyd_step_def wallet_send_handler_def Let_def Wallet.log_receipt_def
        split: prod.splits sum.splits option.splits policy_decision.splits)
next
  case (BuildCall env i to amount bp)
  then show ?thesis using assms
    by (auto simp: keyd_step_def wallet_build_tx_handler_def Let_def Wallet.log_receipt_def
        split: prod.splits sum.splits option.splits policy_decision.splits)
qed

lemma traffic_append:
  "keyd_traffic kw k (es @ fs) = keyd_traffic kw k es @ keyd_traffic kw (keyd_after kw k es) fs"
  by (induction kw k es rule: keyd_traffic.induct) simp_all

lemma delivered_append [simp]: "delivered (es @ fs) = delivered es @ delivered fs"
  by (induction es rule: delivered.induct) simp_all

text \<open>An answered call has its receipt among the posts that got through.\<close>

lemma answered_delivered:
  assumes "snd (keyd_call_result kw (keyd_after kw k es) c)"
  shows "\<exists>r. receipt_for c r \<and> KeydPost now r \<in> set (delivered (keyd_traffic kw k (es @ KeydServes env now c # fs)))"
  using answered_receipt [OF assms] by (auto simp: traffic_append new_receipts_def)

lemma subseq_member: "subseq xs ys \<Longrightarrow> x \<in> set xs \<Longrightarrow> x \<in> set ys"
  by (auto elim: list_emb_set)

lemma delivered_row:
  assumes "list_all (reads_back w parse why) (delivered es)"
    and "last_rowid (app_ledger st) + int (length es) \<le> max_rowid" and "p \<in> set (delivered es)"
  shows "\<exists>rows e. events (app_ledger (foldl (hub_step w parse why) st es)) = events (app_ledger st) @ rows \<and>
    e \<in> set rows \<and> row_of e = body_row (w_json w) (post_body (w_json w) why p)"
proof -
  obtain rows where "events (app_ledger (foldl (hub_step w parse why) st es)) = events (app_ledger st) @ rows"
    and "subseq (List.map (\<lambda>p. body_row (w_json w) (post_body (w_json w) why p)) (delivered es)) (List.map row_of rows)"
    using receipts_ledgered [OF assms(1,2)] by blast
  moreover from subseq_member [OF this(2)] assms(3)
  obtain e where "e \<in> set rows" "row_of e = body_row (w_json w) (post_body (w_json w) why p)" by fastforce
  ultimately show ?thesis by blast
qed

section \<open>SafeSwitches of the learning daemon\<close>

text \<open>The requests of \<open>optimizer.rs\<close> and what the watch daemon makes of them.\<close>

definition begin_body :: "string \<Rightarrow> nat \<Rightarrow> json" where
  "begin_body plan ttl = JObj [(''plan'', JStr plan), (''ttl_secs'', JNum (int ttl)), (''health_checks'', JArr [])]"

definition json_uint :: "nat \<Rightarrow> json \<Rightarrow> nat option" where
  "json_uint n v = (case as_unsigned v of None \<Rightarrow> None | Some k \<Rightarrow> if k < 2 ^ n then Some k else None)"

definition option2 :: "('a \<Rightarrow> 'b \<Rightarrow> 'c) \<Rightarrow> 'a option \<Rightarrow> 'b option \<Rightarrow> 'c option" where
  "option2 f x y = (case (x, y) of (Some a, Some b) \<Rightarrow> Some (f a b) | _ \<Rightarrow> None)"

definition parse_check :: "json \<Rightarrow> health_check option" where
  "parse_check v =
     (case need ''type'' as_str v of
        None \<Rightarrow> None
      | Some t \<Rightarrow>
          (if t = ''systemd_unit'' then map_option SystemdUnit (need ''unit'' as_str v)
           else if t = ''tcp_port'' then option2 TcpPort (need ''host'' as_str v) (need ''port'' (json_uint 16) v)
           else if t = ''http_get'' then option2 HttpGet (need ''url'' as_str v) (need ''expect_status'' (json_uint 16) v)
           else if t = ''command'' then option2 Command (need ''cmd'' as_str v)
             (need ''args'' (\<lambda>a. case as_array a of None \<Rightarrow> None | Some vs \<Rightarrow> json_list as_str vs) v)
           else None))"

definition parse_begin :: "json \<Rightarrow> (string \<times> nat \<times> health_check list) option" where
  "parse_begin v =
     (case (need ''plan'' as_str v, need ''ttl_secs'' (json_uint 64) v, need ''health_checks'' as_array v) of
        (Some p, Some t, Some cs) \<Rightarrow> map_option (\<lambda>cs. (p, t, cs)) (json_list parse_check cs)
      | _ \<Rightarrow> None)"

definition begin_call :: "host \<Rightarrow> watch_env \<Rightarrow> watch \<Rightarrow> json \<Rightarrow> watch \<times> string watch_reply" where
  "begin_call h env st v =
     (case parse_begin v of
        None \<Rightarrow> (st, Refused 422)
      | Some (plan, ttl, checks) \<Rightarrow> switch_begin_handler h env st plan ttl checks)"

definition begin_response :: "string \<Rightarrow> string \<Rightarrow> json" where
  "begin_response i previous =
     JObj [(''id'', JStr i), (''previous_generation'', JStr previous), (''status'', JStr ''probation'')]"

text \<open>What \<open>create_safe_switch\<close> reads in the answer; the text of a refusal is not JSON.\<close>

definition switch_answer :: "string \<Rightarrow> string watch_reply \<Rightarrow> string option option" where
  "switch_answer previous r =
     (case r of Refused n \<Rightarrow> None | Done i \<Rightarrow> Some (need ''id'' as_str (begin_response i previous)))"

definition safe_plan :: "optimization \<Rightarrow> string" where
  "safe_plan x = ''teachd optimization: '' @ op_description x"

text \<open>The learning daemon applies its \<open>n\<close>-th pending optimization with the watch daemon at the other end;
  \<open>works\<close>: the process of the action succeeds.\<close>

fun serve_request :: "host \<Rightarrow> watch_env \<Rightarrow> watch \<Rightarrow> switch_request \<Rightarrow> watch \<times> string watch_reply" where
  "serve_request h env st (RequestSwitch plan ttl) = begin_call h env st (begin_body plan ttl)"
| "serve_request h env st (RequestRollback i) =
     (case switch_rollback_handler h env st i of (st', Refused n) \<Rightarrow> (st', Refused n) | (st', Done s) \<Rightarrow> (st', Done i))"

definition apply_with_watch ::
  "host \<Rightarrow> watch_env \<Rightarrow> watch_env \<Rightarrow> bool \<Rightarrow> watch \<Rightarrow> teachd \<Rightarrow> nat \<Rightarrow> watch \<times> teachd \<times> optimization reply" where
  "apply_with_watch h env1 env2 works wst st n =
     (if length (td_applying st) \<le> n then (wst, st, Fail 404)
      else let x = td_applying st ! n;
               (wst1, r) = serve_request h env1 wst (RequestSwitch (safe_plan x) 300);
               (st1, reply) = apply_finish \<lparr>ae_begin = switch_answer (current_generation h (ws_trace wst)) r,
                                             ae_process_ok = works\<rparr> st n;
               later = drop (Suc (length (td_switches st))) (td_switches st1)
           in (foldl (\<lambda>wst q. fst (serve_request h env2 wst q)) wst1 later, st1, reply))"

lemma parse_begin_body:
  "ttl < 2 ^ 64 \<Longrightarrow> parse_begin (begin_body plan ttl) = Some (plan, ttl, [])"
  by (simp add: parse_begin_def begin_body_def need_def json_uint_def)

definition teach_session :: "host \<Rightarrow> watch_env \<Rightarrow> watch \<Rightarrow> optimization \<Rightarrow> switch_session" where
  "teach_session h env wst x =
     \<lparr>sw_id = we_uuid env, sw_plan = safe_plan x, sw_ttl_secs = 300, sw_checks = [],
      sw_started_at = we_stamp env, sw_previous = current_generation h (ws_trace wst), sw_status = Probation\<rparr>"

lemma serve_begin:
  "serve_request h env wst (RequestSwitch (safe_plan x) 300) =
     (wst\<lparr>ws_switches := (ws_switches wst)(we_uuid env \<mapsto> teach_session h env wst x)\<rparr>, Done (we_uuid env))"
  by (simp add: begin_call_def parse_begin_body switch_begin_handler_def teach_session_def)

lemma switch_answer_id [simp]: "switch_answer previous (Done i) = Some (Some i)"
  by (simp add: switch_answer_def begin_response_def need_def)


text \<open>An action that works, or that starts no process, leaves its session in probation; a failing one makes
  the watch daemon go back to the previous generation of the whole system.\<close>

definition action_works :: "bool \<Rightarrow> optimization \<Rightarrow> bool" where
  "action_works works x = (action_process (op_action x) = None \<or> works)"

lemma apply_finish_answered:
  assumes "n < length (td_applying st)" and "x = td_applying st ! n"
  shows "td_switches (fst (apply_finish \<lparr>ae_begin = Some (Some i), ae_process_ok = works\<rparr> st n)) =
      td_switches st @ RequestSwitch (safe_plan x) 300 #
        (if action_works works x then [] else [RequestRollback i])"
    and "snd (apply_finish \<lparr>ae_begin = Some (Some i), ae_process_ok = works\<rparr> st n) =
      Reply 200 (if action_works works x then x\<lparr>op_status := Applied, op_switch := Some i\<rparr>
        else x\<lparr>op_status := OptRolledBack\<rparr>)"
  using assms
  by (simp_all add: apply_finish_def execute_and_apply_def action_works_def safe_plan_def log_teach_def apply_result_def Let_def
      update_optimization_status_def split: prod.split)

lemma apply_with_watch_eq:
  assumes "n < length (td_applying st)" and "x = td_applying st ! n"
    and "wst1 = wst\<lparr>ws_switches := (ws_switches wst)(we_uuid env1 \<mapsto> teach_session h env1 wst x)\<rparr>"
  shows "fst (apply_with_watch h env1 env2 works wst st n) =
      (if action_works works x then wst1 else fst (switch_rollback_handler h env2 wst1 (we_uuid env1)))"
    and "snd (snd (apply_with_watch h env1 env2 works wst st n)) =
      Reply 200 (if action_works works x then x\<lparr>op_status := Applied, op_switch := Some (we_uuid env1)\<rparr>
        else x\<lparr>op_status := OptRolledBack\<rparr>)"
  using assms apply_finish_answered [OF assms(1,2), of "we_uuid env1" works]
  by (simp_all add: apply_with_watch_def serve_begin Let_def split_beta split: watch_reply.split prod.split
      del: serve_request.simps(1))

lemma rollback_trace: "\<exists>ps. fst (rollback_generation h tr) = tr @ NixRollback # ps"
  by (auto simp: rollback_generation_def run_process_def Let_def split: prod.split option.split exit.split)

lemma failed_action_rolls_system_back:
  assumes "n < length (td_applying st)" and "\<not> action_works works (td_applying st ! n)"
  shows "\<exists>ps. ws_trace (fst (apply_with_watch h env1 env2 works wst st n)) = ws_trace wst @ NixRollback # ps"
  using rollback_trace [of h "ws_trace wst"] assms
  by (simp add: apply_with_watch_eq(1) [OF assms(1) refl refl] switch_rollback_handler_def teach_session_def
      is_active_def Let_def split_beta)

text \<open>A session without checks is never rolled back by the watch daemon.\<close>

definition never_failed :: "switch_session \<Rightarrow> bool" where
  "never_failed s = (sw_checks s = [] \<and> (\<forall>why t. sw_status s \<noteq> RolledBack why t))"

fun decides :: "string \<Rightarrow> watch_call \<Rightarrow> bool" where
  "decides i (CommitSwitch env j) = (j = i)"
| "decides i (RollbackSwitch env j) = (j = i)"
| "decides i _ = False"

lemma never_failed_step:
  assumes "keys_ok wst" and "watch_enabled wst c" and "\<not> decides i c" and s: "ws_switches wst i = Some s" "never_failed s"
  shows "\<exists>s'. ws_switches (watch_step pt h wst c) i = Some s' \<and> never_failed s' \<and> sw_ttl_secs s' = sw_ttl_secs s"
proof (cases "is_active s")
  case False
  then show ?thesis using watch_settled_step [OF assms(1,2) s(1)] s(2) by blast
next
  case True
  show ?thesis
  proof (cases c)
    case (BeginSwitch env plan ttl cs)
    with assms show ?thesis
      by (cases rule: begin_handler_switches [of h env wst plan ttl cs]) auto
  next
    case (ProbationTick clock stamp keys)
    then have "distinct keys" "set keys = dom (ws_switches wst)" using assms(2) by simp_all
    from probation_tick_active [OF assms(1) this s(1) True] show ?thesis
      using ProbationTick s(2) by (auto simp: never_failed_def probation_verdict_def)
  qed (use assms in \<open>auto simp: handler_switches split: option.split\<close>)
qed

lemma never_failed_run:
  assumes "keys_ok wst" and "enabled_run watch_enabled (watch_step pt h) wst cs" and "list_all (\<lambda>c. \<not> decides i c) cs"
    and "ws_switches wst i = Some s" and "never_failed s"
  shows "\<exists>s'. ws_switches (foldl (watch_step pt h) wst cs) i = Some s' \<and> never_failed s' \<and> sw_ttl_secs s' = sw_ttl_secs s"
  using assms
proof (induction cs arbitrary: wst s)
  case (Cons c cs)
  obtain s' where s': "ws_switches (watch_step pt h wst c) i = Some s'" "never_failed s'" "sw_ttl_secs s' = sw_ttl_secs s"
    using never_failed_step [of wst c i s pt h] Cons.prems by auto
  moreover have "keys_ok (watch_step pt h wst c)" using watch_keys_step Cons.prems(1,2) by simp
  ultimately show ?case using Cons.IH [of "watch_step pt h wst c" s'] Cons.prems(2,3) by simp
qed simp

lemma teach_session_never_failed: "never_failed (teach_session h env wst x)"
  by (simp add: never_failed_def teach_session_def)

lemma keys_ok_session:
  "keys_ok wst \<Longrightarrow> sw_id s = i \<Longrightarrow> keys_ok (wst\<lparr>ws_switches := (ws_switches wst)(i \<mapsto> s)\<rparr>)"
  by (simp add: keys_ok_def)

end
