(* ===== verification/Spec2Isabelle.thy ===== *)
theory Spec2Isabelle
  imports MeshSample MeshStart AgentdRecords Agentctl KeyStart Fleet Routines SkillLife Egress Mcpd Voice Daemons
begin

text \<open>
  A model of osModa, a set of Rust daemons that let an AI agent administer a machine, with the
  theorems that make its parts correct. Sources are under \<open>src/crates\<close>; a name such as
  \<open>approval.rs\<close> below is a file of the crate named with it.

  \<^bold>\<open>The program and the theories that model it.\<close> Each daemon is a process that serves a Unix
  socket; its handlers take the daemon's state under a mutex, so a handler (or, where it lets
  the mutex go in between, each of its critical sections) is one step on a record, and a run of the
  daemon is the fold of its step function over an arbitrary list of calls. Inputs from outside
  (clock, UUIDs, random bytes, disk and network outcomes) are arguments of the steps.

  \<^item> Shared vocabulary: \<open>Prelude\<close> (strings as UTF-8 bytes, JSON values, list updates, the locale
    \<open>decision_store\<close>), \<open>Decimal\<close> (printing, parsing and arithmetic of fixed-width integers) and \<open>Printing\<close>
    (\<open>{:.n}\<close> of a number that is not an integer).
  \<^item> \<open>agentd\<close>, the audit and approval daemon: \<open>Ledger\<close> (\<open>ledger.rs\<close>: hash-chained event log,
    migrations, queries, incidents), \<open>Approval\<close> (\<open>approval.rs\<close>: which commands are
    destructive, requests and decisions, the runtime block), \<open>Sandbox\<close> (\<open>sandbox.rs\<close>:
    bubblewrap command lines and capability tokens), \<open>Agentd\<close>, \<open>AgentdHost\<close> and \<open>AgentdRecords\<close> (the
    endpoints of \<open>api/\<close> over the state \<open>app\<close>, which is \<open>state.rs\<close>). Every handler writes what it did to the
    ledger; \<open>agent_step\<close> is one call. \<open>Agentctl\<close> is the command-line client, which reads the same ledger.
  \<^item> \<open>osmoda-keyd\<close>, the key daemon: \<open>Policy\<close> (\<open>policy.rs\<close>: amounts, daily limits and their
    counters), \<open>Transactions\<close> (\<open>tx_eth.rs\<close>, \<open>tx_sol.rs\<close>: encoders), \<open>Wallet\<close> (\<open>signer.rs\<close>,
    \<open>api.rs\<close>, \<open>receipt.rs\<close>: key files, key cache, the endpoints that put the policy before every
    signature), \<open>KeyStart\<close> (master key, index and permissions at start; \<open>key_life\<close> is a run with restarts);
    \<open>keyd_call\<close> is one call.
  \<^item> \<open>osmoda-watch\<close>, the deployment guard: \<open>Switch\<close> (\<open>switch.rs\<close>, \<open>watcher.rs\<close>, \<open>validate.rs\<close>,
    \<open>api.rs\<close>, loops of \<open>main.rs\<close>: probation of a system switch, autopilot watchers) and \<open>Fleet\<close>
    (\<open>fleet.rs\<close>, \<open>fleet_api.rs\<close>: switches decided by a quorum). Every process the daemon starts is
    recorded in a trace.
  \<^item> \<open>osmoda-mesh\<close>, the peer-to-peer daemon: \<open>MeshWire\<close> (\<open>messages.rs\<close>, \<open>transport.rs\<close>),
    \<open>MeshHandshake\<close> (\<open>identity.rs\<close>, \<open>handshake.rs\<close>), \<open>MeshRooms\<close> (\<open>room_store.rs\<close>), \<open>MeshNode\<close>
    (everything else: endpoints, loops, gossip), \<open>MeshStart\<close> (start, restart, accept loop), \<open>MeshSample\<close> (concrete parameters for the examples).
    \<open>mesh_step\<close> is one critical section.
  \<^item> \<open>osmoda-teachd\<close>, the learning daemon: \<open>TeachStore\<close> (\<open>knowledge.rs\<close>: tables and queries, repeated tool
    sequences), \<open>TeachLearn\<close> (\<open>observer.rs\<close>, \<open>learner.rs\<close>, \<open>teacher.rs\<close>), \<open>TeachSkills\<close>
    (\<open>skillgen.rs\<close>, \<open>verifier.rs\<close>, \<open>optimizer.rs\<close>), \<open>Teachd\<close> (\<open>api.rs\<close> and \<open>teach_step\<close>, one call or cycle),
    \<open>SkillLife\<close> (what a call does to a skill, as a step relation, and its refinement).
  \<^item> \<open>osmoda-routines\<close>: \<open>Routines\<close> (cron matcher, scheduler, actions, endpoints; \<open>routine_step\<close>).
  \<^item> \<open>osmoda-egress\<close>: \<open>Egress\<close> (filter, tunnels, permits; \<open>egress_step\<close>). \<open>osmoda-mcpd\<close>: \<open>Mcpd\<close> (child
    processes, manager loop, generated configuration; \<open>mcp_step\<close>). \<open>osmoda-voice\<close>: \<open>Voice\<close> (which
    programs run with which arguments; \<open>voice_step\<close>).
  \<^item> \<open>Daemons\<close>: the calls between the daemons. Each daemon posts receipts to the
    endpoint \<open>/memory/ingest\<close> (\<open>hub_step\<close> is agentd, which serves its API and those posts), and the learning daemon opens
    and rolls back SafeSwitches of the watch daemon (\<open>apply_with_watch\<close>); the JSON one side writes is read by the
    types of the other.

  \<^bold>\<open>Interfaces.\<close> Where one part relies on what another promises, the promise is a locale and the
  code's model interprets it: \<open>decision_store\<close> (what is decided stays decided: approval requests,
  SafeSwitch sessions), \<open>audit_log\<close> (a hash chain that handlers extend: the ledger, agentd
  with its own calls and with the posts of the other daemons), \<open>quota\<close> and \<open>spender\<close>
  (a counter that bounds what is spent: the policy engine, the wallet endpoints), \<open>fifo_channel\<close>
  (what one side sends the other receives, in order: mesh connections, and the session under
  the handshake), \<open>merge_store\<close> (a store whose contents do not depend on the order of
  additions: the gossip store), \<open>keyed_table\<close> (a table with a primary
  key: documents, optimizations and skills of the learning daemon), \<open>authorised\<close> (what takes effect was
  granted before in the run: optimizations, promoted skills, tunnels of the proxy). \<open>decision_store\<close> also
  covers skills that were rejected or retired.

  \<^bold>\<open>What is shown.\<close> The numbered properties C1 to C40 stand in this theory, after the sample inputs their
  witnesses use; each is a few steps over the lemmas of its component. In the order of the parts:
  the audit chain survives every run and reveals tampering, and the client's verification agrees with the
  daemon's; destructive commands run only with an
  approval for exactly that command; mounts and tokens of the sandbox; daily limits hold over any
  run and across restarts, and no transaction is signed around the policy; wallets keep their keys over restarts; every
  answered wallet request is a row of agentd's ledger; signed transactions decode
  to what was asked for; only validated processes are ever started; switches are decided
  once and their probation ends; fleet votes and quorum; the mesh link, invites, peers, rooms and
  gossip; what the learning daemon applies,
  promotes and finds, and what its SafeSwitches do; cron fields, routines and their scheduler; where the proxy connects to; the processes
  of the MCP manager; an approval gate that fails closed. Theorems without a number complete
  them (daily counts of sends and signatures, injectivity of the signing payload, Solana transfers, confinement of
  skill files, paging, rotation of backups).
  Where the code departs from its documentation or its evident purpose, a lemma of the component says how:
  \<open>pattern_with_upper_never_matches\<close>, \<open>overtaken_send_fails\<close>, \<open>built_identity_verifies\<close>, \<open>find_tool_sequences_all\<close>,
  \<open>reported_increase\<close>, \<open>suggest_resets\<close>, \<open>tunnels_unbounded\<close>, \<open>mapped_address_passes\<close>,
  \<open>failed_start_published\<close>, \<open>unreadable_child_leaks\<close>, \<open>lost_salt_replaces_key\<close>, \<open>failed_action_rolls_system_back\<close>,
  \<open>invite_reusable_after_restart\<close>.

  \<^bold>\<open>Parameters.\<close> Code that is not in the repository is an argument: SHA-256 and Keccak (any function;
  theorems about tampering conclude with a collision as the alternative), HMAC, AES-GCM,
  ChaCha20-Poly1305, Ed25519, ML-KEM, Noise sessions, base58 and base64, chrono's parser
  and \<open>now + d\<close> (which panics out of range: \<open>None\<close>), \<open>serde_json\<close>'s text, bubblewrap and the
  process runner. What a theorem needs of them is a hypothesis, such as that decrypting undoes
  encrypting, and its witness instantiates it. SQLite tables are lists of rows in rowid order, with the
  conditions of the code's statements written out.

  \<^bold>\<open>Bounds and widths.\<close> Amounts are \<open>nat\<close> below \<open>2 ^ 128\<close> with the code's checked additions;
  counters of fixed width wrap where Rust's release build wraps; transaction fields and bytes are
  words. No definition uses fuel: every loop of the code is over a finite list or is a
  background loop, modelled by its tick. Bounded loops
  (backoff, retries, probation) have their bound in the theorem. Quotients that the
  code computes in doubles are kept as fractions, and the quorum as the exact ceiling, which
  the doubles give for every size the daemon can meet (see \<open>Fleet\<close>).

  \<^bold>\<open>Not modelled.\<close> Sockets, routers, signals and argument parsing; tracing output; the transport of HTTP
  requests (a post arrives or does not) and \<open>mesh_client.rs\<close>, which nothing calls; the
  message exchange inside the Noise library; 
  TypeScript, Nix and shell code. Strings outside ASCII keep their bytes: case folding and white space act
  on the ASCII range.
\<close>

section \<open>Sample inputs of the witnesses\<close>

definition sample_monday :: clock_time where
  "sample_monday = \<lparr>ct_ns = 0, ct_text = ''T'', ct_minute = 30, ct_hour = 9, ct_day = 2, ct_month = 3, ct_weekday = 1\<rparr>"





definition sample_teach_world :: teach_world where
  "sample_teach_world = \<lparr>tw_json = concat, tw_parse = (\<lambda>_. None), tw_time = (\<lambda>_. 0), tw_show = id, tw_names = id, tw_seqs = id\<rparr>"

definition sample_opt_calls :: "teach_call list" where
  "sample_opt_calls = [CreateDoc ''u'' ''t1'' ''Recurring failures nginx'' ''reliability'' '''' None, Suggest ''t2'',
     ApproveOpt ''opt-kd-manual-u'', ApplyStart ''opt-kd-manual-u'', ApplyFinish \<lparr>ae_begin = Some (Some ''s1''), ae_process_ok = True\<rparr> 0]"

definition sample_skill_calls :: "teach_call list" where
  "sample_skill_calls =
     concat (List.map (\<lambda>s. List.map (\<lambda>t. ObserveAction (s @ t) t t None None None (Some s) None) [''a'', ''b'', ''c''])
       [''s1'', ''s2'', ''s3'']) @ [Skillgen ''0'' ''d'', GenerateSkill True ''day'' ''e'' ''sc-a-b-c'']"

definition sample_actions :: teach_db where
  "sample_actions = td_db (foldl (teach_step sample_teach_world) (start_teachd ''/s'') (take 9 sample_skill_calls))"

definition sample_failures :: "teach_call list" where
  "sample_failures = List.map (\<lambda>i. SkillExecuted i i ''a-and-b-and-c'' None ''failure'' None) [''1'', ''2'', ''3'', ''4'', ''5'']"

definition sample_server :: "string \<Rightarrow> server_config" where
  "sample_server n = \<lparr>sc_name = n, sc_command = ''npx'', sc_args = [n], sc_env = [], sc_transport = ''stdio'',
     sc_domains = [''api.example.org''], sc_secret = None\<rparr>"

definition sample_start :: start_env where
  "sample_start = \<lparr>se_secret = None, se_spawn = Inr 4242, se_now = ''t''\<rparr>"

definition sample_world :: world where
  "sample_world = \<lparr>w_hash = (\<lambda>s. dec (length s)), w_json = (\<lambda>_. ''{}''), w_why = (\<lambda>_. ''no''),
     w_mac = (\<lambda>k s. k @ s), w_bwrap = (\<lambda>_ _. TimedOut), w_canon = (\<lambda>_. None),
     w_exists = (\<lambda>_. True), w_fk = False\<rparr>"

definition sample_env :: "string \<Rightarrow> call_env" where
  "sample_env i = \<lparr>ce_sql_now = ''2026-01-01 00:00:00'', ce_now = ''2026-01-01T00:00:00Z'', ce_uuid = i,
     ce_plus_secs = (\<lambda>_. Some ''2026-01-01T00:10:00Z'')\<rparr>"

definition sample_app :: app where
  "sample_app = \<lparr>app_ledger = empty_ledger, app_gate = Some (new_gate []),
     app_engine = Some \<lparr>hmac_key = ''k'', egress_proxy = ''http://127.0.0.1:9999''\<rparr>, app_backups = []\<rparr>"

definition sample_row :: event where
  "sample_row = \<lparr>ev_id = 1, ev_ts = ''t'', ev_type = ''boot'', ev_actor = ''a'', ev_payload = ''{}'',
     ev_prev_hash = genesis_prev_hash,
     ev_hash = dec (length (hash_input 1 ''t'' ''boot'' ''a'' ''{}'' genesis_prev_hash))\<rparr>"

definition sample_calls :: "agent_call list" where
  "sample_calls = [RequestApproval (sample_env ''r1'') ''reboot'' None ''upgrade'' None,
     ApproveCall (sample_env ''x'') ''r1'' None]"

definition sample_log_app :: app where
  "sample_log_app = sample_app\<lparr>app_ledger := empty_ledger\<lparr>events := [sample_row], last_rowid := 1,
     fts := [fts_of sample_row]\<rparr>\<rparr>"



definition sample_crypto :: crypto where
  "sample_crypto = \<lparr>cy_encrypt = (\<lambda>mk n p. p @ [7]), cy_decrypt = (\<lambda>mk n c. Some (butlast c)),
     cy_sign_eth = (\<lambda>k. Some (\<lambda>m. k @ m)), cy_sign_sol = (\<lambda>k m. k @ m)\<rparr>"

definition sample_keyd_env :: keyd_env where
  "sample_keyd_env = \<lparr>ke_today = ''2026-01-01'', ke_now = ''2026-01-01T00:00:00Z'', ke_instant = 0,
     ke_uuid = ''w2'', ke_nonce = replicate 12 0, ke_generated = (\<lambda>_. (''0xaddr'', replicate 32 1)),
     ke_io_ok = True\<rparr>"

definition sample_backend :: key_backend where
  "sample_backend = \<lparr>kb_master_key = [], kb_wallets = [], kb_saved = [], kb_files = (\<lambda>_. None),
     kb_cache = (\<lambda>_. None)\<rparr>"

definition sample_derive :: "bytes \<Rightarrow> bytes \<Rightarrow> bytes option" where
  "sample_derive raw salt = Some (kb_master_key sample_backend)"

definition sample_disk :: key_disk where
  "sample_disk = \<lparr>dk_raw = Some (replicate 32 7), dk_salt = Some (replicate 16 9), dk_index = None, dk_keys = (\<lambda>_. None)\<rparr>"

definition sample_wallet_backend :: key_backend where
  "sample_wallet_backend = fst (create_wallet sample_crypto ''w1'' ''t'' (replicate 12 0)
     (\<lambda>_. (''0xaddr'', replicate 32 1)) sample_backend Ethereum ''main'')"

definition sample_keyd :: keyd where
  "sample_keyd = \<lparr>kd_signer = sample_wallet_backend, kd_policy = new_engine ''2026-01-01'' None None,
     kd_receipts = []\<rparr>"

definition sample_keyd_world :: keyd_world where
  "sample_keyd_world = \<lparr>kw_crypto = sample_crypto,
     kw_chains = \<lparr>cc_eth_key = (\<lambda>_. None), cc_sol_key = (\<lambda>_. ([], \<lambda>m. m)), cc_keccak = (\<lambda>x. x),
       cc_hex_decode = (\<lambda>_. None), cc_hex_encode = (\<lambda>_. []), cc_b58_decode = (\<lambda>_. None),
       cc_b58_encode = (\<lambda>_. [])\<rparr>,
     kw_hex_decode = (\<lambda>_. Some []), kw_hex_encode = (\<lambda>_. []), kw_today = ''2026-01-01''\<rparr>"

definition sample_send :: "keyd \<times> string wreply" where
  "sample_send = wallet_send_handler sample_crypto (\<lambda>_. ''sig'') sample_keyd_env sample_keyd ''w1'' ''0xabc'' ''0.5''"

definition sample_check :: "policy_engine \<times> policy_decision" where
  "sample_check = check_send ''2026-01-01'' True (kd_policy sample_keyd) ''ethereum'' ''0.5'' ''0xabc''"

definition sample_eth_key :: "bytes \<Rightarrow> eth_key option" where
  "sample_eth_key k = Some ([], \<lambda>h. Some (replicate 64 1, 0))"

definition sample_hex :: "string \<Rightarrow> bytes option" where
  "sample_hex s = (if even (length s) then Some (replicate (length s div 2) 0) else None)"

definition sample_tx :: eth_tx_params where
  "sample_tx = \<lparr>etx_chain_id = 1, etx_nonce = 0, etx_to = ''0x'' @ replicate 40 (CHR ''0''), etx_value = ''5'',
     etx_max_fee = 30, etx_max_priority_fee = 1, etx_gas_limit = 21000, etx_data = None\<rparr>"

definition sample_signed :: eth_tx_result where
  "sample_signed = projr (build_and_sign_eip1559 sample_eth_key id sample_hex (\<lambda>_. ''00'') [] sample_tx)"

definition sample_sol_key :: "bytes \<Rightarrow> sol_key" where
  "sample_sol_key k = (k, \<lambda>m. replicate 64 0)"

definition sample_b58 :: "string \<Rightarrow> bytes option" where
  "sample_b58 s = Some (replicate 32 2)"

definition sample_text :: "bytes \<Rightarrow> string" where
  "sample_text b = replicate (length b) (CHR ''x'')"

definition sample_transfer :: sol_tx_result where
  "sample_transfer = projr (build_and_sign_transfer sample_sol_key sample_b58 sample_text (replicate 32 1)
     ''bob'' 1000 ''recent'')"





definition sample_opt :: optimization where
  "sample_opt = \<lparr>op_id = ''o1'', op_doc = ''kd'', op_description = ''restart nginx'', op_action = ServiceRestart ''nginx'',
     op_status = OptApproved, op_switch = None, op_created_at = ''t''\<rparr>"

definition sample_applying :: teachd where
  "sample_applying = (start_teachd ''/s'')\<lparr>td_applying := [sample_opt]\<rparr>"

definition sample_boot :: boot_env where
  "sample_boot = \<lparr>be_fresh = \<lparr>fk_ed_secret = [], fk_noise = ([], []), fk_mlkem = ([], [])\<rparr>, be_addr = ''127.0.0.1'', be_port = 18800,
     be_public = None\<rparr>"

definition sample_mesh_life :: "mesh_event list" where
  "sample_mesh_life = [MeshCall (AcceptInvite (sample_mesh_env 5) ''code''), MeshRestart sample_boot True,
     MeshCall (Inbound (sample_mesh_env 6) (mi_public (pa_identity (sample_party 2))) 1)]"

definition sample_host :: host where
  "sample_host = \<lparr>ho_run = (\<lambda>n p. None), ho_restart = (\<lambda>n u. Exited True 0 [] []),
     ho_profile = (\<lambda>n. Some ''system-1-link'')\<rparr>"

definition sample_clock :: "timestamp \<Rightarrow> int option" where
  "sample_clock s = Some 0"

definition sample_watch :: watch where
  "sample_watch = \<lparr>ws_switches = (\<lambda>_. None), ws_watchers = [], ws_saved = None, ws_trace = [], ws_posts = []\<rparr>"

definition sample_watch_env :: "string \<Rightarrow> watch_env" where
  "sample_watch_env i = \<lparr>we_uuid = i, we_stamp = ''t'', we_clock = 0, we_io_ok = True\<rparr>"

definition sample_begin :: watch_call where
  "sample_begin = BeginSwitch (sample_watch_env ''s1'') ''upgrade'' 60 [TcpPort ''db'' 5432]"

definition sample_commit :: watch_call where
  "sample_commit = CommitSwitch (sample_watch_env ''x'') ''s1''"

definition sample_tick :: watch_call where
  "sample_tick = ProbationTick (\<lambda>_. 0) (\<lambda>_. ''t'') [''s1'']"

definition sample_session :: switch_session where
  "sample_session = \<lparr>sw_id = ''s1'', sw_plan = ''upgrade'', sw_ttl_secs = 60, sw_checks = [TcpPort ''db'' 5432],
     sw_started_at = ''t'', sw_previous = ''system-1-link'', sw_status = Probation\<rparr>"

lemmas sample_watch_eval = sample_watch_def sample_watch_env_def sample_begin_def sample_commit_def
  sample_tick_def sample_session_def sample_host_def current_generation_def switch_begin_handler_def
  switch_commit_handler_def set_status_def is_active_def Let_def

definition sample_watcher :: watcher where
  "sample_watcher = \<lparr>wt_id = ''w1'', wt_name = ''db'', wt_check = TcpPort ''db'' 5432, wt_interval_secs = 30,
     wt_actions = [RestartService ''db.service'', Notify ''db down''], wt_state = Healthy\<rparr>"

definition sample_fleet_calls :: "fleet_call list" where
  "sample_fleet_calls = [ProposeCall ''f1'' ''t'' ''upgrade'' [''p1'', ''p2'', ''p3''] None None None,
     VoteCall 0 ''t'' ''f1'' ''p1'' True None, VoteCall 0 ''t'' ''f1'' ''p2'' True None]"

definition sample_coordinator :: "fleet_call list \<Rightarrow> coordinator" where
  "sample_coordinator cs = the (foldl (fleet_call_step id sample_clock) (Some (\<lambda>_. None)) cs)"

definition sample_fleet :: fleet_switch where
  "sample_fleet = the (sample_coordinator sample_fleet_calls ''f1'')"

definition sample_open :: fleet_switch where
  "sample_open = the (sample_coordinator (take 2 sample_fleet_calls) ''f1'')"

lemmas sample_fleet_eval = sample_fleet_def sample_open_def sample_coordinator_def sample_fleet_calls_def sample_clock_def
  fleet_propose_handler_def propose_def new_fleet_switch_def Let_def fleet_vote_handler_def
  cast_vote_def is_timed_out_def num_seconds_def as_u64_def record_vote_def has_quorum_def quorum_required_def
  approve_count_def participant_count_def is_vetoed_def wrapping_add_w_def advance_to_execute_def
  peers_def voters_def

lemmas amount_eval = amount_from_str_def trim_def is_whitespace_def parse_uint_def digits_val_def
  digit_val_def ascii_digit_def checked_mul_w_def checked_add_w_def decimals_def

lemma sample_amounts:
  "amount_from_str ''1.0'' = Some 1000000000000000000"
  "amount_from_str ''0.5'' = Some 500000000000000000"
  by (simp_all add: amount_eval)

lemma sample_policy:
  "kd_policy sample_keyd = \<lparr>pe_rules = default_policy, pe_counters = new_counters ''2026-01-01'', pe_disk = None\<rparr>"
  by (simp add: sample_keyd_def new_engine_def load_counters_def)

lemmas meter_eval = sample_policy default_policy_def send_rule_for_def today_counters_def reset_if_new_day_def
  new_counters_def get_or_zero_def amount_metered_def sends_metered_def signs_metered_def amount_used_def
  sends_used_def signs_used_def sample_amounts

lemma sample_allowed:
  "snd (check_send ''2026-01-01'' True (kd_policy sample_keyd) ''ethereum'' ''0.5'' ''0xabc'') = Allowed"
  by (simp add: meter_eval check_send_def send_rule_check_def checked_add_w_def)

lemma sample_signature:
  "sign_message sample_crypto 0 (kd_signer sample_keyd) ''w1'' m =
     ((kd_signer sample_keyd)\<lparr>kb_cache := [''w1'' \<mapsto> (replicate 32 1, 0)]\<rparr>, Inr (replicate 32 1 @ m))"
  by (simp add: sample_keyd_def sample_wallet_backend_def create_wallet_def sample_backend_def Let_def
      save_index_def sign_message_def load_key_bytes_def evict_stale_keys_def decrypt_key_def encrypt_key_def
      sample_crypto_def)

lemma sample_wallet:
  "find_by wi_id ''w1'' (kb_wallets (kd_signer sample_keyd)) = Some \<lparr>wi_id = ''w1'', wi_label = ''main'',
     wi_chain = Ethereum, wi_address = ''0xaddr'', wi_created_at = ''t''\<rparr>"
  by (simp add: sample_keyd_def sample_wallet_backend_def create_wallet_def sample_backend_def Let_def
      save_index_def)

lemma sample_send_answer: "snd sample_send = WOk ''sig''"
proof -
  obtain p where "check_send ''2026-01-01'' True (kd_policy sample_keyd) ''ethereum'' ''0.5'' ''0xabc'' = (p, Allowed)"
    using sample_allowed by (metis prod.collapse)
  then show ?thesis
    by (simp add: sample_send_def wallet_send_handler_def sample_wallet sample_keyd_env_def Let_def
        sample_signature)
qed


lemma no_files: "kf_ed (ms_files sample_mesh) = None"
  by (simp add: sample_mesh_def)

section \<open>agentd: the audit ledger\<close>



text \<open>C2 (safety). Tamper evidence: two chains of the same length that both verify and end in the
  same hash hold the same rows, or the hash function has a collision on two rows at the same
  position. The fields before the payload must not hold the separator.\<close>

theorem tamper_evident:
  assumes "\<And>x. no_pipe (H x)" and "verify H l" and "verify H l'"
    and "length (events l) = length (events l')" and "last_hash l = last_hash l'"
    and "\<forall>e \<in> set (events l) \<union> set (events l'). clean_event e"
  shows "events l = events l' \<or> row_collision H (events l) (events l')"
proof (rule chains_agree [where p = genesis_prev_hash])
  show "no_pipe genesis_prev_hash" by (simp add: no_pipe_def genesis_prev_hash_def)
  show "events l \<noteq> [] \<Longrightarrow> ev_hash (last (events l)) = ev_hash (last (events l'))"
    using assms(4,5) by (auto simp: last_hash_def split: if_splits)
qed (use assms in \<open>auto simp: verify_def\<close>)

theorem tamper_evident_witness:
  "events (empty_ledger\<lparr>events := [sample_row]\<rparr>) = events (empty_ledger\<lparr>events := [sample_row\<lparr>ev_ts := ''u''\<rparr>]\<rparr>) \<or>
   row_collision (\<lambda>s. dec (length s)) (events (empty_ledger\<lparr>events := [sample_row]\<rparr>))
     (events (empty_ledger\<lparr>events := [sample_row\<lparr>ev_ts := ''u''\<rparr>]\<rparr>))"
proof (rule tamper_evident)
  show "no_pipe (dec (length x))" for x :: string
    using dec_set [of "CHR ''|''" "length x"] by (auto simp: no_pipe_def ascii_digit_def)
qed (simp_all add: verify_def sample_row_def compute_hash_def hash_input_def last_hash_def
    clean_event_def no_pipe_def)

text \<open>C3 (equivalence). The client's own verification agrees with the daemon's: \<open>agentctl verify-ledger\<close> exits
  with 0 exactly on the chains agentd accepts, its first complaint names the first row at which agentd's
  verification stops, and \<open>agentctl events\<close> lists agentd's answer to the same query, oldest first.\<close>

theorem client_verification:
  assumes "events l = pre @ e # later" and "verify H (l\<lparr>events := pre\<rparr>)" and "\<not> verify H (l\<lparr>events := pre @ [e]\<rparr>)"
  shows "(\<forall>l'. fst (cmd_verify_ledger H l') = 0 \<longleftrightarrow> verify H l') \<and>
    (\<exists>ls. cmd_verify_ledger H l = (1, (if ev_prev_hash e = last_hash (l\<lparr>events := pre\<rparr>) then mismatch_line H e
      else break_line e (last_hash (l\<lparr>events := pre\<rparr>))) # ls)) \<and>
    ctl_select l n t a = rev (query l \<lparr>fl_type = t, fl_actor = a, fl_limit = Some (int n)\<rparr>)"
proof -
  have x: "last_hash (l\<lparr>events := pre\<rparr>) = expected_after genesis_prev_hash pre"
    by (simp add: expected_after_def last_hash_def)
  have "verify_from H genesis_prev_hash pre" "\<not> verify_from H genesis_prev_hash (pre @ [e])"
    using assms(2,3) by (simp_all add: verify_def)
  from cmd_verify_first [OF assms(1) this] show ?thesis
    unfolding x using cmd_verify_agrees ctl_select_query by blast
qed

theorem client_verification_witness:
  "\<exists>ls. cmd_verify_ledger (\<lambda>s. dec (length s)) (empty_ledger\<lparr>events := [sample_row, sample_row]\<rparr>) =
     (1, break_line sample_row (ev_hash sample_row) # ls)"
proof -
  let ?l = "empty_ledger\<lparr>events := [sample_row, sample_row]\<rparr>"
  have v: "verify (\<lambda>s. dec (length s)) (?l\<lparr>events := [sample_row]\<rparr>)"
    by (simp add: verify_def sample_row_def compute_hash_def hash_input_def)
  have nv: "\<not> verify (\<lambda>s. dec (length s)) (?l\<lparr>events := [sample_row] @ [sample_row]\<rparr>)" by code_simp
  have ne: "ev_prev_hash sample_row \<noteq> ev_hash sample_row" by code_simp
  have e: "events ?l = [sample_row] @ sample_row # []" by simp
  from conjunct1 [OF conjunct2 [OF client_verification [OF e v nv]]] ne show ?thesis
    by (simp add: last_hash_def)
qed



text \<open>A page of the event log lists matching rows only, newest first, and leaves out a
  matching row only when the page is full.\<close>

theorem event_page:
  assumes "ledger_ok H (app_ledger st)" and "events_log_handler st ty actor limit = Reply 200 es"
  shows "sorted_wrt (>) (List.map ev_id es) \<and>
    (\<forall>e \<in> set es. e \<in> set (events (app_ledger st)) \<and> (\<forall>t. ty = Some t \<longrightarrow> ev_type e = t) \<and>
       (\<forall>a. actor = Some a \<longrightarrow> ev_actor e = a)) \<and>
    (\<forall>e \<in> set (events (app_ledger st)). (\<forall>t. ty = Some t \<longrightarrow> ev_type e = t) \<longrightarrow>
       (\<forall>a. actor = Some a \<longrightarrow> ev_actor e = a) \<longrightarrow> e \<notin> set es \<longrightarrow>
       int (length es) = (case limit of None \<Rightarrow> 50 | Some n \<Rightarrow> n))"
proof -
  let ?n = "case limit of None \<Rightarrow> 50 | Some n \<Rightarrow> n"
  let ?match = "\<lambda>e. (case ty of None \<Rightarrow> True | Some t \<Rightarrow> ev_type e = t) \<and>
    (case actor of None \<Rightarrow> True | Some a \<Rightarrow> ev_actor e = a)"
  let ?all = "rev (filter ?match (events (app_ledger st)))"
  have es: "es = query (app_ledger st) \<lparr>fl_type = ty, fl_actor = actor, fl_limit = Some ?n\<rparr>"
    using assms(2) by (simp add: events_log_handler_def)
  have page: "es = sql_limit ?n ?all" unfolding es query_def by simp
  have "int (length es) = ?n" if "e \<in> set ?all" "e \<notin> set es" for e
    using sql_limit_full [OF that(1), of ?n, folded page, OF that(2)] .
  moreover have "e \<in> set es \<Longrightarrow> e \<in> set ?all" for e
    by (rule subsetD [OF sql_limit_set [of ?n ?all, folded page]])
  moreover have "sorted_wrt (>) (List.map ev_id es)"
    unfolding es using assms(1) by (intro query_newest_first) (simp add: ledger_ok_def)
  ultimately show ?thesis by (cases ty; cases actor; simp)
qed

theorem event_page_witness:
  "sorted_wrt (>) (List.map ev_id [sample_row]) \<and> sample_row \<in> set (events (app_ledger sample_log_app)) \<and>
   ev_type sample_row = ''boot''"
proof -
  have "ledger_ok (\<lambda>s. dec (length s)) (app_ledger sample_log_app)"
    by (simp add: sample_log_app_def ledger_ok_def ledger_wf_def verify_def sample_row_def
        compute_hash_def empty_ledger_def max_rowid_def)
  moreover have "events_log_handler sample_log_app (Some ''boot'') None None = Reply 200 [sample_row]"
    by (simp add: sample_log_app_def events_log_handler_def query_def sample_row_def sql_limit_def)
  ultimately show ?thesis by (auto dest!: event_page)
qed

section \<open>agentd: the approval gate\<close>

text \<open>C5 (safety). No destructive command passes the gate without an operator: when, after any run of
  the daemon from an empty gate, the runtime check lets a destructive command through, the given
  id was requested for exactly this command and approved after that.\<close>

theorem destructive_needs_approval:
  assumes "app_gate st = Some (new_gate extras)"
    and "app_gate (foldl (agent_step w) st cs) = Some g"
    and "is_destructive g cmd" and "check_and_reject g cmd approval_id = Inr ()"
  shows "\<exists>i. approval_id = Some i \<and> granted (agent_trace w st (new_gate extras) cs) i cmd"
proof -
  let ?es = "agent_trace w st (new_gate extras) cs"
  have g: "g = foldl gate_step (new_gate extras) ?es"
    using agent_run_gate [OF assms(1), of w cs] assms(2) by simp
  obtain i r where i: "approval_id = Some i" and r: "find_by ar_id i (gate_rows g) = Some r"
    "ar_status r = ''approved''" "ar_command r = cmd"
    using check_and_reject_Inr [OF assms(4,3)] by blast
  have "r \<in> set (gate_rows g)" and ri: "ar_id r = i" using find_by_Some [OF r(1)] by auto
  then have "history_ok ?es r" using g run_history by blast
  then show ?thesis using i r ri by (auto simp: history_ok_def)
qed

theorem destructive_needs_approval_witness:
  "\<exists>i. Some ''r1'' = Some i \<and>
     granted (agent_trace sample_world sample_app (new_gate []) sample_calls) i ''reboot''"
  by (rule destructive_needs_approval [where st = sample_app and w = sample_world and cs = sample_calls
      and g = "the (app_gate (foldl (agent_step sample_world) sample_app sample_calls))"])
    (simp add: sample_app_def, code_simp, code_simp, code_simp)

text \<open>C6 (invariant). A decision is final: no run of requests, approvals, denials and expiry ticks
  changes an approval request that is no longer pending.\<close>

theorem decisions_final:
  assumes "gate_entry (foldl gate_step g es) i = Some r" and "ar_status r \<noteq> ''pending''"
  shows "gate_entry (foldl gate_step g (es @ fs)) i = Some r"
  using gate_store.decided_once [of g es fs i r] assms by (simp add: row_settled_def)

theorem decisions_final_witness:
  "gate_entry (foldl gate_step (new_gate []) ([Request ''r1'' ''a'' (Some ''z'') ''reboot'' ''u'' [],
       Deny ''b'' ''r1'' ''op''] @ [Approve ''c'' ''r1'' ''x'', Expire ''zz''])) ''r1'' =
   Some \<lparr>ar_id = ''r1'', ar_command = ''reboot'', ar_actor = ''u'', ar_reason = [],
     ar_created_at = ''a'', ar_expires_at = ''z'', ar_status = ''denied'', ar_decided_at = Some ''b'',
     ar_decided_by = Some ''op''\<rparr>"
  by (rule decisions_final) (code_simp, simp)

text \<open>C7 (safety). No disguise hides a destructive command: however often letters change case, quotes
  and backslashes are put in and white space is doubled or replaced, a command that a built-in
  pattern matches stays destructive.\<close>

theorem disguises_detected:
  assumes "p \<in> set dangerous_commands \<union> set pipe_to_shell"
    and "contains (normalize_command cmd) p" and "disguise\<^sup>*\<^sup>* cmd cmd'"
  shows "is_destructive g cmd'"
proof -
  have "contains (normalize_command cmd') p" using assms(2) disguises_normal [OF assms(3)] by simp
  then show ?thesis using assms(1) is_destructive_pattern is_destructive_pipe by blast
qed

theorem disguises_detected_witness: "is_destructive (new_gate []) (''R'' @ CHR 0x27 # ''m -rf /'')"
proof (rule disguises_detected [where p = "''rm -rf''" and cmd = "''rm -rf /''"])
  show "''rm -rf'' \<in> set dangerous_commands \<union> set pipe_to_shell" by code_simp
  show "contains (normalize_command ''rm -rf /'') ''rm -rf''" by code_simp
  have "disguise ''rm -rf /'' ''Rm -rf /''" by (rule disguise.recase) code_simp
  moreover have "disguise (''R'' @ ''m -rf /'') (''R'' @ CHR 0x27 # ''m -rf /'')"
    by (rule disguise.quote) (simp add: stripped_char_def)
  ultimately show "disguise\<^sup>*\<^sup>* ''rm -rf /'' (''R'' @ CHR 0x27 # ''m -rf /'')" by simp
qed

text \<open>Expiry is exact: a tick of the expiry loop turns the pending requests whose time
  has passed into expired ones and leaves every other row as it is; it reports their number.\<close>

theorem expiry_exact:
  assumes "\<not> poisoned g"
  shows "expire_stale now g = (g\<lparr>gate_rows := List.map (\<lambda>r. if ar_status r = ''pending'' \<and> ar_expires_at r < now
       then r\<lparr>ar_status := ''expired''\<rparr> else r) (gate_rows g)\<rparr>,
     Inr (length (filter (\<lambda>r. ar_status r = ''pending'' \<and> ar_expires_at r < now) (gate_rows g)))) \<and>
   list_pending (fst (expire_stale now g)) = Inr (List.map read_row (rev (sort_key ar_created_at
     (filter (\<lambda>r. ar_status r = ''pending'' \<and> now \<le> ar_expires_at r) (gate_rows g)))))"
proof -
  have "filter (\<lambda>r. ar_status r = ''pending'') (List.map (\<lambda>r. if ar_status r = ''pending'' \<and> ar_expires_at r < now
       then r\<lparr>ar_status := ''expired''\<rparr> else r) rs) =
    filter (\<lambda>r. ar_status r = ''pending'' \<and> now \<le> ar_expires_at r) rs" for rs :: "approval_row list"
    by (induction rs) (auto simp: not_less)
  then show ?thesis using assms by (simp add: expire_stale_def sql_update_def list_pending_def)
qed

theorem expiry_exact_witness:
  "expire_stale ''t'' (new_gate []) = ((new_gate [])\<lparr>gate_rows := List.map (\<lambda>r. if ar_status r = ''pending'' \<and> ar_expires_at r < ''t''
       then r\<lparr>ar_status := ''expired''\<rparr> else r) (gate_rows (new_gate []))\<rparr>,
     Inr (length (filter (\<lambda>r. ar_status r = ''pending'' \<and> ar_expires_at r < ''t'') (gate_rows (new_gate []))))) \<and>
   list_pending (fst (expire_stale ''t'' (new_gate []))) = Inr (List.map read_row (rev (sort_key ar_created_at
     (filter (\<lambda>r. ar_status r = ''pending'' \<and> ''t'' \<le> ar_expires_at r) (gate_rows (new_gate []))))))"
  by (rule expiry_exact) (simp add: new_gate_def)

section \<open>agentd: the sandbox\<close>



text \<open>A sandboxed command shares the host network exactly when it runs in Ring 1 and
  its configuration asks for the network; the command line starts by unsharing every namespace and
  ends with the command alone, and the memory limit and the capability list have no effect on it.\<close>

theorem sandbox_network:
  "(shares_net (build_bwrap_args canon ex eng config command) \<longleftrightarrow>
      sc_ring config = Ring1 \<and> sc_network config) \<and>
   hd (build_bwrap_args canon ex eng config command) = ''--unshare-all'' \<and>
   (\<exists>opts. build_bwrap_args canon ex eng config command = opts @ [''--'', ''/bin/sh'', ''-c'', command]) \<and>
   build_bwrap_args canon ex eng (config\<lparr>sc_memory_limit_mb := m, sc_capabilities := caps\<rparr>) command =
     build_bwrap_args canon ex eng config command"
  using build_shares_net [of canon ex eng config command]
  by (cases "sc_ring config"; cases "sc_network config")
    (simp_all add: build_bwrap_args_def common_args_def ring_args_def)



section \<open>osmoda-keyd: spending policy\<close>

text \<open>Printing a fixed-point amount and parsing it back gives the same amount, for
  every 128-bit amount.\<close>

theorem amount_print_parse:
  assumes "a < 2 ^ 128"
  shows "amount_from_str (amount_display a) = Some a"
  using assms by (rule amount_roundtrip)

theorem amount_print_parse_witness:
  "amount_from_str (amount_display 1500000000000000001) = Some 1500000000000000001"
  by (rule amount_print_parse) simp



text \<open>Daily send limit: the number of answered sends and built transactions of a chain in
  one day stays within the limit of every rule that meters the chain.\<close>

theorem daily_send_limit:
  assumes "sends_metered chain n (kd_policy st)" and "sends_used (kw_today w) chain (kd_policy st) \<le> n"
  shows "sends_used (kw_today w) chain (kd_policy st) +
    total (keyd_step w) (answered_sends w chain) st cs \<le> n"
  using keyd_sends.spent_limit [of chain n st w cs] assms by blast

theorem daily_send_limit_witness:
  "sends_used (kw_today sample_keyd_world) ''ethereum'' (kd_policy sample_keyd) +
    total (keyd_step sample_keyd_world) (answered_sends sample_keyd_world ''ethereum'') sample_keyd
      [SendCall sample_keyd_env ''w1'' ''0xabc'' ''0.1''] \<le> 10"
  by (rule daily_send_limit) (simp_all add: meter_eval)

text \<open>Daily signature limit: the number of messages signed in one day stays within the
  limit of every sign rule.\<close>

theorem daily_sign_limit:
  assumes "signs_metered n (kd_policy st)" and "signs_used (kw_today w) (kd_policy st) \<le> n"
  shows "signs_used (kw_today w) (kd_policy st) + total (keyd_step w) (answered_signs w) st cs \<le> n"
  using keyd_signs.spent_limit [of n st w cs] assms by blast

theorem daily_sign_limit_witness:
  "signs_used (kw_today sample_keyd_world) (kd_policy sample_keyd) +
    total (keyd_step sample_keyd_world) (answered_signs sample_keyd_world) sample_keyd
      [SignCall sample_keyd_env ''w1'' ''00''] \<le> 100"
  by (rule daily_sign_limit) (simp_all add: meter_eval)

text \<open>The use of a day survives a restart: after an allowed send whose counters were
  written, an engine started on the same day has the same counters, and on a later day it starts
  from zero.\<close>

theorem counters_survive_restart:
  assumes "check_send today True e chain amount dst = (e', Allowed)"
  shows "pe_counters (new_engine today file (pe_disk e')) = pe_counters e' \<and>
    (later \<noteq> today \<longrightarrow> pe_counters (new_engine later file (pe_disk e')) = new_counters later)"
proof -
  have "pe_disk e' = Some (pe_counters e') \<and> cn_date (pe_counters e') = today"
    using assms by (auto simp: check_send_def Let_def persist_counters_def record_send_def
        reset_if_new_day_def split: option.splits)
  then show ?thesis using restart_keeps_counters [OF assms] counters_of_another_day by simp
qed

theorem counters_survive_restart_witness:
  "pe_counters (new_engine ''2026-01-01'' None (pe_disk (fst sample_check))) = pe_counters (fst sample_check) \<and>
   pe_counters (new_engine ''2026-01-02'' None (pe_disk (fst sample_check))) = new_counters ''2026-01-02''"
proof -
  have "check_send ''2026-01-01'' True (kd_policy sample_keyd) ''ethereum'' ''0.5'' ''0xabc'' =
      (fst sample_check, Allowed)"
    using sample_allowed unfolding sample_check_def by (metis prod.collapse)
  from counters_survive_restart [OF this, of None "''2026-01-02''"] show ?thesis by simp
qed

section \<open>osmoda-keyd: keys and signatures\<close>

text \<open>C11 (safety). No signature without the policy: when the send endpoint answers with a signature,
  the wallet exists, the policy allowed exactly this amount to this destination and its counters
  moved on, the signature is the wallet's over the canonical intent, and a receipt was written.\<close>

theorem send_needs_policy:
  assumes "wallet_send_handler cy enc env st i to amount = (st', WOk sig)"
  shows "\<exists>w s. find_by wi_id i (kb_wallets (kd_signer st)) = Some w \<and>
    check_send (ke_today env) (ke_io_ok env) (kd_policy st) (chain_text (wi_chain w)) amount to =
      (kd_policy st', Allowed) \<and>
    sign_message cy (ke_instant env) (kd_signer st) i
      (bytes_of (''send:'' @ chain_text (wi_chain w) @ '':'' @ to @ '':'' @ amount)) = (kd_signer st', Inr s) \<and>
    sig = enc s \<and>
    kd_receipts st' = kd_receipts st @ [\<lparr>wr_wallet = i, wr_action = ''send'', wr_chain = chain_text (wi_chain w),
      wr_to = Some to, wr_amount = Some amount, wr_decision = Allowed\<rparr>]"
proof -
  obtain w where w: "find_by wi_id i (kb_wallets (kd_signer st)) = Some w"
    using assms by (auto simp: wallet_send_handler_def split: option.splits)
  obtain p d where p: "check_send (ke_today env) (ke_io_ok env) (kd_policy st)
      (chain_text (wi_chain w)) amount to = (p, d)" by (meson surj_pair)
  obtain b r where b: "sign_message cy (ke_instant env) (kd_signer st) i
      (bytes_of (''send:'' @ chain_text (wi_chain w) @ '':'' @ to @ '':'' @ amount)) = (b, r)"
    by (meson surj_pair)
  have "d = Allowed" using assms w p
    by (cases d) (simp_all add: wallet_send_handler_def Let_def)
  then show ?thesis using assms w p b
    by (cases r) (auto simp: wallet_send_handler_def Let_def Wallet.log_receipt_def)
qed

theorem send_needs_policy_witness:
  "\<exists>w s. find_by wi_id ''w1'' (kb_wallets (kd_signer sample_keyd)) = Some w \<and>
    check_send (ke_today sample_keyd_env) (ke_io_ok sample_keyd_env) (kd_policy sample_keyd)
        (chain_text (wi_chain w)) ''0.5'' ''0xabc'' = (kd_policy (fst sample_send), Allowed) \<and>
    sign_message sample_crypto (ke_instant sample_keyd_env) (kd_signer sample_keyd) ''w1''
      (bytes_of (''send:'' @ chain_text (wi_chain w) @ '':'' @ ''0xabc'' @ '':'' @ ''0.5'')) =
        (kd_signer (fst sample_send), Inr s) \<and>
    ''sig'' = (\<lambda>_. ''sig'') s \<and>
    kd_receipts (fst sample_send) = kd_receipts sample_keyd @ [\<lparr>wr_wallet = ''w1'', wr_action = ''send'',
      wr_chain = chain_text (wi_chain w), wr_to = Some ''0xabc'', wr_amount = Some ''0.5'', wr_decision = Allowed\<rparr>]"
proof (rule send_needs_policy)
  show "wallet_send_handler sample_crypto (\<lambda>_. ''sig'') sample_keyd_env sample_keyd ''w1'' ''0xabc'' ''0.5'' =
      (fst sample_send, WOk ''sig'')"
    using sample_send_answer by (simp add: sample_send_def prod_eq_iff)
qed

text \<open>C12 (roundtrip). A wallet signs with the key it was created with: after any run of creations,
  signatures, loads, deletions of other wallets and restarts of the daemon, it is up and its signature is the chain's
  signature with that key. The cipher need only undo itself on this one key and nonce.\<close>

theorem wallet_keeps_key:
  assumes "life_ok derive cy (d, Some b)" and "uuid \<notin> wi_id ` set (kb_wallets b)" and "length label \<le> 128"
    and "length nonce = 12"
    and "cy_decrypt cy (kb_master_key b) nonce (cy_encrypt cy (kb_master_key b) nonce (snd (gen ch))) =
      Some (snd (gen ch))"
    and "s = key_life derive cy (d, Some b) (KeyOp (Create uuid now nonce gen ch label))"
    and "enabled_run life_enabled (key_life derive cy) s es" and "KeyOp (Delete uuid) \<notin> set es"
  shows "\<exists>d' b'. foldl (key_life derive cy) s es = (d', Some b') \<and>
    snd (sign_message cy t b' uuid m) = signature cy ch (snd (gen ch)) m"
proof -
  let ?b = "fst (create_wallet cy uuid now nonce gen b ch label)"
  have s: "s = (persist d b ?b, Some ?b)" by (simp add: assms(6))
  have ok: "life_ok derive cy (persist d b ?b, Some ?b)"
    using life_step_ok [OF assms(1), of "KeyOp (Create uuid now nonce gen ch label)"] assms(2) by simp
  note w = created_found [OF assms(3,2), of cy now nonce gen ch]
  from life_run_frame [OF ok assms(7) [unfolded s] assms(8) w] obtain d' b'
    where run: "foldl (key_life derive cy) s es = (d', Some b')" "life_ok derive cy (d', Some b')"
      and b': "kb_files b' uuid = kb_files ?b uuid" "kb_master_key b' = kb_master_key ?b"
      and w': "find_by wi_id uuid (kb_wallets b') = Some \<lparr>wi_id = uuid, wi_label = label, wi_chain = ch,
        wi_address = fst (gen ch), wi_created_at = now\<rparr>"
    unfolding s by blast
  have "holds cy b' uuid (snd (gen ch))"
    using created_holds [where gen = gen and ch = ch, OF assms(3-5), of uuid now] holds_cong [OF b'] by simp
  moreover have "backend_ok cy b'" using run(2) by (simp add: life_ok_def)
  ultimately show ?thesis using sign_with_key w' run(1) by fastforce
qed

theorem wallet_keeps_key_witness:
  "\<exists>d' b'. foldl (key_life sample_derive sample_crypto)
      (key_life sample_derive sample_crypto (sample_disk, Some sample_backend)
        (KeyOp (Create ''w1'' ''t'' (replicate 12 0) (\<lambda>_. (''0xaddr'', replicate 32 1)) Ethereum ''main'')))
      [KeyOp (Sign 5 ''w1'' [1]), KeydRestart [] [], KeyOp (Load 400000000000 ''w1'')] = (d', Some b') \<and>
    snd (sign_message sample_crypto 0 b' ''w1'' [9]) = signature sample_crypto Ethereum (replicate 32 1) [9]"
proof -
  let ?gen = "\<lambda>_. (''0xaddr'', replicate 32 1) :: string \<times> bytes"
  have "\<exists>d' b'. foldl (key_life sample_derive sample_crypto)
      (key_life sample_derive sample_crypto (sample_disk, Some sample_backend)
        (KeyOp (Create ''w1'' ''t'' (replicate 12 0) ?gen Ethereum ''main'')))
      [KeyOp (Sign 5 ''w1'' [1]), KeydRestart [] [], KeyOp (Load 400000000000 ''w1'')] = (d', Some b') \<and>
    snd (sign_message sample_crypto 0 b' ''w1'' [9]) = signature sample_crypto Ethereum (snd (?gen Ethereum)) [9]"
    by (rule wallet_keeps_key [OF _ _ _ _ _ refl])
      (simp_all add: sample_backend_def backend_ok_def sample_crypto_def life_ok_def on_disk_def load_index_def
        sample_disk_def sample_derive_def)
  then show ?thesis by simp
qed

text \<open>C13 (safety). Deletion is complete and lasting: the key file, the cached key and both copies of
  the index entry are gone, and whatever calls follow, no signature is made with the wallet.\<close>

theorem deleted_wallet_gone:
  assumes "backend_ok cy b" and "i \<in> wi_id ` set (kb_wallets b)" and "\<forall>x \<in> set ops. \<not> creates i x"
    and "b' = foldl (key_step cy) (fst (delete_wallet b i)) ops"
  shows "kb_files b' i = None \<and> kb_cache b' i = None \<and> i \<notin> wi_id ` set (kb_saved b') \<and>
    sign_message cy t b' i m = (b', Inl WalletNotFound)"
  using gone_run [OF deleted_gone [OF assms(1,2)] assms(3), of cy] gone_sign [of b' i cy t m] assms(4)
  by (simp add: gone_def)

theorem deleted_wallet_gone_witness:
  "sign_message sample_crypto 0 (fst (delete_wallet sample_wallet_backend ''w1'')) ''w1'' [] =
     (fst (delete_wallet sample_wallet_backend ''w1''), Inl WalletNotFound)"
proof -
  have "backend_ok sample_crypto sample_backend" by (simp add: sample_backend_def backend_ok_def)
  then have "backend_ok sample_crypto sample_wallet_backend"
    unfolding sample_wallet_backend_def by (rule create_ok) (simp add: sample_backend_def)
  moreover have "''w1'' \<in> wi_id ` set (kb_wallets sample_wallet_backend)"
    by (simp add: sample_wallet_backend_def create_wallet_def sample_backend_def Let_def save_index_def)
  ultimately show ?thesis
    using deleted_wallet_gone [of sample_crypto sample_wallet_backend "''w1''" "[]"] by simp
qed



text \<open>The key cache is coherent and short-lived: in every run from a well-formed backend a
  cached key is what the wallet's file decrypts to, and after a load no cached key has gone unused
  for more than five minutes.\<close>

theorem key_cache:
  assumes "backend_ok cy b" and "enabled_run fresh_op (key_step cy) b ops"
    and "b' = foldl (key_step cy) b ops"
    and "kb_cache (fst (load_key_bytes cy now b' j)) i = Some (k, t)"
  shows "holds cy b' i k \<and> now - t \<le> 300 * 1000000000"
proof -
  have ok: "backend_ok cy b'"
    unfolding assms(3)
    by (rule run_invariant [where I = "backend_ok cy" and enabled = fresh_op])
      (use key_step_ok assms(1,2) in auto)
  from load_cache [OF assms(4)] show ?thesis
    using cached_holds [OF ok] load_Inr [OF ok] by (auto simp: key_cache_ttl_def)
qed

theorem key_cache_witness: "holds sample_crypto sample_wallet_backend ''w1'' (replicate 32 1)"
proof -
  have "backend_ok sample_crypto sample_backend" by (simp add: sample_backend_def backend_ok_def)
  then have "backend_ok sample_crypto sample_wallet_backend"
    unfolding sample_wallet_backend_def by (rule create_ok) (simp add: sample_backend_def)
  moreover have "kb_cache (fst (load_key_bytes sample_crypto 10 sample_wallet_backend ''w1'')) ''w1'' =
      Some (replicate 32 1, 10)"
    by (simp add: sample_wallet_backend_def create_wallet_def sample_backend_def Let_def save_index_def
        load_key_bytes_def evict_stale_keys_def decrypt_key_def encrypt_key_def sample_crypto_def)
  ultimately show ?thesis
    using key_cache [of sample_crypto sample_wallet_backend "[]" _ 10 "''w1''" "''w1''"] by simp
qed

section \<open>osmoda-keyd: transactions\<close>

text \<open>C15 (roundtrip). A signed EIP-1559 transaction says what was asked for: the bytes decode, with an
  independent RLP reader, to chain id, nonce, fees, gas, recipient, value, calldata, the empty access
  list and the signature, and the signature was made over the Keccak hash of the unsigned encoding.\<close>

theorem eth_transaction_decodes:
  assumes "build_and_sign_eip1559 key_from keccak hex_decode hex_encode key p = Inr r"
    and "\<And>s bs. hex_decode s = Some bs \<Longrightarrow> 2 * length bs = length s"
    and "\<And>d. etx_data p = Some d \<Longrightarrow> length d < 2 ^ 32"
    and "\<And>k h sg m s v. key_from k = Some (m, sg) \<Longrightarrow> sg h = Some (s, v) \<Longrightarrow> length s = 64"
  shows "\<exists>pk sg to value data sig v tx.
    key_from key = Some (pk, sg) \<and> parse_address hex_decode (etx_to p) = Some to \<and>
    parse_uint 128 (etx_value p) = Some value \<and>
    (case etx_data p of None \<Rightarrow> Some [] | Some d \<Rightarrow> hex_decode d) = Some data \<and>
    sg (keccak (2 # rlp_encode_eip1559_unsigned (etx_chain_id p) (etx_nonce p) (etx_max_priority_fee p)
      (etx_max_fee p) (etx_gas_limit p) to (word_of_nat value) data)) = Some (sig, v) \<and>
    etr_signed_tx r = ''0x'' @ hex_encode (2 # tx) \<and>
    decode_body tx = Some (eip1559_items (etx_chain_id p) (etx_nonce p) (etx_max_priority_fee p)
      (etx_max_fee p) (etx_gas_limit p) to (word_of_nat value) data @
      [(False, uint_bytes 8 (unat (ucast v :: 64 word))), (False, strip_leading_zeros (take 32 sig)),
       (False, strip_leading_zeros (drop 32 sig))])"
proof -
  obtain pk sg where k: "key_from key = Some (pk, sg)"
    using assms(1) by (auto simp: build_and_sign_eip1559_def split: option.splits)
  obtain to where to: "parse_address hex_decode (etx_to p) = Some to"
    using assms(1) k by (auto simp: build_and_sign_eip1559_def Let_def split: option.splits)
  obtain amt where amt: "parse_uint 128 (etx_value p) = Some amt"
    using assms(1) k to by (auto simp: build_and_sign_eip1559_def Let_def split: option.splits)
  obtain data where data: "(case etx_data p of None \<Rightarrow> Some [] | Some d \<Rightarrow> hex_decode d) = Some data"
    using assms(1) k to amt by (auto simp: build_and_sign_eip1559_def Let_def split: option.splits)
  let ?h = "keccak (2 # rlp_encode_eip1559_unsigned (etx_chain_id p) (etx_nonce p) (etx_max_priority_fee p)
      (etx_max_fee p) (etx_gas_limit p) to (word_of_nat amt) data)"
  obtain sig v where sig: "sg ?h = Some (sig, v)"
    using assms(1) k to amt data
    by (auto simp: build_and_sign_eip1559_def Let_def split: option.splits)
  let ?tx = "rlp_encode_eip1559_signed (etx_chain_id p) (etx_nonce p) (etx_max_priority_fee p)
      (etx_max_fee p) (etx_gas_limit p) to (word_of_nat amt) data v (take 32 sig) (drop 32 sig)"
  have tx: "etr_signed_tx r = ''0x'' @ hex_encode (2 # ?tx)"
    using assms(1) k to amt data sig
    by (auto simp: build_and_sign_eip1559_def Let_def split: option.splits)
  have "length to = 20"
    using to assms(2) [of "strip_0x (etx_to p)" to] by (auto simp: parse_address_def Let_def split: if_splits)
  moreover have "length data < 2 ^ 32"
    using data assms(2,3) by (fastforce split: option.splits)
  moreover have "length sig = 64" using assms(4) k sig by blast
  ultimately have "decode_body ?tx = Some (eip1559_items (etx_chain_id p) (etx_nonce p)
      (etx_max_priority_fee p) (etx_max_fee p) (etx_gas_limit p) to (word_of_nat amt) data @
      [(False, uint_bytes 8 (unat (ucast v :: 64 word))), (False, strip_leading_zeros (take 32 sig)),
       (False, strip_leading_zeros (drop 32 sig))])"
    by (intro signed_decodes) simp_all
  then show ?thesis using k to amt data sig tx by blast
qed

theorem eth_transaction_decodes_witness:
  "\<exists>pk sg to value data sig v tx.
    sample_eth_key [] = Some (pk, sg) \<and> parse_address sample_hex (etx_to sample_tx) = Some to \<and>
    parse_uint 128 (etx_value sample_tx) = Some value \<and>
    (case etx_data sample_tx of None \<Rightarrow> Some [] | Some d \<Rightarrow> sample_hex d) = Some data \<and>
    sg (id (2 # rlp_encode_eip1559_unsigned (etx_chain_id sample_tx) (etx_nonce sample_tx)
      (etx_max_priority_fee sample_tx) (etx_max_fee sample_tx) (etx_gas_limit sample_tx) to
      (word_of_nat value) data)) = Some (sig, v) \<and>
    etr_signed_tx sample_signed = ''0x'' @ (\<lambda>_. ''00'') (2 # tx) \<and>
    decode_body tx = Some (eip1559_items (etx_chain_id sample_tx) (etx_nonce sample_tx)
      (etx_max_priority_fee sample_tx) (etx_max_fee sample_tx) (etx_gas_limit sample_tx) to
      (word_of_nat value) data @
      [(False, uint_bytes 8 (unat (ucast v :: 64 word))), (False, strip_leading_zeros (take 32 sig)),
       (False, strip_leading_zeros (drop 32 sig))])"
proof (rule eth_transaction_decodes [where hex_encode = "\<lambda>_. ''00''"])
  have "parse_uint 128 (etx_value sample_tx) = Some 5"
    by (simp add: sample_tx_def parse_uint_def digits_val_def digit_val_def ascii_digit_def)
  moreover have "parse_address sample_hex (etx_to sample_tx) = Some (replicate 20 0)"
    by (simp add: sample_tx_def sample_hex_def parse_address_def strip_0x_def)
  ultimately show "build_and_sign_eip1559 sample_eth_key id sample_hex (\<lambda>_. ''00'') [] sample_tx = Inr sample_signed"
    by (simp add: sample_signed_def build_and_sign_eip1559_def Let_def sample_eth_key_def)
      (simp add: sample_tx_def)
qed (auto simp: sample_tx_def sample_hex_def sample_eth_key_def split: if_splits)

text \<open>Different transactions have different signing payloads: the unsigned encoding
  determines every field, so a signature cannot be moved to another transaction without a hash
  collision.\<close>

theorem eth_payload_injective:
  assumes "length to = 20 \<and> length to' = 20" and "length data < 2 ^ 32 \<and> length data' < 2 ^ 32"
    and "rlp_encode_eip1559_unsigned c n mp mf g to v data = rlp_encode_eip1559_unsigned c' n' mp' mf' g' to' v' data'"
  shows "c = c' \<and> n = n' \<and> mp = mp' \<and> mf = mf' \<and> g = g' \<and> to = to' \<and> v = v' \<and> data = data'"
  using assms by (intro unsigned_inj) simp_all

theorem eth_payload_injective_witness:
  "(1 :: 64 word) = 1 \<and> (0 :: 64 word) = 0 \<and> (1 :: 64 word) = 1 \<and> (30 :: 64 word) = 30 \<and>
   (21000 :: 64 word) = 21000 \<and> replicate 20 (0 :: 8 word) = replicate 20 0 \<and> (5 :: 128 word) = 5 \<and>
   ([] :: bytes) = []"
  by (rule eth_payload_injective) simp_all

text \<open>A built Solana transaction is one signature followed by a message that reads back as
  one System Program transfer from the key to the recipient, of the lamports asked for, under the
  given blockhash, and the signature is over that message.\<close>

theorem sol_transfer_readable:
  assumes "build_and_sign_transfer key_from b58_decode b58_encode key to lamports recent = Inr r"
    and "length (fst (key_from (take 32 key))) = 32"
  shows "\<exists>to_key hash msg. b58_decode to = Some to_key \<and> b58_decode recent = Some hash \<and>
    str_signed_tx r = b58_encode ([1] @ snd (key_from (take 32 key)) msg @ msg) \<and>
    read_transfer msg = Some (fst (key_from (take 32 key)), to_key, unat lamports, hash)"
proof -
  obtain to_key where t: "b58_decode to = Some to_key" "length to_key = 32"
    using assms(1) by (auto simp: build_and_sign_transfer_def split: if_splits prod.splits option.splits)
  obtain hash where h: "b58_decode recent = Some hash" "length hash = 32"
    using assms(1) t by (auto simp: build_and_sign_transfer_def split: if_splits prod.splits option.splits)
  let ?msg = "build_transfer_message (fst (key_from (take 32 key))) to_key lamports hash"
  have "str_signed_tx r = b58_encode ([1] @ snd (key_from (take 32 key)) ?msg @ ?msg)"
    using assms(1) t h by (auto simp: build_and_sign_transfer_def Let_def split: if_splits prod.splits)
  moreover have "read_transfer ?msg = Some (fst (key_from (take 32 key)), to_key, unat lamports, hash)"
    using assms(2) t(2) h(2) by (intro transfer_readable)
  ultimately show ?thesis using t(1) h(1) by blast
qed

theorem sol_transfer_readable_witness:
  "\<exists>to_key hash msg. sample_b58 ''bob'' = Some to_key \<and> sample_b58 ''recent'' = Some hash \<and>
    str_signed_tx sample_transfer = sample_text ([1] @ snd (sample_sol_key (take 32 (replicate 32 1))) msg @ msg) \<and>
    read_transfer msg = Some (fst (sample_sol_key (take 32 (replicate 32 1))), to_key, unat (1000 :: 64 word), hash)"
  by (rule sol_transfer_readable)
    (simp_all add: sample_transfer_def build_and_sign_transfer_def Let_def sample_b58_def sample_sol_key_def)

section \<open>osmoda-watch\<close>

text \<open>C16 (safety). The watch daemon only ever starts harmless processes: over any sequence of calls and
  loop ticks, every process it adds to the trace is a fixed Nix roll-back step, a TCP connect, an
  HTTP(S) request, a query or restart of a well-formed unit name, or an absolute path outside the
  shells and interpreters, without \<open>..\<close> and without shell metacharacters in its arguments.\<close>

theorem watch_processes:
  "\<exists>ps. ws_trace (foldl (watch_step pt h) st cs) = ws_trace st @ ps \<and> list_all harmless ps"
proof -
  have "harmless p" if "process_ok p" for p using that by (rule process_ok_harmless)
  then show ?thesis
    using watch_run_extends [of st pt h cs] unfolding extends_def
    by (metis (no_types, lifting) list.pred_mono_strong)
qed

text \<open>C17 (invariant). A SafeSwitch is decided once: in any run of the daemon from its start, a session
  seen committed or rolled back is the same record at every later time, and commit and roll-back
  requests for it are refused with a conflict.\<close>

theorem session_decided_once:
  assumes "ws_switches st0 = (\<lambda>_. None)" and "enabled_run watch_enabled (watch_step pt h) st0 (cs @ ds)"
    and "ws_switches (foldl (watch_step pt h) st0 cs) i = Some s" and "\<not> is_active s"
    and "st = foldl (watch_step pt h) st0 (cs @ ds)"
  shows "ws_switches st i = Some s \<and> switch_commit_handler env st i = (st, Refused 409) \<and>
    switch_rollback_handler h env st i = (st, Refused 409)"
proof -
  have "ws_switches st i = Some s"
    unfolding assms(5)
    by (rule session_store.decided_once [OF _ assms(2-4)]) (simp add: keys_ok_def assms(1))
  then show ?thesis using assms(4) by (simp add: switch_commit_handler_def switch_rollback_handler_def)
qed

theorem session_decided_once_witness:
  "ws_switches (foldl (watch_step sample_clock sample_host) sample_watch
      [sample_begin, sample_commit]) ''s1'' \<noteq> None \<and>
   switch_commit_handler (sample_watch_env ''s2'') (foldl (watch_step sample_clock sample_host) sample_watch
      ([sample_begin] @ [sample_commit, sample_tick])) ''s1'' =
     (foldl (watch_step sample_clock sample_host) sample_watch
      ([sample_begin, sample_commit] @ [sample_tick]), Refused 409)"
proof -
  have s: "ws_switches (foldl (watch_step sample_clock sample_host) sample_watch
      [sample_begin, sample_commit]) ''s1'' = Some (sample_session\<lparr>sw_status := Committed ''t''\<rparr>)"
    by (simp add: sample_watch_eval)
  have r: "enabled_run watch_enabled (watch_step sample_clock sample_host) sample_watch
      ([sample_begin, sample_commit] @ [sample_tick])"
    by (simp add: sample_watch_eval dom_def)
  show ?thesis
    using session_decided_once [OF _ r s _ refl] s
    by (simp add: sample_watch_def is_active_def)
qed

text \<open>C18 (liveness). Every probation ends: in any run, one tick of the probation loop decides each
  session in probation by its checks and its age. A failing check rolls it back; with all checks
  passing it is committed once its time is over and stays in probation before; so no expired
  session survives a tick undecided.\<close>

theorem probation_ends:
  assumes "ws_switches st0 = (\<lambda>_. None)"
    and "enabled_run watch_enabled (watch_step pt h) st0 (cs @ [ProbationTick clock stamp keys])"
    and "st = foldl (watch_step pt h) st0 cs" and "ws_switches st i = Some s" and "is_active s"
  shows "\<exists>tr failures s'. extends (ws_trace st) tr \<and> failures = snd (run_health_checks h tr (sw_checks s)) \<and>
    ws_switches (watch_step pt h st (ProbationTick clock stamp keys)) i = Some s' \<and>
    (is_active s' = (failures = [] \<and> \<not> is_expired pt (clock i) s)) \<and>
    (sw_status s' = Committed (stamp i)) = (failures = [] \<and> is_expired pt (clock i) s) \<and>
    (\<exists>reason. sw_status s' = RolledBack reason (stamp i)) = (failures \<noteq> [])"
proof -
  have "keys_ok st" unfolding assms(3)
    using assms(1,2) by (intro session_store.inv_run) (simp_all add: keys_ok_def enabled_run_append)
  moreover have "distinct keys" "set keys = dom (ws_switches st)"
    using assms(2,3) by (simp_all add: enabled_run_append)
  ultimately obtain tr where "extends (ws_trace st) tr"
    and "ws_switches (probation_tick pt h clock stamp keys st) i =
       Some (s\<lparr>sw_status := probation_verdict (is_expired pt (clock i) s)
         (snd (run_health_checks h tr (sw_checks s))) (stamp i)\<rparr>)"
    using probation_tick_active assms(4,5) by blast
  then show ?thesis
    by (intro exI [of _ tr]) (simp add: probation_verdict_def is_active_def)
qed

theorem probation_ends_witness:
  "\<exists>tr failures s'. extends (ws_trace (watch_step sample_clock sample_host sample_watch sample_begin)) tr \<and>
    failures = snd (run_health_checks sample_host tr (sw_checks sample_session)) \<and>
    ws_switches (watch_step sample_clock sample_host
      (watch_step sample_clock sample_host sample_watch sample_begin) sample_tick) ''s1'' = Some s' \<and>
    (is_active s' = (failures = [] \<and> \<not> is_expired sample_clock 0 sample_session)) \<and>
    (sw_status s' = Committed ''t'') = (failures = [] \<and> is_expired sample_clock 0 sample_session) \<and>
    (\<exists>reason. sw_status s' = RolledBack reason ''t'') = (failures \<noteq> [])"
  using probation_ends [of sample_watch sample_clock sample_host "[sample_begin]" "\<lambda>_. 0" "\<lambda>_. ''t''" "[''s1'']"
      "watch_step sample_clock sample_host sample_watch sample_begin" "''s1''" sample_session]
  by (simp add: sample_watch_eval dom_def)

text \<open>C19 (functional). The escalation ladder is climbed one action per failed cycle: while a check keeps
  failing, the cycle after \<open>n\<close> failed ones runs exactly action \<open>n\<close> of the watcher, and the last
  action from the end of the ladder on.\<close>

theorem escalation_ladder:
  assumes "always_failing h (wt_check w)" and "wt_state w = Healthy" and "wt_actions w \<noteq> []"
    and "length nows < 2 ^ 32" and "foldl (\<lambda>p now. cycle h now p) (tr, w) nows = (tr', w')"
  shows "fst (run_watcher_cycle h now tr' w') =
    fst (execute_action h (fst (run_health_checks h tr' [wt_check w]))
      (wt_actions w ! min (length nows) (length (wt_actions w) - 1)))"
proof -
  obtain state where w: "w' = w\<lparr>wt_state := state\<rparr>" and "snd (escalate now state) = length nows"
    using failing_cycles [OF assms(1,2,4), of tr] assms(5) by auto
  then show ?thesis
    using failing_cycle_action [of h w' now "length nows" tr'] assms(1,3) by (simp only: ladder_def) simp
qed

theorem escalation_ladder_witness:
  "fst (run_watcher_cycle sample_host ''t3''
      (fst (foldl (\<lambda>p now. cycle sample_host now p) ([], sample_watcher) [''t1'', ''t2'']))
      (snd (foldl (\<lambda>p now. cycle sample_host now p) ([], sample_watcher) [''t1'', ''t2'']))) =
    fst (execute_action sample_host (fst (run_health_checks sample_host
      (fst (foldl (\<lambda>p now. cycle sample_host now p) ([], sample_watcher) [''t1'', ''t2''])) [TcpPort ''db'' 5432]))
      (Notify ''db down''))"
proof -
  have "always_failing sample_host (wt_check sample_watcher)"
    by (simp add: always_failing_def sample_watcher_def sample_host_def run_process_def)
  then show ?thesis
    using escalation_ladder [of sample_host sample_watcher "[''t1'', ''t2'']" "[]"]
    by (simp add: sample_watcher_def)
qed

text \<open>C20 (safety). A fleet switch is executed only by a real majority: whatever calls the coordinator
  got since its start, a switch in the execution phase has approvals by distinct participants, at
  least one, and at least the configured percentage of the number of participants.\<close>

theorem fleet_quorum:
  assumes "enabled_run fleet_enabled (fleet_call_step quote pt) (Some (\<lambda>_. None)) cs"
    and "foldl (fleet_call_step quote pt) (Some (\<lambda>_. None)) cs = Some co"
    and "co i = Some f" and "fs_phase f = Execute"
  shows "approvers f \<subseteq> set (peers f) \<and> 1 \<le> card (approvers f) \<and>
    participant_count f * fs_quorum_percent f \<le> 100 * card (approvers f)"
proof -
  have "fleet_ok f" using coordinator_entry [OF assms(1-3)] by blast
  then have b: "ballot_ok f" and q: "quorum_required f \<le> approve_count f"
    using assms(4) by (simp_all add: fleet_ok_def has_quorum_def)
  moreover have "1 \<le> quorum_required f" by (simp add: quorum_required_def)
  moreover have "approvers f \<subseteq> set (peers f)"
    using b by (auto simp: approvers_def ballot_ok_def voters_def)
  ultimately show ?thesis
    using approvers_card [OF b] quorum_percent_le [of f] by (metis le_trans mult_le_mono2)
qed

theorem fleet_quorum_witness:
  "approvers sample_fleet \<subseteq> set (peers sample_fleet) \<and> 1 \<le> card (approvers sample_fleet) \<and>
    participant_count sample_fleet * fs_quorum_percent sample_fleet \<le> 100 * card (approvers sample_fleet)"
  using fleet_quorum [of id sample_clock sample_fleet_calls "sample_coordinator sample_fleet_calls" "''f1''" sample_fleet]
  by (simp add: sample_fleet_eval)



text \<open>A vote in time by a participant who has not voted is counted, and only it: the
  switch goes to execution exactly when the approvals reach the quorum, is aborted as vetoed exactly
  when the open votes cannot reach it any more, and otherwise stays open.\<close>

theorem fleet_vote_outcome:
  assumes "enabled_run fleet_enabled (fleet_call_step quote pt) (Some (\<lambda>_. None)) cs"
    and "foldl (fleet_call_step quote pt) (Some (\<lambda>_. None)) cs = Some co"
    and "co i = Some f" and "fs_phase f = Propose" and "\<not> is_timed_out pt clock f"
    and "peer \<in> set (peers f) - set (voters f)"
    and "cast_vote pt clock now f peer yes reason = (g, code)"
  shows "code = None \<and> voters g = voters f @ [peer] \<and>
    approve_count g = approve_count f + of_bool yes \<and>
    fs_phase g = (if quorum_required f \<le> approve_count g then Execute
      else if approve_count g + (participant_count f - length (fs_votes g)) < quorum_required f
      then Aborted veto_reason else Propose)"
  by (rule cast_vote_outcome [OF _ assms(4,5) _ _ assms(7)])
    (use coordinator_entry [OF assms(1-3)] assms(6) in auto)

theorem fleet_vote_outcome_witness:
  "fs_phase (fst (cast_vote sample_clock 0 ''t'' sample_open ''p2'' True None)) = Execute"
proof -
  obtain g code where g: "cast_vote sample_clock 0 ''t'' sample_open ''p2'' True None = (g, code)"
    by (meson surj_pair)
  show ?thesis
    using fleet_vote_outcome [OF _ _ _ _ _ _ g, of id "take 2 sample_fleet_calls"
        "sample_coordinator (take 2 sample_fleet_calls)" "''f1''"] g
    by (simp add: sample_fleet_eval)
qed

section \<open>agentd: incidents and backups\<close>

text \<open>C22 (invariant). Incident steps are numbered without gaps: after any run of the daemon from an
  empty step table, shorter than 2 ^ 32 calls, the steps of an incident, as they are listed, carry
  the numbers 1, 2, 3 and so on.\<close>

theorem incident_numbering:
  assumes "steps (app_ledger st) = []" and "length cs < 2 ^ 32"
    and "ss = get_incident_steps (app_ledger (foldl (agent_step w) st cs)) i"
  shows "List.map st_number ss = [1..<Suc (length ss)]"
proof -
  have "steps_numbered (app_ledger (foldl (agent_step w) st cs))"
    using agent_run_numbered [OF assms(1,2)] by blast
  then show ?thesis
    using get_incident_steps_numbered assms(3)
    by (metis incident_numbers_def length_map numbered_def steps_numbered_def)
qed

theorem incident_numbering_witness:
  "List.map st_number (get_incident_steps (app_ledger (foldl (agent_step sample_world) sample_app
      [IncidentCreate (sample_env ''i1'') ''outage'', IncidentStep (sample_env ''x'') ''i1'' ''restart'' ''ok'' None]))
      ''i1'') = [1..<Suc (length (get_incident_steps (app_ledger (foldl (agent_step sample_world) sample_app
      [IncidentCreate (sample_env ''i1'') ''outage'', IncidentStep (sample_env ''x'') ''i1'' ''restart'' ''ok'' None]))
      ''i1''))]"
  by (rule incident_numbering [OF _ _ refl]) (simp_all add: sample_app_def empty_ledger_def)

text \<open>Backup rotation: after a successful backup the directory holds at most seven backups,
  what was removed is older (by its time stamp name) than every backup kept, and no other file is
  touched.\<close>

theorem backup_rotation:
  assumes "distinct (app_backups st)"
    and "st' = fst (backup_create_handler H js env stamp True bytes st dir)"
  shows "distinct (app_backups st') \<and> length (filter is_backup_name (app_backups st')) \<le> 7 \<and>
    filter (\<lambda>n. \<not> is_backup_name n) (app_backups st') = filter (\<lambda>n. \<not> is_backup_name n) (app_backups st) \<and>
    \<not> (\<exists>x y. x \<in> set (app_backups st) - set (app_backups st') \<and> y \<in> set (app_backups st') \<and>
      is_backup_name y \<and> y \<le> x)"
proof -
  let ?name = "(''backup-'' @ stamp) @ ''.tar.gz''"
  define before where "before = (if ?name \<in> set (app_backups st) then app_backups st else app_backups st @ [?name])"
  have st': "app_backups st' = prune_backups before 7"
    by (simp add: assms(2) backup_create_handler_def Let_def max_backups_def before_def)
  have d: "distinct before" using assms(1) by (simp add: before_def)
  have b: "is_backup_name ?name"
    by (simp add: is_backup_name_def ends_with_def)
  have old: "filter (\<lambda>n. \<not> is_backup_name n) before = filter (\<lambda>n. \<not> is_backup_name n) (app_backups st)"
    using b by (simp add: before_def)
  have "\<not> (\<exists>x y. x \<in> set (app_backups st) - set (prune_backups before 7) \<and>
      y \<in> set (prune_backups before 7) \<and> is_backup_name y \<and> y \<le> x)"
    using prune_keeps_newest [OF d, of _ 7] prune_keeps_others [of _ before 7]
    by (fastforce simp: before_def split: if_splits)
  then show ?thesis
    using prune_count [OF d, of 7] prune_others [of before 7] prune_distinct [OF d] old by (simp add: st')
qed

theorem backup_rotation_witness:
  "\<not> (\<exists>x y. x \<in> set (app_backups sample_app) -
        set (app_backups (fst (backup_create_handler id (\<lambda>_. []) (sample_env ''b'') ''20260101'' True 10 sample_app ''/b''))) \<and>
      y \<in> set (app_backups (fst (backup_create_handler id (\<lambda>_. []) (sample_env ''b'') ''20260101'' True 10 sample_app ''/b''))) \<and>
      is_backup_name y \<and> y \<le> x)"
  using backup_rotation [OF _ refl, of sample_app] by (simp add: sample_app_def)

section \<open>osmoda-mesh\<close>





text \<open>C25 (type). The state of the mesh daemon stays well formed in every run, across restarts: no two peers share an id,
  never more than eight peers are strangers who connected by themselves, the messages of every room
  are numbered from zero, and the gossip store holds every message once, under the hash of its
  contents. Invites accepted must name an address.\<close>

theorem mesh_peers:
  assumes "ms_peers st = [] \<and> ms_rooms st = [] \<and> ms_store st = Some new_store \<and> ms_saved st = None"
    and "enabled_run (mesh_life_enabled w) (mesh_life_step w) (Some st) es"
    and "foldl (mesh_life_step w) (Some st) es = Some st'"
  shows "distinct (List.map pe_id (ms_peers st')) \<and>
    length (filter (\<lambda>p. pe_endpoint p = []) (ms_peers st')) \<le> 8 \<and>
    (\<forall>r \<in> set (ms_rooms st'). List.map ro_seq (rr_messages r) = [0..<length (rr_messages r)]) \<and>
    (\<forall>s m. ms_store st' = Some s \<longrightarrow> distinct (List.map sm_hash (st_messages s)) \<and>
      (m \<in> set (st_messages s) \<longrightarrow> sm_hash m = message_hash (mw_sha w) (sm_sender m) (sm_content m) (sm_timestamp m)))"
proof -
  have "mesh_life_ok w (Some st)"
    using assms(1) mesh_fresh_ok [of st w] by (simp add: mesh_life_ok_def saved_ok_def saved_list_def peers_ok_def unknown_count_def)
  from mesh_life_run_ok [OF this assms(2)] have "mesh_ok w st'" by (simp add: assms(3) mesh_life_ok_def)
  then show ?thesis unfolding mesh_ok_def
    by (auto simp: peers_ok_def unknown_count_def max_unknown_inbound_peers_def rooms_ok_def room_ok_def
        MeshNode.history_ok_def store_ok_def list_all_iff)
qed

theorem mesh_peers_witness:
  "\<exists>st'. foldl (mesh_life_step sample_mesh_world) (Some sample_mesh) sample_mesh_life = Some st' \<and>
     distinct (List.map pe_id (ms_peers st')) \<and> ms_used_invites st' = {}"
proof -
  have "enabled_run (mesh_life_enabled sample_mesh_world) (mesh_life_step sample_mesh_world) (Some sample_mesh) sample_mesh_life"
    by (simp add: sample_mesh_life_def decode_invite_def sample_mesh_world_def sample_mesh_env_def sample_invite_def
        split: sum.split)
  moreover obtain st1 where r: "mesh_restart sample_mesh_world sample_boot True
      (mesh_step sample_mesh_world sample_mesh (AcceptInvite (sample_mesh_env 5) ''code'')) = Inr st1"
    by (simp add: mesh_restart_def mesh_boot_def load_or_create_def accept_files no_files Let_def)
  moreover have "foldl (mesh_life_step sample_mesh_world) (Some sample_mesh) sample_mesh_life =
      Some (mesh_step sample_mesh_world st1 (Inbound (sample_mesh_env 6) (mi_public (pa_identity (sample_party 2))) 1))"
    using r by (simp add: sample_mesh_life_def)
  ultimately show ?thesis
    using mesh_peers [of sample_mesh sample_mesh_world sample_mesh_life] restart_state(4) [OF r]
    by (simp add: sample_mesh_def)
qed

text \<open>C26 (bounds). The accept loop limits every address and the handshakes at work: among the
  connections that arrive in any sixty seconds, at most ten of one address get a handshake, whatever
  arrived before and whatever other addresses do, and never more than 32 handshakes run at a time.\<close>

theorem rate_limit:
  assumes "list_all (\<lambda>x. t \<le> fst x \<and> fst x \<le> t + 60 * 1000000000) (arrivals es)"
    and "attempts_of (ac_limits a) ip + length (arrivals es) < 2 ^ 32" and "ac_busy a \<le> 32"
  shows "length (filter (\<lambda>p. p = (ip, True)) (run_accept a es)) \<le> 10 \<and>
    ac_busy (foldl (\<lambda>a e. fst (accept_step a e)) a es) \<le> 32"
  using started_le_admitted [of ip a es] admitted_in_interval [of t "arrivals es" "ac_limits a" ip] busy_bounded [OF assms(3), of es]
    assms(1,2) by (simp add: attempt_window_def)

theorem rate_limit_witness:
  "length (filter (\<lambda>p. p = (''10.0.0.1'', True)) (run_accept start_acceptor
     [Arrives 0 ''10.0.0.1'', Arrives 1 ''10.0.0.1'', TaskEnds, Arrives 2 ''10.0.0.2'', Arrives 3 ''10.0.0.1''])) \<le> 10"
  by (rule conjunct1 [OF rate_limit [of 0]]) (simp_all add: attempts_of_def start_acceptor_def)

text \<open>Room history is the tail of the conversation: after any run, a history request
  answers with the last messages of the room, as many as asked for but at most 500, in the order they
  were added, with consecutive sequence numbers.\<close>

theorem mesh_room_history:
  assumes "ms_peers st = [] \<and> ms_rooms st = [] \<and> ms_store st = Some new_store"
    and "enabled_run (mesh_enabled w) (mesh_step w) st cs" and "st' = foldl (mesh_step w) st cs"
    and "find_by rr_id i (ms_rooms st') = Some r" and "n = min (case limit of None \<Rightarrow> 50 | Some l \<Rightarrow> l) 500"
  shows "room_history_handler st' i limit = Reply 200 (drop (length (rr_messages r) - n) (rr_messages r)) \<and>
    List.map ro_seq (rr_messages r) = [0..<length (rr_messages r)]"
proof -
  have "mesh_ok w st"
    using assms(1) by (rule mesh_fresh_ok)
  then have ok: "rooms_ok st'" using mesh_run_ok assms(2,3) unfolding mesh_ok_def by blast
  moreover obtain ms where "room_history_handler st' i limit = Reply 200 ms"
    using assms(4) by (simp add: room_history_handler_def Let_def)
  moreover have "room_ok r" using ok find_by_Some [OF assms(4)] by (auto simp: rooms_ok_def list_all_iff)
  ultimately show ?thesis using room_history [OF ok _ assms(4,5)] by (simp add: room_ok_def)
qed

theorem mesh_room_history_witness:
  "room_history_handler (foldl (mesh_step sample_mesh_world) sample_mesh
      [CreateRoom (sample_mesh_env 1) ''ops'', SendRoom (sample_mesh_env 2) ''r1'' ''hi'']) ''r1'' (Some 0) = Reply 200 []"
proof -
  let ?st = "foldl (mesh_step sample_mesh_world) sample_mesh
      [CreateRoom (sample_mesh_env 1) ''ops'', SendRoom (sample_mesh_env 2) ''r1'' ''hi'']"
  obtain r where "find_by rr_id ''r1'' (ms_rooms ?st) = Some r"
    by (simp add: room_create_handler_def room_send_handler_def Let_def sample_mesh_env_def sample_mesh_def push_message_def)
  from mesh_room_history [OF _ _ refl this refl, where limit = "Some 0"] show ?thesis
    by (simp add: sample_mesh_def)
qed



text \<open>C28 (safety). A peer speaks only for itself: no message of an authenticated peer, gossip or not, adds
  or removes the membership of any other peer in any room.\<close>

theorem membership_authenticated:
  assumes "q \<noteq> p"
  shows "((r, q) \<in> members_of (dispatch_incoming w env p st m)) = ((r, q) \<in> members_of st)"
  using assms by (rule dispatch_members)

theorem membership_authenticated_witness:
  "((''r1'', ''p1'') \<in> members_of (dispatch_incoming sample_mesh_world (sample_mesh_env 1) ''p2'' sample_mesh
      (Chat gossip_from ''x'' (Some gossip_channel)))) = ((''r1'', ''p1'') \<in> members_of sample_mesh)"
  by (rule membership_authenticated) simp

section \<open>osmoda-teachd\<close>

text \<open>C29 (safety). The learning daemon applies only what was approved, and only tame actions: whatever calls
  and cycles came, an action it started was approved before, while it was suggested with this very
  action, and restarts a service or sets the one kernel parameter the optimizer knows.\<close>

theorem optimization_safety:
  assumes "(i, a) \<in> set (td_ran (foldl (teach_step w) (start_teachd dir) cs))"
  shows "(\<exists>cs1 cs2 p. cs = cs1 @ ApproveOpt i # cs2 \<and>
      get_optimization (td_db (foldl (teach_step w) (start_teachd dir) cs1)) i = Some p \<and>
      op_action p = a \<and> op_status p = Suggested) \<and>
    ((\<exists>name. name \<noteq> [] \<and> a = ServiceRestart name) \<or> a = Sysctl ''vm.overcommit_memory'' ''0'')"
proof
  let ?st = "foldl (teach_step w) (start_teachd dir)"
  have "opt_ready (?st cs) (i, a)" using assms by (simp add: opt_ready_def)
  moreover have "\<not> opt_ready (start_teachd dir) (i, a)"
    by (simp add: opt_ready_def start_teachd_def init_db_def get_optimization_def)
  ultimately obtain cs1 e cs2 where "cs = cs1 @ e # cs2" and "opt_grants (?st cs1) e (i, a)"
    using approved_opts.granted_in_run [OF TrueI] by blast
  then show "\<exists>cs1 cs2 p. cs = cs1 @ ApproveOpt i # cs2 \<and> get_optimization (td_db (?st cs1)) i = Some p \<and>
      op_action p = a \<and> op_status p = Suggested"
    by (elim opt_grantsE) (auto split: option.splits)
  show "(\<exists>name. name \<noteq> [] \<and> a = ServiceRestart name) \<or> a = Sysctl ''vm.overcommit_memory'' ''0''"
    using run_tame [of w dir cs] assms by (cases a) (auto simp: opts_tame_def list_all_iff)
qed

theorem optimization_safety_witness:
  "\<exists>name. name \<noteq> [] \<and> ServiceRestart ''nginx'' = ServiceRestart name"
proof -
  have "(''opt-kd-manual-u'', ServiceRestart ''nginx'') \<in>
      set (td_ran (foldl (teach_step sample_teach_world) (start_teachd ''/s'') sample_opt_calls))" by code_simp
  from optimization_safety [OF this] show ?thesis by simp
qed

text \<open>C30 (functional). An optimization and its SafeSwitch, across the two daemons. If the action works, the
  optimization is applied and names a session that the watch daemon has in probation for 300
  seconds, and since the learning daemon asks for no health checks, no run of the watch daemon
  rolls this session back unless it is asked to decide it. If the action fails, the optimization
  counts as rolled back and the watch daemon takes the whole system to the generation before.\<close>

theorem optimization_switch:
  assumes "ws_switches st0 = (\<lambda>_. None)" and "enabled_run watch_enabled (watch_step pt h) st0 cs0"
    and "wst = foldl (watch_step pt h) st0 cs0" and "n < length (td_applying st)" and "x = td_applying st ! n"
    and "apply_with_watch h env1 env2 works wst st n = (wst', st', answer)"
    and "enabled_run watch_enabled (watch_step pt h) wst' cs" and "list_all (\<lambda>c. \<not> decides (we_uuid env1) c) cs"
  shows "if action_process (op_action x) = None \<or> works
    then answer = Reply 200 (x\<lparr>op_status := Applied, op_switch := Some (we_uuid env1)\<rparr>) \<and>
      (\<exists>s. ws_switches (foldl (watch_step pt h) wst' cs) (we_uuid env1) = Some s \<and> sw_ttl_secs s = 300 \<and>
         (\<forall>why t. sw_status s \<noteq> RolledBack why t))
    else answer = Reply 200 (x\<lparr>op_status := OptRolledBack\<rparr>) \<and>
      (\<exists>ps. ws_trace wst' = ws_trace wst @ NixRollback # ps)"
proof (cases "action_works works x")
  case False
  then have "answer = Reply 200 (x\<lparr>op_status := OptRolledBack\<rparr>)"
    using apply_with_watch_eq(2) [OF assms(4,5) refl, of h env1 env2 works wst] by (simp add: assms(6))
  moreover have "\<exists>ps. ws_trace wst' = ws_trace wst @ NixRollback # ps"
    using failed_action_rolls_system_back [OF assms(4), of works h env1 env2 wst] False assms(5,6) by simp
  ultimately show ?thesis using False by (auto simp: action_works_def)
next
  case True
  have w: "wst' = wst\<lparr>ws_switches := (ws_switches wst)(we_uuid env1 \<mapsto> teach_session h env1 wst x)\<rparr>"
    using apply_with_watch_eq(1) [OF assms(4,5) refl, of h env1 env2 works wst] True by (simp add: assms(6))
  have "keys_ok wst" unfolding assms(3)
    using assms(1,2) by (intro session_store.inv_run) (simp_all add: keys_ok_def)
  then have "keys_ok wst'" unfolding w by (rule keys_ok_session) (simp add: teach_session_def)
  from never_failed_run [OF this assms(7,8) _ teach_session_never_failed [of h env1 wst x]]
  obtain s where "ws_switches (foldl (watch_step pt h) wst' cs) (we_uuid env1) = Some s" "never_failed s" "sw_ttl_secs s = 300"
    by (auto simp: w teach_session_def)
  moreover have "answer = Reply 200 (x\<lparr>op_status := Applied, op_switch := Some (we_uuid env1)\<rparr>)"
    using apply_with_watch_eq(2) [OF assms(4,5) refl, of h env1 env2 works wst] True by (simp add: assms(6))
  ultimately show ?thesis using True by (simp add: action_works_def never_failed_def)
qed

theorem optimization_switch_witness:
  "\<exists>s. ws_switches (watch_step sample_clock sample_host (fst (apply_with_watch sample_host (sample_watch_env ''s1'')
      (sample_watch_env ''x'') True sample_watch sample_applying 0)) sample_tick) ''s1'' = Some s \<and>
    (\<forall>why t. sw_status s \<noteq> RolledBack why t)"
proof -
  have n: "0 < length (td_applying sample_applying)" and p: "td_applying sample_applying ! 0 = sample_opt"
    by (simp_all add: sample_applying_def)
  let ?r = "apply_with_watch sample_host (sample_watch_env ''s1'') (sample_watch_env ''x'') True sample_watch sample_applying 0"
  have "fst ?r = sample_watch\<lparr>ws_switches :=
      [''s1'' \<mapsto> teach_session sample_host (sample_watch_env ''s1'') sample_watch sample_opt]\<rparr>"
    by (subst apply_with_watch_eq(1) [OF n p [symmetric] refl])
      (simp add: action_works_def sample_watch_def sample_watch_env_def)
  then have "enabled_run watch_enabled (watch_step sample_clock sample_host) (fst ?r) [sample_tick]"
    by (simp add: sample_tick_def)
  then show ?thesis
    using optimization_switch [where ?st0.0 = sample_watch and ?cs0.0 = "[]" and pt = sample_clock and h = sample_host
      and wst = sample_watch and st = sample_applying and n = 0 and x = sample_opt and ?env1.0 = "sample_watch_env ''s1''"
      and ?env2.0 = "sample_watch_env ''x''" and works = True and wst' = "fst ?r" and st' = "fst (snd ?r)"
      and answer = "snd (snd ?r)" and cs = "[sample_tick]"] n p
    by (auto simp: sample_watch_def sample_tick_def sample_watch_env_def split: if_splits)
qed

text \<open>C31 (safety). Nothing is promoted on its own: a skill that is active after any run was promoted by the
  operator when it was generated, or by a verification that found at least five executions of it,
  four fifths of them successful.\<close>

theorem skill_promotion:
  assumes "statuses (foldl (teach_step w) (start_teachd dir) es) k = Some Promoted"
  shows "\<exists>es1 e es2. es = es1 @ e # es2 \<and> (let st = foldl (teach_step w) (start_teachd dir) es1 in
    ((\<exists>io now. e = PromoteSkill io now k) \<and> statuses st k = Some Generated) \<or>
    ((\<exists>io now. e = VerifyCycle io now) \<and>
     (\<exists>c. skill_of st k = Some c \<and> sk_status c = Generated \<and> 5 \<le> snd (skill_success_rate (td_db st) (sk_name c)) \<and>
       4 / 5 \<le> success_fraction (skill_success_rate (td_db st) (sk_name c)))))"
proof -
  let ?st = "foldl (teach_step w) (start_teachd dir)"
  have "is_promoted (?st es) k" using assms by (simp add: is_promoted_def)
  moreover have "ids_ok (start_teachd dir)" "\<not> is_promoted (start_teachd dir) k"
    by (simp_all add: ids_ok_def is_promoted_def statuses_def start_teachd_def init_db_def get_skill_candidate_def)
  ultimately obtain es1 e es2 where es: "es = es1 @ e # es2" and g: "promotes (?st es1) e k"
    using promoted_skills.granted_in_run by blast
  show ?thesis
    by (intro exI [of _ es1] exI [of _ e] exI [of _ es2] conjI es)
      (use g in \<open>elim promotesE; auto simp: Let_def split: option.splits\<close>)
qed

theorem skill_promotion_witness:
  "\<exists>es1 e es2. sample_skill_calls @ [PromoteSkill False ''f'' ''sc-a-b-c''] = es1 @ e # es2 \<and>
     ((\<exists>io now. e = PromoteSkill io now ''sc-a-b-c'') \<or> (\<exists>io now. e = VerifyCycle io now))"
proof -
  have "statuses (foldl (teach_step sample_teach_world) (start_teachd ''/s'')
      (sample_skill_calls @ [PromoteSkill False ''f'' ''sc-a-b-c''])) ''sc-a-b-c'' = Some Promoted" by code_simp
  from skill_promotion [OF this] show ?thesis unfolding Let_def by blast
qed

text \<open>C32 (refinement). The daemon implements the life cycle of a skill: through the statuses of the skills every
  run is a run of the machine in which a skill appears as pending, is generated, is promoted or
  rejected, and may be retired once promoted; no skill disappears or goes back in this order, and a
  rejected or retired row never changes again.\<close>

theorem skill_lifecycle:
  assumes "skill_of (foldl (teach_step w) (start_teachd dir) es1) k = Some c"
    and "sk_status c = Rejected \<or> sk_status c = Retired"
  shows "life_step\<^sup>*\<^sup>* (\<lambda>_. None) (statuses (foldl (teach_step w) (start_teachd dir) es)) \<and>
    (statuses (foldl (teach_step w) (start_teachd dir) es) j = Some s \<longrightarrow>
      (\<exists>t. statuses (foldl (teach_step w) (start_teachd dir) (es @ fs)) j = Some t \<and> s \<le> t)) \<and>
    skill_of (foldl (teach_step w) (start_teachd dir) (es1 @ es2)) k = Some c"
proof (intro conjI impI)
  let ?st = "foldl (teach_step w) (start_teachd dir)"
  have start: "ids_ok (start_teachd dir)" "statuses (start_teachd dir) = (\<lambda>_. None)"
    by (simp_all add: ids_ok_def statuses_def fun_eq_iff start_teachd_def init_db_def get_skill_candidate_def)
  have ok: "ids_ok (?st es)" for es using start(1) by (rule foldl_invariant [rotated]) (rule ids_ok_step)
  have steps: "life_step\<^sup>*\<^sup>* (statuses (?st es)) (statuses (?st (es @ fs)))" for es fs
  proof (induction fs rule: rev_induct)
    case (snoc f fs)
    then show ?case using life_refined [OF ok [of "es @ fs"], of w f] by (simp add: rtranclp.rtrancl_into_rtrancl)
  qed simp
  show "life_step\<^sup>*\<^sup>* (\<lambda>_. None) (statuses (?st es))" using steps [of "[]" es] by (simp add: start)
  show "statuses (?st es) j = Some s \<Longrightarrow> \<exists>t. statuses (?st (es @ fs)) j = Some t \<and> s \<le> t"
    by (rule life_steps_climb [OF steps])
  show "skill_of (?st (es1 @ es2)) k = Some c"
    using skill_store.settled_run [OF ok [of es1] _ assms(1)] assms(2) by (simp add: skill_settled_def)
qed

theorem skill_lifecycle_witness:
  "map_option sk_status (skill_of (foldl (teach_step sample_teach_world) (start_teachd ''/s'')
     ((sample_skill_calls @ sample_failures @ [VerifyCycle False ''f'']) @ [PromoteSkill False ''g'' ''sc-a-b-c''])) ''sc-a-b-c'') = Some Rejected"
proof -
  let ?st = "foldl (teach_step sample_teach_world) (start_teachd ''/s'') (sample_skill_calls @ sample_failures @ [VerifyCycle False ''f''])"
  have s: "map_option sk_status (skill_of ?st ''sc-a-b-c'') = Some Rejected" by code_simp
  then obtain c where c: "skill_of ?st ''sc-a-b-c'' = Some c" "sk_status c = Rejected" by auto
  from skill_lifecycle [OF c(1), where ?es2.0 = "[PromoteSkill False ''g'' ''sc-a-b-c'']"] c(2) show ?thesis by simp
qed

text \<open>Skill files stay in the skills directory: whatever calls came, a file whose contents
  changed is the \<open>SKILL.md\<close> of a directory \<open>auto-<name>\<close> of the skills directory, the name being one
  path component without a parent reference.\<close>

theorem skill_files_confined:
  assumes "td_files (foldl (teach_step w) (start_teachd dir\<lparr>td_files := F\<rparr>) es) p \<noteq> F p"
  shows "\<exists>name. p = path_join (path_join dir (''auto-'' @ name)) ''SKILL.md'' \<and> name \<noteq> [] \<and>
    CHR ''/'' \<notin> set name \<and> CHR 0x5C \<notin> set name \<and> \<not> contains name ''..''"
  using files_run [where w = w and dir = dir and F = F and es = es and p = p] assms
  by (auto simp: confined_path_def bad_skill_name_def skill_file_path_def)

theorem skill_files_confined_witness:
  "\<exists>name. ''/s/auto-a-and-b-and-c/SKILL.md'' = path_join (path_join ''/s'' (''auto-'' @ name)) ''SKILL.md'' \<and> name \<noteq> []"
proof -
  have "td_files (foldl (teach_step sample_teach_world) (start_teachd ''/s''\<lparr>td_files := (\<lambda>_. None)\<rparr>) sample_skill_calls)
      ''/s/auto-a-and-b-and-c/SKILL.md'' \<noteq> None" by code_simp
  from skill_files_confined [OF this] show ?thesis by blast
qed

text \<open>C33 (functional). The skill detector finds exactly what recurs: with hash maps listed in any order, the
  sequences found are those of three to six tools that ran without interruption in at least \<open>n\<close>
  sessions, each listed once.\<close>

theorem tool_sequences_found:
  assumes "\<And>ws. distinct (wo ws) = distinct ws" and "\<And>ws. set (wo ws) = set ws" and "0 < n"
    and "rows = recent_actions db cutoff"
  shows "distinct (List.map tq_tools (find_tool_sequences so wo db cutoff n)) \<and>
    (\<forall>w. w \<in> tq_tools ` set (find_tool_sequences so wo db cutoff n) \<longleftrightarrow>
      3 \<le> length w \<and> length w \<le> 6 \<and>
      n \<le> card {s \<in> aa_session ` set rows. \<exists>u v. session_tools rows s = u @ w @ v})"
  using found_sequences [where wo = wo and so = so, OF assms] by (simp add: ran_in_def)

theorem tool_sequences_found_witness:
  "[''a'', ''b'', ''c''] \<in> tq_tools ` set (find_tool_sequences id rev sample_actions ''0'' 3)"
proof -
  let ?rows = "recent_actions sample_actions ''0''"
  let ?S = "{s \<in> aa_session ` set ?rows. \<exists>u v. session_tools ?rows s = u @ [''a'', ''b'', ''c''] @ v}"
  have "remdups (List.map aa_session ?rows) = [''s1'', ''s2'', ''s3'']" by code_simp
  then have "aa_session ` set ?rows = {''s1'', ''s2'', ''s3''}" by (metis list.set(1,2) set_map set_remdups)
  moreover have "List.map (session_tools ?rows) [''s1'', ''s2'', ''s3''] = replicate 3 ([] @ [''a'', ''b'', ''c''] @ [])" by code_simp
  then have "\<forall>s \<in> {''s1'', ''s2'', ''s3''}. session_tools ?rows s = [] @ [''a'', ''b'', ''c''] @ []" by (simp add: numeral_3_eq_3)
  then have "\<forall>s \<in> {''s1'', ''s2'', ''s3''}. \<exists>u v. session_tools ?rows s = u @ [''a'', ''b'', ''c''] @ v" by blast
  ultimately have "{''s1'', ''s2'', ''s3''} \<subseteq> ?S" by (simp only: subset_iff mem_Collect_eq Ball_def) iprover
  then have "card {''s1'', ''s2'', ''s3''} \<le> card ?S" by (intro card_mono) simp_all
  then have "3 \<le> card ?S" by simp
  with conjunct2 [OF tool_sequences_found [where wo = rev and so = id and n = 3, OF _ _ _ refl], THEN spec, of "[''a'', ''b'', ''c'']" sample_actions "''0''"]
  show ?thesis by simp
qed

section \<open>osmoda-routines\<close>

text \<open>C34 (equivalence). Cron fields mean what the documentation says: an expression of five fields, each a
  list of items \<open>*\<close>, \<open>*/n\<close>, \<open>n\<close> or \<open>a-b\<close>, matches a clock time exactly when in every field some item
  holds of the clock's value, and an expression without five fields never matches.\<close>

theorem cron_semantics:
  assumes "length fs = 5" and "list_all (\<lambda>items. items \<noteq> [] \<and> list_all item_fits items) fs"
    and "length (split_whitespace e) \<noteq> 5"
  shows "cron_matches (join '' '' (List.map field_text fs)) now =
      list_all2 (\<lambda>items v. list_ex (\<lambda>i. item_holds i v) items) fs
        [ct_minute now, ct_hour now, ct_day now, ct_month now, ct_weekday now] \<and>
    \<not> cron_matches e now"
  using cron_fields [OF assms(1,2)] assms(3) by (simp add: cron_matches_def)

theorem cron_semantics_witness:
  "cron_matches ''*/15 9-17 * * 1,3'' sample_monday \<and> \<not> cron_matches ''* * *'' sample_monday"
proof -
  have d: "dec 15 = ''15''" "dec 9 = ''9''" "dec 17 = ''17''" "dec (Suc 0) = ''1''" "dec 3 = ''3''" by code_simp+
  have t: "join '' '' (List.map field_text [[Every 15], [Between 9 17], [Any], [Any], [Exactly 1, Exactly 3]]) = ''*/15 9-17 * * 1,3''"
    by (simp add: field_text_def d)
  show ?thesis unfolding t [symmetric]
    using cron_semantics [of "[[Every 15], [Between 9 17], [Any], [Any], [Exactly 1, Exactly 3]]" "''* * *''" sample_monday]
    by (simp add: sample_monday_def split_whitespace_def is_whitespace_def)
qed





section \<open>osmoda-egress\<close>



text \<open>The internal IPv4 addresses are exactly the blocks the standards reserve: the byte
  tests of the proxy decide membership of the 32-bit address in seven ranges.\<close>

theorem internal_ranges:
  "is_internal_ip (V4 a b c d) \<longleftrightarrow>
     (\<exists>p \<in> set [(v4_value 127 0 0 0, 24), (v4_value 10 0 0 0, 24), (v4_value 172 16 0 0, 20), (v4_value 192 168 0 0, 16),
        (v4_value 169 254 0 0, 16), (v4_value 255 255 255 255, 0), (v4_value 0 0 0 0, 0)].
        fst p \<le> v4_value a b c d \<and> v4_value a b c d < fst p + 2 ^ snd p)"
  using internal_v4 unfolding internal_blocks_def by (simp add: in_block_def split_def)

section \<open>osmoda-mcpd\<close>



text \<open>C39 (liveness). What crashed is restarted: after any run, one tick of the manager loop in which processes
  can be started leaves every server that was running with a live process, and the others as
  they were.\<close>

theorem mcp_tick_heals:
  assumes "distinct (List.map sc_name configs)"
    and "enabled_run mcp_enabled mcp_step (start_mcpd io envs0 port configs) es"
    and "st = foldl mcp_step (start_mcpd io envs0 port configs) es"
    and "\<And>h. is_ok (tw h)" and "\<And>i. is_ok (se_spawn (envs i))" and "i < length (mc_servers st)"
  shows "let s = mc_servers st ! i; st' = manager_tick tw envs st; s' = mc_servers st' ! i in
    if ms_status s = Running
    then ms_status s' = Running \<and> (\<exists>h. ms_child s' = Some h \<and> h \<in> set (pr_live (mc_procs st')))
    else s' = s"
proof -
  have ok: "mcp_ok st"
    using mcp_run_port [OF assms(2) start_mcpd_ok [OF assms(1)]] assms(3) by auto
  have "waits_ok tw" using assms(4) by (simp add: waits_ok_def)
  from tick_heals [OF ok this assms(5,6)] show ?thesis unfolding Let_def alive_def .
qed

theorem mcp_tick_heals_witness:
  "let st = foldl mcp_step (start_mcpd False (\<lambda>_. sample_start) 8888 [sample_server ''a'', sample_server ''b'']) [ProcExited 0];
       st' = manager_tick (\<lambda>_. Inr ''0'') (\<lambda>_. sample_start) st
   in pr_live (mc_procs st) = [1] \<and> (\<exists>h. ms_child (mc_servers st' ! 0) = Some h \<and> h \<in> set (pr_live (mc_procs st')))"
proof -
  let ?st = "foldl mcp_step (start_mcpd False (\<lambda>_. sample_start) 8888 [sample_server ''a'', sample_server ''b'']) [ProcExited 0]"
  have d: "distinct (List.map sc_name [sample_server ''a'', sample_server ''b''])" by (simp add: sample_server_def)
  have live: "pr_live (mc_procs ?st) = [1]" and i: "0 < length (mc_servers ?st)" and r: "ms_status (mc_servers ?st ! 0) = Running"
    by (simp_all add: start_mcpd_def start_one_def start_server_def from_config_def sample_start_def
        write_openclaw_config_def log_mcp_def kill_def Let_def)
  from mcp_tick_heals [OF d _ refl _ _ i, of "\<lambda>_. Inr ''0''" "\<lambda>_. sample_start"] r show ?thesis
    unfolding Let_def live by (simp add: sample_start_def)
qed

section \<open>agentd: a request that closes the gate\<close>

text \<open>C40 (error). The approval gate fails closed: a request whose lifetime cannot be added to the clock panics
  with the database locked, and from then on, whatever is called, no approval is created or
  decided, listing the pending ones panics, and every destructive command is refused.\<close>

theorem gate_fails_closed:
  assumes "app_gate st = Some g" and "is_destructive g cmd"
    and "length cmd \<le> 4096" and "length (case actor of None \<Rightarrow> ''agent'' | Some a \<Rightarrow> a) \<le> 256" and "length reason \<le> 1024"
    and "ce_plus_secs env (case ttl of None \<Rightarrow> default_ttl_secs | Some t \<Rightarrow> t) = None"
    and "st' = foldl (agent_step w) st (RequestApproval env cmd actor reason ttl # cs)"
  shows "approval_pending_handler st' = Panic \<and>
    (\<exists>g'. app_gate st' = Some g' \<and> gate_rows g' = gate_rows g \<and>
      (\<forall>c i. is_destructive g' c \<longrightarrow> \<not> is_ok (check_and_reject g' c i)))"
proof -
  let ?g = "g\<lparr>poisoned := True\<rparr>" and ?st = "agent_step w st (RequestApproval env cmd actor reason ttl)"
  have p: "poisoned (foldl gate_step g (gate_events g (RequestApproval env cmd actor reason ttl)))"
    "gate_rows (foldl gate_step g (gate_events g (RequestApproval env cmd actor reason ttl))) = gate_rows g"
    using assms(2-6) by (simp_all add: gate_events_def request_approval_def)
  have "app_gate ?st = Some (foldl gate_step g (gate_events g (RequestApproval env cmd actor reason ttl)))"
    using assms(1) by (rule agent_step_gate)
  from agent_run_gate [OF this, of w cs] p poisoned_run show ?thesis
    unfolding assms(7) by (auto simp: approval_pending_handler_def list_pending_def poisoned_refuses)
qed

theorem gate_fails_closed_witness:
  "approval_pending_handler (foldl (agent_step sample_world) sample_app
     (RequestApproval (sample_env ''r1''\<lparr>ce_plus_secs := (\<lambda>_. None)\<rparr>) ''reboot'' None ''why'' (Some 9223372036854775807) # sample_calls)) = Panic"
proof -
  have d: "is_destructive (new_gate []) ''reboot''" by code_simp
  show ?thesis
    by (rule conjunct1 [OF gate_fails_closed [of sample_app, OF _ d _ _ _ _ refl]]) (simp_all add: sample_app_def sample_env_def)
qed

end
